(* ===== verification/Prelude.thy ===== *)
theory Prelude
  imports Main "HOL-Library.Word"
begin

text \<open>
  Shared vocabulary of the development: the machine integers and the clock of the Go
  runtime, the byte strings and the functions of the packages \<open>strings\<close> and \<open>strconv\<close>
  that the program calls, and reachability in a labelled step relation with the locale that
  turns a preserved predicate into an invariant.

  A Go \<open>string\<close> is a list of bytes, so it is modelled by \<open>string\<close> (a \<open>char\<close> is one byte).
  A Go \<open>int\<close> and a \<open>time.Duration\<close> are 64-bit signed integers: they are values of type
  \<open>int\<close>, and every product or sum of the program that can leave the range is wrapped
  explicitly by \<open>i64\<close>.
\<close>

named_theorems strs \<open>unfolding of the string functions of the Go library\<close>

section \<open>Machine integers, durations and the clock\<close>

definition i64 :: "int \<Rightarrow> int" where
  "i64 x = (x + 2 ^ 63) mod 2 ^ 64 - 2 ^ 63"

definition in_i64 :: "int \<Rightarrow> bool" where
  "in_i64 x \<longleftrightarrow> - (2 ^ 63) \<le> x \<and> x < 2 ^ 63"

lemma i64_range: "in_i64 (i64 x)"
  unfolding in_i64_def i64_def
  using pos_mod_bound [of "2 ^ 64" "x + 2 ^ 63"] pos_mod_sign [of "2 ^ 64" "x + 2 ^ 63"]
  by simp

lemma i64_id [simp]: "in_i64 x \<Longrightarrow> i64 x = x"
  unfolding in_i64_def i64_def by (subst mod_pos_pos_trivial) auto

text \<open>
  The clock: \<open>time.Now()\<close> is a number of nanoseconds. \<open>time.Time\<close> spans far more than
  64 bits of nanoseconds, so adding a duration to an instant does not wrap; a product of a
  number of minutes and \<open>time.Minute\<close> is computed in \<open>time.Duration\<close> and does.
\<close>

type_synonym instant = int
type_synonym duration = int

definition second :: duration where
  "second = 1000000000"

definition minute :: duration where
  "minute = 60 * second"

text \<open>\<open>time.Duration(m) * time.Minute\<close>\<close>

definition minutes :: "int \<Rightarrow> duration" where
  "minutes m = i64 (m * minute)"

lemma minutes_small: "\<bar>m\<bar> \<le> 153722867 \<Longrightarrow> minutes m = m * minute"
  unfolding minutes_def by (rule i64_id) (auto simp: in_i64_def minute_def second_def)

text \<open>One minute more than fits wraps to a negative duration.\<close>

lemma minutes_wraps: "minutes 153722868 < 0"
  by (simp add: minutes_def i64_def minute_def second_def)

section \<open>Functions of the package strings\<close>

definition has_prefix :: "string \<Rightarrow> string \<Rightarrow> bool" where
  "has_prefix s p \<longleftrightarrow> take (length p) s = p"

definition trim_prefix :: "string \<Rightarrow> string \<Rightarrow> string" where
  "trim_prefix s p = (if has_prefix s p then drop (length p) s else s)"

definition cut_prefix :: "string \<Rightarrow> string \<Rightarrow> string option" where
  "cut_prefix s p = (if has_prefix s p then Some (drop (length p) s) else None)"

definition has_suffix :: "string \<Rightarrow> string \<Rightarrow> bool" where
  "has_suffix s p \<longleftrightarrow> length p \<le> length s \<and> drop (length s - length p) s = p"

fun index_byte :: "string \<Rightarrow> char \<Rightarrow> nat option" where
  "index_byte [] c = None"
| "index_byte (x # xs) c = (if x = c then Some 0 else map_option Suc (index_byte xs c))"

fun last_index_byte :: "string \<Rightarrow> char \<Rightarrow> nat option" where
  "last_index_byte [] c = None"
| "last_index_byte (x # xs) c =
     (case last_index_byte xs c of
        Some i \<Rightarrow> Some (Suc i)
      | None \<Rightarrow> (if x = c then Some 0 else None))"

text \<open>\<open>strings.SplitN(s, sep, n)\<close> for a separator of one byte and \<open>n > 0\<close>.\<close>

fun split_n :: "string \<Rightarrow> char \<Rightarrow> nat \<Rightarrow> string list" where
  "split_n s c 0 = []"
| "split_n s c (Suc 0) = [s]"
| "split_n s c (Suc (Suc n)) =
     (case index_byte s c of
        None \<Rightarrow> [s]
      | Some i \<Rightarrow> take i s # split_n (drop (Suc i) s) c (Suc n))"

lemmas [strs] = has_prefix_def trim_prefix_def cut_prefix_def has_suffix_def

lemma has_prefix_append [simp]: "has_prefix (p @ s) p"
  by (simp add: strs)

lemma trim_prefix_append [simp]: "trim_prefix (p @ s) p = s"
  by (simp add: strs)

lemma cut_prefix_append [simp]: "cut_prefix (p @ s) p = Some s"
  by (simp add: strs)

lemma cut_prefix_Some: "cut_prefix s p = Some t \<longleftrightarrow> s = p @ t"
  by (auto simp: strs) (metis append_take_drop_id)

lemma has_suffix_append [simp]: "has_suffix (s @ p) p"
  by (simp add: strs)

lemma index_byte_None: "index_byte s c = None \<longleftrightarrow> c \<notin> set s"
  by (induction s) auto

lemma index_byte_absent [simp]: "c \<notin> set s \<Longrightarrow> index_byte s c = None"
  by (simp add: index_byte_None)

lemma index_byte_append: "c \<notin> set s \<Longrightarrow> index_byte (s @ c # t) c = Some (length s)"
  by (induction s) auto

lemma index_byte_Some:
  "index_byte s c = Some i \<Longrightarrow> i < length s \<and> s ! i = c \<and> c \<notin> set (take i s)"
  by (induction s arbitrary: i) (auto split: if_splits)

lemma last_index_byte_absent [simp]: "c \<notin> set s \<Longrightarrow> last_index_byte s c = None"
  by (induction s) (auto split: option.splits)

lemma last_index_byte_append:
  "c \<notin> set t \<Longrightarrow> last_index_byte (s @ c # t) c = Some (length s)"
proof (induction s)
  case Nil
  then show ?case by (simp split: option.splits)
next
  case (Cons x xs)
  then show ?case by simp
qed

lemma split_n_last: "c \<notin> set s \<Longrightarrow> split_n s c (Suc n) = [s]"
  by (cases n) simp_all

lemma split_n_cons:
  "c \<notin> set s \<Longrightarrow> split_n (s @ c # t) c (Suc (Suc n)) = s # split_n t c (Suc n)"
  by (simp add: index_byte_append)

section \<open>Decimal numbers: strconv.Atoi and strconv.Itoa\<close>

definition is_digit :: "char \<Rightarrow> bool" where
  "is_digit c \<longleftrightarrow> 48 \<le> (of_char c :: nat) \<and> (of_char c :: nat) \<le> 57"

definition digit_val :: "char \<Rightarrow> nat" where
  "digit_val c = of_char c - 48"

definition digit_char :: "nat \<Rightarrow> char" where
  "digit_char d = char_of (48 + d)"

fun dec_val :: "nat \<Rightarrow> string \<Rightarrow> nat option" where
  "dec_val n [] = Some n"
| "dec_val n (c # cs) = (if is_digit c then dec_val (10 * n + digit_val c) cs else None)"

text \<open>
  \<open>strconv.Atoi\<close>: an optional sign, at least one digit, nothing else, and a value in the
  range of \<open>int\<close>. Both error kinds (syntax and range) are \<open>None\<close>: the callers test only
  whether there was an error.
\<close>

definition atoi :: "string \<Rightarrow> int option" where
  "atoi s =
     (let neg = has_prefix s ''-'';
          ds = (if neg \<or> has_prefix s ''+'' then drop 1 s else s)
      in if ds = [] then None
         else case dec_val 0 ds of
                None \<Rightarrow> None
              | Some n \<Rightarrow> (let v = (if neg then - int n else int n)
                            in if in_i64 v then Some v else None))"

fun nat_dec :: "nat \<Rightarrow> string" where
  "nat_dec n = (if n < 10 then [digit_char n] else nat_dec (n div 10) @ [digit_char (n mod 10)])"

declare nat_dec.simps [simp del]

definition itoa :: "int \<Rightarrow> string" where
  "itoa i = (if i < 0 then ''-'' @ nat_dec (nat (- i)) else nat_dec (nat i))"

lemma digit_char_digit [simp]: "d < 10 \<Longrightarrow> is_digit (digit_char d)"
  by (simp add: is_digit_def digit_char_def of_char_of)

lemma digit_val_char [simp]: "d < 10 \<Longrightarrow> digit_val (digit_char d) = d"
  by (simp add: digit_val_def digit_char_def of_char_of)

lemma dec_val_append:
  "dec_val n (xs @ ys) = (case dec_val n xs of None \<Rightarrow> None | Some m \<Rightarrow> dec_val m ys)"
  by (induction xs arbitrary: n) auto

lemma dec_val_nat_dec [simp]: "dec_val 0 (nat_dec n) = Some n"
proof (induction n rule: nat_dec.induct)
  case (1 n)
  then show ?case
    by (cases "n < 10") (simp_all add: nat_dec.simps [of n] dec_val_append)
qed

lemma nat_dec_digits: "c \<in> set (nat_dec n) \<Longrightarrow> is_digit c"
proof (induction n rule: nat_dec.induct)
  case (1 n)
  then show ?case
    by (cases "n < 10") (auto simp add: nat_dec.simps [of n])
qed

lemma nat_dec_nonempty [simp]: "nat_dec n \<noteq> []"
  by (simp add: nat_dec.simps [of n])

lemma not_digit_signs [simp]:
  "\<not> is_digit CHR ''-''" "\<not> is_digit CHR ''+''" "\<not> is_digit CHR ''.''"
  by (simp_all add: is_digit_def)

lemma nat_dec_hd: "\<exists>c cs. nat_dec n = c # cs \<and> is_digit c"
  by (metis list.set_intros(1) nat_dec_digits nat_dec_nonempty neq_Nil_conv)

lemma atoi_digits:
  assumes "ds = c # cs" and "is_digit c" and "dec_val 0 ds = Some n" and "in_i64 (int n)"
  shows "atoi ds = Some (int n)"
proof -
  from assms(2) have "c \<noteq> CHR ''-''" and "c \<noteq> CHR ''+''" by auto
  then have "\<not> has_prefix ds ''-''" and "\<not> has_prefix ds ''+''"
    by (simp_all add: assms(1) has_prefix_def)
  with assms show ?thesis by (simp add: atoi_def)
qed

lemma atoi_minus: "ds \<noteq> [] \<Longrightarrow> dec_val 0 ds = Some n \<Longrightarrow> in_i64 (- int n) \<Longrightarrow>
  atoi (CHR ''-'' # ds) = Some (- int n)"
  by (simp add: atoi_def has_prefix_def Let_def)

lemma atoi_itoa [simp]: "in_i64 i \<Longrightarrow> atoi (itoa i) = Some i"
proof (cases "i < 0")
  case True
  moreover assume "in_i64 i"
  ultimately show ?thesis
    using atoi_minus [of "nat_dec (nat (- i))" "nat (- i)"] by (simp add: itoa_def)
next
  case False
  moreover assume "in_i64 i"
  moreover obtain c cs where "nat_dec (nat i) = c # cs" and "is_digit c"
    using nat_dec_hd by blast
  then have "in_i64 (int (nat i)) \<Longrightarrow> atoi (nat_dec (nat i)) = Some (int (nat i))"
    using atoi_digits dec_val_nat_dec by blast
  ultimately show ?thesis by (simp add: itoa_def)
qed

section \<open>Reachable states of a labelled step relation\<close>

inductive reach :: "('s \<Rightarrow> bool) \<Rightarrow> ('s \<Rightarrow> 'l \<Rightarrow> 's \<Rightarrow> bool) \<Rightarrow> 's \<Rightarrow> bool"
  for init step where
  reach_init: "init s \<Longrightarrow> reach init step s"
| reach_step: "reach init step s \<Longrightarrow> step s l t \<Longrightarrow> reach init step t"

lemma reach_mono:
  assumes "\<And>s. init s \<Longrightarrow> init' s" and "\<And>s l t. step s l t \<Longrightarrow> step' s l t"
  shows "reach init step s \<Longrightarrow> reach init' step' s"
  by (induction rule: reach.induct) (auto intro: reach.intros assms)

text \<open>
  The contract of an inductive invariant: it holds initially and every step keeps it. The
  components that are state machines interpret this locale on their own step relation.
\<close>

locale inductive_invariant =
  fixes init :: "'s \<Rightarrow> bool"
    and step :: "'s \<Rightarrow> 'l \<Rightarrow> 's \<Rightarrow> bool"
    and inv :: "'s \<Rightarrow> bool"
  assumes inv_init: "init s \<Longrightarrow> inv s"
    and inv_step: "inv s \<Longrightarrow> step s l t \<Longrightarrow> inv t"
begin

lemma reach_inv: "reach init step s \<Longrightarrow> inv s"
  by (induction rule: reach.induct) (auto intro: inv_init inv_step)

end

end
