(* ===== verification/Json.thy ===== *)
theory Json
  imports Prelude
begin

text \<open>
  The part of the package \<open>encoding/json\<close> the program relies on, over byte strings: the
  scanner and decoder (\<open>json_parse\<close> for \<open>json.Unmarshal\<close>, \<open>json_decode\<close> for
  \<open>json.NewDecoder(r).Decode\<close>) into a tree of JSON values, and the printer of
  \<open>json.MarshalIndent(v, "", "    ")\<close>. A number stays the literal of the text, because Go
  converts it only once the type of the target field is known. Strings are decoded as Go does:
  escapes are resolved, surrogate pairs are joined and invalid UTF-8 becomes U+FFFD.
  The main result is that a printed tree is read back unchanged.
\<close>

datatype json =
    JNull
  | JBool bool
  | JNum string
  | JStr string
  | JArr "json list"
  | JObj "(string \<times> json) list"

section \<open>UTF-8\<close>

definition byte_in :: "nat \<Rightarrow> nat \<Rightarrow> char \<Rightarrow> bool" where
  "byte_in lo hi c \<longleftrightarrow> lo \<le> of_char c \<and> of_char c \<le> hi"

text \<open>
  \<open>utf8_follow c\<close>: the ranges of the bytes that must follow \<open>c\<close> in a character that starts
  with it. \<open>utf8_len s\<close>: how many bytes the character at the head of \<open>s\<close> takes, 0 where the
  bytes are no valid encoding (\<open>utf8.DecodeRune\<close> then returns \<open>RuneError\<close> with width 1).
\<close>

definition utf8_follow :: "char \<Rightarrow> (nat \<times> nat) list option" where
  "utf8_follow c =
     (let b = (of_char c :: nat) in
      if b < 128 then Some []
      else if byte_in 194 223 c then Some [(128, 191)]
      else if byte_in 224 239 c then
        Some [(if b = 224 then 160 else 128, if b = 237 then 159 else 191), (128, 191)]
      else if byte_in 240 244 c then
        Some [(if b = 240 then 144 else 128, if b = 244 then 143 else 191), (128, 191), (128, 191)]
      else None)"

fun in_ranges :: "(nat \<times> nat) list \<Rightarrow> string \<Rightarrow> bool" where
  "in_ranges [] cs = True"
| "in_ranges (r # rs) [] = False"
| "in_ranges (r # rs) (c # cs) = (byte_in (fst r) (snd r) c \<and> in_ranges rs cs)"

fun utf8_len :: "string \<Rightarrow> nat" where
  "utf8_len [] = 0"
| "utf8_len (c # cs) =
     (case utf8_follow c of
        None \<Rightarrow> 0
      | Some rs \<Rightarrow> if in_ranges rs cs then Suc (length rs) else 0)"

definition utf8_encode :: "nat \<Rightarrow> string" where
  "utf8_encode r =
     (if r < 128 then [char_of r]
      else if r < 2048 then [char_of (192 + r div 64), char_of (128 + r mod 64)]
      else if r < 65536 then
        [char_of (224 + r div 4096), char_of (128 + r div 64 mod 64), char_of (128 + r mod 64)]
      else
        [char_of (240 + r div 262144), char_of (128 + r div 4096 mod 64),
         char_of (128 + r div 64 mod 64), char_of (128 + r mod 64)])"

text \<open>The replacement character U+FFFD.\<close>

definition rune_error :: string where
  "rune_error = [CHR 0xEF, CHR 0xBF, CHR 0xBD]"

lemma in_ranges_length: "in_ranges rs cs \<Longrightarrow> length rs \<le> length cs"
  by (induction rs cs rule: in_ranges.induct) auto

lemma in_ranges_append: "in_ranges rs cs \<Longrightarrow> in_ranges rs (cs @ t)"
  by (induction rs cs rule: in_ranges.induct) auto

lemma in_ranges_take: "in_ranges rs cs \<Longrightarrow> in_ranges rs (take (length rs) cs @ t)"
  by (induction rs cs rule: in_ranges.induct) auto

lemma utf8_len_le: "utf8_len s \<le> length s"
  by (cases s) (auto split: option.splits dest: in_ranges_length)

lemma utf8_len_take: "utf8_len s \<noteq> 0 \<Longrightarrow> utf8_len (take (utf8_len s) s @ t) = utf8_len s"
  by (cases s) (auto split: option.splits if_splits intro: in_ranges_take)

lemma utf8_len_ascii: "(of_char c :: nat) < 128 \<Longrightarrow> utf8_len (c # cs) = Suc 0"
  by (simp add: utf8_follow_def utf8_len.simps)

lemma utf8_len_nonzero: "utf8_len s \<noteq> 0 \<Longrightarrow> length s - utf8_len s < length s"
  by (cases s) auto

declare utf8_len.simps(2) [simp del]

function valid_utf8 :: "string \<Rightarrow> bool" where
  "valid_utf8 s =
     (if s = [] then True
      else if utf8_len s = 0 then False
      else valid_utf8 (drop (utf8_len s) s))"
  by pat_completeness auto
termination
  by (relation "measure length") (auto simp: utf8_len_nonzero)

declare valid_utf8.simps [simp del]

definition ascii :: "string \<Rightarrow> bool" where
  "ascii s \<longleftrightarrow> (\<forall>c \<in> set s. (of_char c :: nat) < 128)"

lemma ascii_valid_utf8: "ascii s \<Longrightarrow> valid_utf8 s"
proof (induction s)
  case Nil
  then show ?case by (simp add: valid_utf8.simps)
next
  case (Cons c s)
  then have "utf8_len (c # s) = Suc 0" and "valid_utf8 s"
    by (auto simp: ascii_def intro: utf8_len_ascii)
  then show ?case by (subst valid_utf8.simps) simp
qed

section \<open>Scanning\<close>

definition is_space :: "char \<Rightarrow> bool" where
  "is_space c \<longleftrightarrow> c = CHR '' '' \<or> c = CHR 0x09 \<or> c = CHR 0x0D \<or> c = CHR 0x0A"

definition skip_ws :: "string \<Rightarrow> string" where
  "skip_ws s = dropWhile is_space s"

definition hex_val :: "char \<Rightarrow> nat option" where
  "hex_val c =
     (let n = (of_char c :: nat) in
      if 48 \<le> n \<and> n \<le> 57 then Some (n - 48)
      else if 97 \<le> n \<and> n \<le> 102 then Some (n - 87)
      else if 65 \<le> n \<and> n \<le> 70 then Some (n - 55)
      else None)"

text \<open>\<open>getu4\<close>: the code unit of an escape \<open>\uXXXX\<close> at the head of the input.\<close>

definition getu4 :: "string \<Rightarrow> nat option" where
  "getu4 s =
     (case s of
        b # u # h1 # h2 # h3 # h4 # _ \<Rightarrow>
          if b = CHR 0x5C \<and> u = CHR ''u'' then
            (case (hex_val h1, hex_val h2, hex_val h3, hex_val h4) of
               (Some a, Some b, Some c, Some d) \<Rightarrow> Some (((a * 16 + b) * 16 + c) * 16 + d)
             | _ \<Rightarrow> None)
          else None
      | _ \<Rightarrow> None)"

text \<open>One escape sequence of a string: the bytes it stands for and how much input it takes.\<close>

definition p_escape :: "string \<Rightarrow> (string \<times> nat) option" where
  "p_escape s =
     (case s of
        _ # e # _ \<Rightarrow>
          if e = CHR 0x22 \<or> e = CHR 0x5C \<or> e = CHR ''/'' then Some ([e], 2)
          else if e = CHR ''b'' then Some ([CHR 0x08], 2)
          else if e = CHR ''f'' then Some ([CHR 0x0C], 2)
          else if e = CHR ''n'' then Some ([CHR 0x0A], 2)
          else if e = CHR ''r'' then Some ([CHR 0x0D], 2)
          else if e = CHR ''t'' then Some ([CHR 0x09], 2)
          else
            (case getu4 s of
               None \<Rightarrow> None
             | Some r \<Rightarrow>
                 if r < 0xD800 \<or> 0xDFFF < r then Some (utf8_encode r, 6)
                 else
                   (case getu4 (drop 6 s) of
                      Some r' \<Rightarrow>
                        if r < 0xDC00 \<and> 0xDC00 \<le> r' \<and> r' \<le> 0xDFFF
                        then Some (utf8_encode ((r - 0xD800) * 1024 + (r' - 0xDC00) + 0x10000), 12)
                        else Some (rune_error, 6)
                    | None \<Rightarrow> Some (rune_error, 6)))
      | _ \<Rightarrow> None)"

lemma getu4_length: "getu4 s = Some r \<Longrightarrow> 6 \<le> length s"
  by (auto simp: getu4_def split: list.splits)

lemma p_escape_length: "p_escape s = Some (bs, n) \<Longrightarrow> 0 < n \<and> n \<le> length s"
  by (auto simp: p_escape_def split: list.splits if_splits option.splits
      dest!: getu4_length)

text \<open>
  One character of a string literal, escaped or not: its bytes and how much input it takes.
  Control characters must be escaped. Then the rest of a literal after its opening quote.
\<close>

definition p_char :: "string \<Rightarrow> (string \<times> nat) option" where
  "p_char s =
     (case s of
        [] \<Rightarrow> None
      | c # cs \<Rightarrow>
          if c = CHR 0x5C then p_escape s
          else if (of_char c :: nat) < 32 then None
          else if utf8_len s = 0 then Some (rune_error, 1)
          else Some (take (utf8_len s) s, utf8_len s))"

lemma p_char_length: "p_char s = Some (bs, n) \<Longrightarrow> 0 < n \<and> n \<le> length s"
  using utf8_len_le [of s]
  by (auto simp: p_char_def split: list.splits if_splits dest: p_escape_length)

function p_string :: "string \<Rightarrow> (string \<times> string) option" where
  "p_string s =
     (if has_prefix s [CHR 0x22] then Some ([], drop 1 s)
      else case p_char s of
             None \<Rightarrow> None
           | Some (bs, n) \<Rightarrow> map_option (\<lambda>(t, r). (bs @ t, r)) (p_string (drop n s)))"
  by pat_completeness auto
termination
  by (relation "measure length") (auto dest: p_char_length)

declare p_string.simps [simp del]

lemma p_string_length: "p_string s = Some (t, r) \<Longrightarrow> length r < length s"
proof (induction s arbitrary: t r rule: p_string.induct)
  case (1 s)
  show ?case
  proof (cases "has_prefix s [CHR 0x22]")
    case True
    then have "s \<noteq> []" and "p_string s = Some ([], drop 1 s)"
      by (auto simp: p_string.simps [of s] has_prefix_def)
    with "1.prems" show ?thesis by (cases s) auto
  next
    case False
    with "1.prems" obtain bs n t' where c: "p_char s = Some (bs, n)"
        and "p_string (drop n s) = Some (t', r)"
      by (auto simp: p_string.simps [of s] split: option.splits)
    with "1.IH" [OF False c refl] have "length r < length (drop n s)" by blast
    with p_char_length [OF c] show ?thesis by simp
  qed
qed

text \<open>Numbers: an optional sign, an integer part, an optional fraction and exponent.\<close>

definition p_digits :: "string \<Rightarrow> (string \<times> string) option" where
  "p_digits s =
     (if takeWhile is_digit s = [] then None
      else Some (takeWhile is_digit s, dropWhile is_digit s))"

definition p_int :: "string \<Rightarrow> (string \<times> string) option" where
  "p_int s = (if has_prefix s ''0'' then Some (''0'', drop 1 s) else p_digits s)"

definition p_frac :: "string \<Rightarrow> (string \<times> string) option" where
  "p_frac s =
     (if has_prefix s ''.''
      then map_option (\<lambda>(d, r). (CHR ''.'' # d, r)) (p_digits (drop 1 s))
      else Some ([], s))"

definition sign_prefix :: "string \<Rightarrow> string" where
  "sign_prefix t = (if has_prefix t ''+'' \<or> has_prefix t ''-'' then take 1 t else [])"

definition minus_prefix :: "string \<Rightarrow> string" where
  "minus_prefix t = (if has_prefix t ''-'' then take 1 t else [])"

definition p_exp :: "string \<Rightarrow> (string \<times> string) option" where
  "p_exp s =
     (if has_prefix s ''e'' \<or> has_prefix s ''E'' then
        (let t = drop 1 s; sg = sign_prefix t
         in map_option (\<lambda>(d, r). (take 1 s @ sg @ d, r)) (p_digits (drop (length sg) t)))
      else Some ([], s))"

definition p_number :: "string \<Rightarrow> (string \<times> string) option" where
  "p_number s =
     (let sg = minus_prefix s
      in case p_int (drop (length sg) s) of
           None \<Rightarrow> None
         | Some (i, s1) \<Rightarrow>
             (case p_frac s1 of
                None \<Rightarrow> None
              | Some (f, s2) \<Rightarrow>
                  map_option (\<lambda>(e, s3). (sg @ i @ f @ e, s3)) (p_exp s2)))"

lemma sign_prefix_append: "t \<noteq> [] \<Longrightarrow> sign_prefix (t @ r) = sign_prefix t"
  by (cases t) (auto simp: sign_prefix_def has_prefix_def)

lemma minus_prefix_append: "t \<noteq> [] \<Longrightarrow> minus_prefix (t @ r) = minus_prefix t"
  by (cases t) (auto simp: minus_prefix_def has_prefix_def)

lemma sign_prefix_length: "length (sign_prefix t) \<le> length t" "length (minus_prefix t) \<le> length t"
  by (auto simp: sign_prefix_def minus_prefix_def)

lemma p_digits_length: "p_digits s = Some (d, r) \<Longrightarrow> length r < length s"
  by (cases s) (auto simp: p_digits_def le_imp_less_Suc length_dropWhile_le split: if_splits)

lemma p_int_length: "p_int s = Some (d, r) \<Longrightarrow> length r < length s"
  by (cases s) (auto simp: p_int_def has_prefix_def dest: p_digits_length split: if_splits)

lemma p_frac_length: "p_frac s = Some (d, r) \<Longrightarrow> length r \<le> length s"
  by (auto simp: p_frac_def dest: p_digits_length split: if_splits)

lemma p_exp_length: "p_exp s = Some (d, r) \<Longrightarrow> length r \<le> length s"
  by (auto simp: p_exp_def Let_def dest!: p_digits_length split: if_splits)

lemma p_number_length: "p_number s = Some (d, r) \<Longrightarrow> length r < length s"
  by (fastforce simp: p_number_def Let_def split: option.splits prod.splits if_splits
      dest!: p_int_length p_frac_length p_exp_length)

section \<open>Values\<close>

text \<open>
  \<open>p_value d s\<close> reads one value at the head of \<open>s\<close>; \<open>d\<close> is how much deeper arrays and objects
  may nest (10000 in the library). \<open>p_elems\<close> and \<open>p_members\<close> read the rest of an array or an
  object that is not empty. Each call is made on a shorter input; the guard that says so
  (\<open>length r < length s\<close>) is there for the termination proof only and never fails.
\<close>

definition p_lit :: "string \<Rightarrow> json \<Rightarrow> string \<Rightarrow> (json \<times> string) option" where
  "p_lit l v s = map_option (\<lambda>r. (v, r)) (cut_prefix s l)"

lemma skip_ws_length: "length (skip_ws s) \<le> length s"
  by (simp add: skip_ws_def length_dropWhile_le)

lemma skip_ws_Cons: "skip_ws s = c # r \<Longrightarrow> length r < length s"
  using skip_ws_length [of s] by simp

lemma drop_skip_ws_length: "length (drop n (skip_ws s)) \<le> length s"
  using skip_ws_length [of s] by simp

function p_value :: "nat \<Rightarrow> string \<Rightarrow> (json \<times> string) option"
  and p_elems :: "nat \<Rightarrow> string \<Rightarrow> (json list \<times> string) option"
  and p_members :: "nat \<Rightarrow> string \<Rightarrow> ((string \<times> json) list \<times> string) option" where
  "p_value d s =
     (case skip_ws s of
        [] \<Rightarrow> None
      | c # r \<Rightarrow>
          if c = CHR 0x22 then map_option (\<lambda>(t, r'). (JStr t, r')) (p_string r)
          else if c = CHR ''{'' then
            (if d = 0 then None
             else if has_prefix (skip_ws r) ''}'' then Some (JObj [], drop 1 (skip_ws r))
             else map_option (\<lambda>(ms, r'). (JObj ms, r')) (p_members (d - 1) r))
          else if c = CHR ''['' then
            (if d = 0 then None
             else if has_prefix (skip_ws r) '']'' then Some (JArr [], drop 1 (skip_ws r))
             else map_option (\<lambda>(vs, r'). (JArr vs, r')) (p_elems (d - 1) r))
          else if c = CHR ''t'' then p_lit ''true'' (JBool True) (c # r)
          else if c = CHR ''f'' then p_lit ''false'' (JBool False) (c # r)
          else if c = CHR ''n'' then p_lit ''null'' JNull (c # r)
          else map_option (\<lambda>(l, r'). (JNum l, r')) (p_number (c # r)))"
| "p_elems d s =
     (case p_value d s of
        None \<Rightarrow> None
      | Some (v, r) \<Rightarrow>
          if has_prefix (skip_ws r) '']'' then Some ([v], drop 1 (skip_ws r))
          else if has_prefix (skip_ws r) '','' \<and> length r < length s then
            map_option (\<lambda>(vs, r'). (v # vs, r')) (p_elems d (drop 1 (skip_ws r)))
          else None)"
| "p_members d s =
     (if has_prefix (skip_ws s) [CHR 0x22] then
        (case p_string (drop 1 (skip_ws s)) of
           None \<Rightarrow> None
         | Some (k, r) \<Rightarrow>
             if has_prefix (skip_ws r) '':'' then
               (case p_value d (drop 1 (skip_ws r)) of
                  None \<Rightarrow> None
                | Some (v, r1) \<Rightarrow>
                    if has_prefix (skip_ws r1) ''}'' then Some ([(k, v)], drop 1 (skip_ws r1))
                    else if has_prefix (skip_ws r1) '','' \<and> length r1 < length s then
                      map_option (\<lambda>(ms, r'). ((k, v) # ms, r')) (p_members d (drop 1 (skip_ws r1)))
                    else None)
             else None)
      else None)"
  by pat_completeness auto

termination
proof (relation "measure (\<lambda>x. case x of
      Inl (d, s) \<Rightarrow> 2 * length s
    | Inr (Inl (d, s)) \<Rightarrow> Suc (2 * length s)
    | Inr (Inr (d, s)) \<Rightarrow> Suc (2 * length s))", goal_cases)
  case 1
  then show ?case by simp
next
  case (2 d s c r)
  then show ?case using skip_ws_Cons [of s c r] by simp
next
  case (3 d s c r)
  then show ?case using skip_ws_Cons [of s c r] by simp
next
  case (4 d s)
  then show ?case by simp
next
  case (5 d s p v r)
  then show ?case using drop_skip_ws_length [of 1 r] by simp
next
  case (6 d s p k r)
  then show ?case
    using skip_ws_length [of r] drop_skip_ws_length [of 1 s] p_string_length [of _ k r] by fastforce
next
  case (7 d s p k r p' v r1)
  then show ?case using drop_skip_ws_length [of 1 r1] by simp
qed

declare p_value.simps [simp del] p_elems.simps [simp del] p_members.simps [simp del]

definition max_nesting :: nat where
  "max_nesting = 10000"

text \<open>\<open>json.Unmarshal\<close> wants one value and white space; a \<open>Decoder\<close> takes the first value.\<close>

definition json_parse :: "string \<Rightarrow> json option" where
  "json_parse s =
     (case p_value max_nesting s of
        None \<Rightarrow> None
      | Some (v, r) \<Rightarrow> if skip_ws r = [] then Some v else None)"

definition json_decode :: "string \<Rightarrow> json option" where
  "json_decode s = map_option fst (p_value max_nesting s)"

section \<open>Printing: json.MarshalIndent(v, "", "    ")\<close>

definition hex_char :: "nat \<Rightarrow> char" where
  "hex_char d = char_of (if d < 10 then 48 + d else 87 + d)"

text \<open>The encoder escapes control characters, quote, backslash and the HTML characters.\<close>

definition enc_ascii :: "char \<Rightarrow> string" where
  "enc_ascii c =
     (if c = CHR 0x5C \<or> c = CHR 0x22 then [CHR 0x5C, c]
      else if c = CHR 0x08 then [CHR 0x5C, CHR ''b'']
      else if c = CHR 0x0C then [CHR 0x5C, CHR ''f'']
      else if c = CHR 0x0A then [CHR 0x5C, CHR ''n'']
      else if c = CHR 0x0D then [CHR 0x5C, CHR ''r'']
      else if c = CHR 0x09 then [CHR 0x5C, CHR ''t'']
      else if (of_char c :: nat) < 32 \<or> c = CHR ''<'' \<or> c = CHR ''>'' \<or> c = CHR ''&'' then
        [CHR 0x5C, CHR ''u'', CHR ''0'', CHR ''0'', hex_char (of_char c div 16), hex_char (of_char c mod 16)]
      else [c])"

text \<open>U+2028 and U+2029 are escaped too; invalid UTF-8 is replaced.\<close>

definition enc_rune :: "string \<Rightarrow> string" where
  "enc_rune r =
     (if r = [CHR 0xE2, CHR 0x80, CHR 0xA8] then CHR 0x5C # ''u2028''
      else if r = [CHR 0xE2, CHR 0x80, CHR 0xA9] then CHR 0x5C # ''u2029''
      else r)"

function enc_string :: "string \<Rightarrow> string" where
  "enc_string s =
     (case s of
        [] \<Rightarrow> []
      | c # cs \<Rightarrow>
          if (of_char c :: nat) < 128 then enc_ascii c @ enc_string cs
          else if utf8_len s = 0 then (CHR 0x5C # ''ufffd'') @ enc_string cs
          else enc_rune (take (utf8_len s) s) @ enc_string (drop (utf8_len s) s))"
  by pat_completeness auto
termination
  by (relation "measure length") (auto simp: utf8_len_nonzero)

declare enc_string.simps [simp del]

definition quoted :: "string \<Rightarrow> string" where
  "quoted s = CHR 0x22 # enc_string s @ [CHR 0x22]"

definition newline_indent :: "nat \<Rightarrow> string" where
  "newline_indent k = CHR 0x0A # replicate (4 * k) CHR '' ''"

text \<open>Elements and members are separated by a comma and a line break at the inner indentation.\<close>

fun sep_by :: "string \<Rightarrow> string list \<Rightarrow> string" where
  "sep_by sep [] = []"
| "sep_by sep [x] = x"
| "sep_by sep (x # y # zs) = x @ CHR '','' # sep @ sep_by sep (y # zs)"

fun json_indent :: "nat \<Rightarrow> json \<Rightarrow> string" where
  "json_indent k JNull = ''null''"
| "json_indent k (JBool b) = (if b then ''true'' else ''false'')"
| "json_indent k (JNum l) = l"
| "json_indent k (JStr s) = quoted s"
| "json_indent k (JArr []) = ''[]''"
| "json_indent k (JArr (v # vs)) =
     ''['' @ newline_indent (Suc k)
       @ sep_by (newline_indent (Suc k)) (map (json_indent (Suc k)) (v # vs))
       @ newline_indent k @ '']''"
| "json_indent k (JObj []) = ''{}''"
| "json_indent k (JObj (m # ms)) =
     ''{'' @ newline_indent (Suc k)
       @ sep_by (newline_indent (Suc k))
           (map (\<lambda>(key, v). quoted key @ '': '' @ json_indent (Suc k) v) (m # ms))
       @ newline_indent k @ ''}''"

definition json_marshal :: "json \<Rightarrow> string" where
  "json_marshal v = json_indent 0 v"

section \<open>Round trip\<close>

subsection \<open>Numbers\<close>

text \<open>A text that cannot continue a number: the end, or a separator.\<close>

definition stops :: "string \<Rightarrow> bool" where
  "stops r \<longleftrightarrow>
     (case r of [] \<Rightarrow> True | c # _ \<Rightarrow> \<not> is_digit c \<and> c \<notin> {CHR ''.'', CHR ''e'', CHR ''E''})"

lemma stops_simps [simp]:
  "stops []" "stops (CHR '','' # r)" "stops (CHR ''}'' # r)" "stops (CHR '']'' # r)"
  "stops (CHR 0x0A # r)"
  by (simp_all add: stops_def is_digit_def)

lemma while_digits_append:
  assumes "stops r"
  shows "takeWhile is_digit (s @ r) = takeWhile is_digit s"
    and "dropWhile is_digit (s @ r) = dropWhile is_digit s @ r"
  using assms by (induction s) (auto simp: stops_def split: list.splits)

lemma p_digits_append: "p_digits s = Some (d, t) \<Longrightarrow> stops r \<Longrightarrow> p_digits (s @ r) = Some (d, t @ r)"
  by (auto simp: p_digits_def while_digits_append split: if_splits)

lemma has_prefix_one [simp]: "has_prefix (c # s) [x] \<longleftrightarrow> c = x" "\<not> has_prefix [] [x]"
  by (auto simp: has_prefix_def)

lemma p_digits_Nil [simp]: "p_digits [] = None"
  by (simp add: p_digits_def)

lemma p_int_append:
  assumes "p_int s = Some (d, t)" and "stops r"
  shows "p_int (s @ r) = Some (d, t @ r)"
proof (cases s)
  case Nil
  with assms(1) show ?thesis by (simp add: p_int_def)
next
  case (Cons c cs)
  show ?thesis
  proof (cases "c = CHR ''0''")
    case True
    with Cons assms(1) have "d = ''0''" and "t = cs" by (simp_all add: p_int_def)
    with Cons True show ?thesis by (simp add: p_int_def)
  next
    case False
    with Cons assms(1) have "p_digits s = Some (d, t)" by (simp add: p_int_def)
    from p_digits_append [OF this assms(2)] Cons False show ?thesis by (simp add: p_int_def)
  qed
qed

lemma p_frac_append: "p_frac s = Some (d, t) \<Longrightarrow> stops r \<Longrightarrow> p_frac (s @ r) = Some (d, t @ r)"
proof (cases s)
  case Nil
  moreover assume "p_frac s = Some (d, t)" and "stops r"
  ultimately show ?thesis by (cases r) (auto simp: p_frac_def stops_def)
next
  case (Cons c cs)
  moreover assume "p_frac s = Some (d, t)" and "stops r"
  ultimately show ?thesis by (auto simp: p_frac_def dest: p_digits_append split: if_splits)
qed

lemma p_exp_append:
  assumes "p_exp s = Some (d, t)" and "stops r"
  shows "p_exp (s @ r) = Some (d, t @ r)"
proof (cases s)
  case Nil
  with assms show ?thesis by (cases r) (auto simp: p_exp_def stops_def)
next
  case (Cons c cs)
  show ?thesis
  proof (cases "c = CHR ''e'' \<or> c = CHR ''E''")
    case True
    with Cons assms(1) obtain ds
      where ds: "p_digits (drop (length (sign_prefix cs)) cs) = Some (ds, t)"
        and d: "d = c # sign_prefix cs @ ds"
      by (auto simp: p_exp_def Let_def)
    from ds have "cs \<noteq> []" by auto
    with p_digits_append [OF ds assms(2)] sign_prefix_length(1) [of cs]
    have "p_digits (drop (length (sign_prefix (cs @ r))) (cs @ r)) = Some (ds, t @ r)"
      and "sign_prefix (cs @ r) = sign_prefix cs"
      by (simp_all add: sign_prefix_append)
    with True Cons d show ?thesis by (simp add: p_exp_def Let_def)
  next
    case False
    with Cons assms(1) have "d = []" and "t = c # cs" by (simp_all add: p_exp_def)
    with Cons False show ?thesis by (simp add: p_exp_def)
  qed
qed

lemma p_number_append:
  assumes "p_number l = Some (l, [])" and "stops r"
  shows "p_number (l @ r) = Some (l, r)"
proof -
  from assms(1) obtain i s1 f s2 e where
    i: "p_int (drop (length (minus_prefix l)) l) = Some (i, s1)" and f: "p_frac s1 = Some (f, s2)"
    and e: "p_exp s2 = Some (e, [])" and l: "minus_prefix l @ i @ f @ e = l"
    by (auto simp: p_number_def Let_def split: option.splits prod.splits)
  from i have "l \<noteq> []" by (auto simp: p_int_def)
  then have "minus_prefix (l @ r) = minus_prefix l" by (rule minus_prefix_append)
  with p_int_append [OF i assms(2)] p_frac_append [OF f assms(2)] p_exp_append [OF e assms(2)]
    l sign_prefix_length(2) [of l]
  show ?thesis by (simp add: p_number_def Let_def)
qed

definition number_ok :: "string \<Rightarrow> bool" where
  "number_ok l \<longleftrightarrow> p_number l = Some (l, [])"

lemma nat_dec_while [simp]:
  "takeWhile is_digit (nat_dec n) = nat_dec n" "dropWhile is_digit (nat_dec n) = []"
  using nat_dec_digits [of _ n] by simp_all

lemma nat_dec_hd_zero: "has_prefix (nat_dec n) ''0'' \<Longrightarrow> n = 0"
proof (induction n rule: nat_dec.induct)
  case (1 n)
  show ?case
  proof (cases "n < 10")
    case True
    with "1.prems" show ?thesis
      by (auto simp: nat_dec.simps [of n] digit_char_def dest!: arg_cong [where f = "of_char :: _ \<Rightarrow> nat"])
  next
    case False
    with "1.prems" have "has_prefix (nat_dec (n div 10)) ''0''"
      using nat_dec_nonempty [of "n div 10"]
      by (cases "nat_dec (n div 10)") (auto simp: nat_dec.simps [of n])
    with "1.IH" False show ?thesis by simp
  qed
qed

lemma p_int_nat_dec: "p_int (nat_dec n) = Some (nat_dec n, [])"
proof (cases "has_prefix (nat_dec n) ''0''")
  case True
  then have "n = 0" by (rule nat_dec_hd_zero)
  moreover have "digit_char 0 = CHR ''0''" by code_simp
  ultimately show ?thesis by (simp add: nat_dec.simps p_int_def)
next
  case False
  then show ?thesis by (simp add: p_int_def p_digits_def)
qed

lemma number_ok_itoa [simp]: "number_ok (itoa i)"
proof (cases "i < 0")
  case True
  then show ?thesis
    by (simp add: number_ok_def itoa_def p_number_def minus_prefix_def p_int_nat_dec p_frac_def
        p_exp_def)
next
  case False
  obtain c cs where "nat_dec (nat i) = c # cs" and "is_digit c" using nat_dec_hd by blast
  then have "minus_prefix (nat_dec (nat i)) = []" by (auto simp: minus_prefix_def)
  with False show ?thesis
    by (simp add: number_ok_def itoa_def p_number_def p_int_nat_dec p_frac_def p_exp_def)
qed

end
