(* ===== verification/Json_Roundtrip.thy ===== *)
theory Json_Roundtrip
  imports Json
begin

text \<open>
  The printer of \<open>json.MarshalIndent\<close> is inverted by the decoder: strings first, then whole
  trees by induction. The result is the interpretation of the locale \<open>codec\<close>, the contract on
  which the persistence of the configuration and of the schedule intent rests.
\<close>

section \<open>Strings\<close>

lemma hex_val_char [simp]: "d < 16 \<Longrightarrow> hex_val (hex_char d) = Some d"
  by (auto simp: hex_val_def hex_char_def of_char_of Let_def)

lemma hex_char_digit [simp]: "hex_val CHR ''0'' = Some 0" "hex_val CHR ''2'' = Some 2"
  "hex_val CHR ''8'' = Some 8" "hex_val CHR ''9'' = Some 9"
  by (simp_all add: hex_val_def)

lemma p_char_simple:
  "32 \<le> (of_char c :: nat) \<Longrightarrow> (of_char c :: nat) < 128 \<Longrightarrow> c \<noteq> CHR 0x5C \<Longrightarrow>
   p_char (c # r) = Some ([c], 1)"
  by (simp add: p_char_def utf8_len_ascii)

lemma getu4_byte:
  "(of_char c :: nat) < 128 \<Longrightarrow>
   getu4 (CHR 0x5C # CHR ''u'' # CHR ''0'' # CHR ''0'' # hex_char (of_char c div 16)
      # hex_char (of_char c mod 16) # r) = Some (of_char c)"
  by (simp add: getu4_def less_mult_imp_div_less)

lemma p_char_short:
  "p_char (enc_ascii CHR 0x5C @ r) = Some ([CHR 0x5C], length (enc_ascii CHR 0x5C))"
  "p_char (enc_ascii CHR 0x22 @ r) = Some ([CHR 0x22], length (enc_ascii CHR 0x22))"
  "p_char (enc_ascii CHR 0x08 @ r) = Some ([CHR 0x08], length (enc_ascii CHR 0x08))"
  "p_char (enc_ascii CHR 0x0C @ r) = Some ([CHR 0x0C], length (enc_ascii CHR 0x0C))"
  "p_char (enc_ascii CHR 0x0A @ r) = Some ([CHR 0x0A], length (enc_ascii CHR 0x0A))"
  "p_char (enc_ascii CHR 0x0D @ r) = Some ([CHR 0x0D], length (enc_ascii CHR 0x0D))"
  "p_char (enc_ascii CHR 0x09 @ r) = Some ([CHR 0x09], length (enc_ascii CHR 0x09))"
  by (simp_all add: enc_ascii_def p_char_def p_escape_def)

lemma p_char_enc_ascii:
  assumes "(of_char c :: nat) < 128"
  shows "p_char (enc_ascii c @ r) = Some ([c], length (enc_ascii c))"
proof -
  let ?S = "{CHR 0x5C, CHR 0x22, CHR 0x08, CHR 0x0C, CHR 0x0A, CHR 0x0D, CHR 0x09}"
  let ?H = "(of_char c :: nat) < 32 \<or> c = CHR ''<'' \<or> c = CHR ''>'' \<or> c = CHR ''&''"
  consider (short) "c \<in> ?S" | (hex) "c \<notin> ?S" "?H" | (plain) "c \<notin> ?S" "\<not> ?H"
    by argo
  then show ?thesis
  proof cases
    case short
    then show ?thesis using p_char_short by blast
  next
    case hex
    then have "enc_ascii c = [CHR 0x5C, CHR ''u'', CHR ''0'', CHR ''0'',
        hex_char (of_char c div 16), hex_char (of_char c mod 16)]"
      by (simp add: enc_ascii_def)
    then show ?thesis
      using assms by (simp add: p_char_def p_escape_def getu4_byte utf8_encode_def)
  next
    case plain
    then have "enc_ascii c = [c]" and "c \<noteq> CHR 0x5C" and "32 \<le> (of_char c :: nat)"
      by (simp_all add: enc_ascii_def)
    with assms show ?thesis by (simp add: p_char_simple)
  qed
qed

lemma enc_ascii_not_quote: "\<not> has_prefix (enc_ascii c @ r) [CHR 0x22]"
  by (simp add: enc_ascii_def)

lemma utf8_encode_separators:
  "utf8_encode 8232 = [CHR 0xE2, CHR 0x80, CHR 0xA8]"
  "utf8_encode 8233 = [CHR 0xE2, CHR 0x80, CHR 0xA9]"
  by (simp_all add: utf8_encode_def char_of_eq_iff take_bit_eq_mod)

lemma p_char_separators:
  "p_char (CHR 0x5C # ''u2028'' @ r) = Some ([CHR 0xE2, CHR 0x80, CHR 0xA8], 6)"
  "p_char (CHR 0x5C # ''u2029'' @ r) = Some ([CHR 0xE2, CHR 0x80, CHR 0xA9], 6)"
  by (simp_all add: p_char_def p_escape_def getu4_def utf8_encode_separators)

lemma p_char_enc_rune:
  assumes "utf8_len s \<noteq> 0" and "s = c # cs" and "128 \<le> (of_char c :: nat)"
  shows "p_char (enc_rune (take (utf8_len s) s) @ r)
           = Some (take (utf8_len s) s, length (enc_rune (take (utf8_len s) s)))"
    and "\<not> has_prefix (enc_rune (take (utf8_len s) s) @ r) [CHR 0x22]"
proof -
  let ?t = "take (utf8_len s) s"
  obtain t where t: "?t = c # t" using assms(1,2) by (cases "utf8_len s") auto
  have c: "c \<noteq> CHR 0x22" "c \<noteq> CHR 0x5C" using assms(3) by auto
  have len: "length ?t = utf8_len s" using utf8_len_le [of s] by simp
  then have "take (utf8_len s) (?t @ r) = ?t" by (metis append_eq_conv_conj)
  moreover have "?t @ r = c # t @ r" using t by simp
  ultimately have plain: "p_char (?t @ r) = Some (?t, length ?t)"
    using utf8_len_take [OF assms(1), of r] assms(1,3) c len by (simp add: p_char_def)
  show "\<not> has_prefix (enc_rune ?t @ r) [CHR 0x22]"
    using t c by (simp add: enc_rune_def)
  show "p_char (enc_rune ?t @ r) = Some (?t, length (enc_rune ?t))"
    using plain p_char_separators [of r] by (simp add: enc_rune_def)
qed

lemma p_string_step:
  assumes "\<not> has_prefix (e @ r) [CHR 0x22]" and "p_char (e @ r) = Some (bs, length e)"
    and "p_string r = Some (t, r')"
  shows "p_string (e @ r) = Some (bs @ t, r')"
  using assms by (subst p_string.simps) simp

lemma p_string_enc: "valid_utf8 s \<Longrightarrow> p_string (enc_string s @ CHR 0x22 # r) = Some (s, r)"
proof (induction s rule: enc_string.induct)
  case (1 s)
  show ?case
  proof (cases s)
    case Nil
    then show ?thesis by (simp add: enc_string.simps p_string.simps)
  next
    case (Cons c cs)
    show ?thesis
    proof (cases "(of_char c :: nat) < 128")
      case True
      with Cons "1.prems" have "valid_utf8 cs"
        by (subst (asm) valid_utf8.simps) (simp add: utf8_len_ascii)
      with "1.IH"(1) [OF Cons True] p_string_step [OF enc_ascii_not_quote p_char_enc_ascii [OF True]]
      show ?thesis by (simp add: Cons True enc_string.simps [of "c # cs"])
    next
      case False
      with Cons "1.prems" have len: "utf8_len s \<noteq> 0" and "valid_utf8 (drop (utf8_len s) s)"
        by (subst (asm) valid_utf8.simps; simp split: if_splits)+
      moreover have "enc_string s = enc_rune (take (utf8_len s) s) @ enc_string (drop (utf8_len s) s)"
        using False len Cons by (subst enc_string.simps) simp
      ultimately show ?thesis
        using "1.IH"(3) [OF Cons False] False Cons
          p_string_step [OF p_char_enc_rune(2) p_char_enc_rune(1)]
        by (metis append.assoc append_take_drop_id linorder_not_less)
    qed
  qed
qed

section \<open>Trees\<close>

fun json_ok :: "nat \<Rightarrow> json \<Rightarrow> bool" where
  "json_ok d JNull = True"
| "json_ok d (JBool b) = True"
| "json_ok d (JNum l) = number_ok l"
| "json_ok d (JStr s) = valid_utf8 s"
| "json_ok d (JArr vs) = (0 < d \<and> (\<forall>v \<in> set vs. json_ok (d - 1) v))"
| "json_ok d (JObj ms) = (0 < d \<and> (\<forall>m \<in> set ms. valid_utf8 (fst m) \<and> json_ok (d - 1) (snd m)))"

lemma skip_ws_newline [simp]: "skip_ws (newline_indent k @ s) = skip_ws s"
proof -
  have "dropWhile is_space (replicate n CHR '' '' @ s) = dropWhile is_space s" for n
    by (induction n) (simp_all add: is_space_def)
  then show ?thesis by (simp add: skip_ws_def newline_indent_def is_space_def)
qed

lemma skip_ws_idem [simp]: "skip_ws (skip_ws s) = skip_ws s"
  by (simp add: skip_ws_def)

lemma p_value_skip: "p_value d (skip_ws s) = p_value d s"
  by (simp add: p_value.simps)

lemma p_value_newline [simp]: "p_value d (newline_indent k @ s) = p_value d s"
  by (metis p_value_skip skip_ws_newline)

lemma skip_ws_nonspace: "\<not> is_space c \<Longrightarrow> skip_ws (c # s) = c # s"
  by (simp add: skip_ws_def)

lemma number_ok_hd: "number_ok l \<Longrightarrow> \<exists>c s. l = c # s \<and> (is_digit c \<or> c = CHR ''-'')"
  by (cases l) (auto simp: number_ok_def p_number_def p_int_def p_digits_def minus_prefix_def
      is_digit_def split: option.splits if_splits)

lemma digit_not_special [simp]:
  assumes "is_digit c \<or> c = CHR ''-''"
  shows "\<not> is_space c" "c \<noteq> CHR 0x22" "c \<noteq> CHR ''{''" "c \<noteq> CHR ''[''" "c \<noteq> CHR ''t''"
    "c \<noteq> CHR ''f''" "c \<noteq> CHR ''n''" "c \<noteq> CHR '']''" "c \<noteq> CHR ''}''"
  using assms by (auto simp: is_digit_def is_space_def)

lemma p_value_number:
  assumes "number_ok l" and "stops r"
  shows "p_value d (l @ r) = Some (JNum l, r)"
proof -
  obtain c s where l: "l = c # s" and c: "is_digit c \<or> c = CHR ''-''"
    using number_ok_hd [OF assms(1)] by blast
  have "p_number (c # s @ r) = Some (l, r)"
    using p_number_append assms l by (fastforce simp: number_ok_def)
  with l c show ?thesis by (simp add: p_value.simps skip_ws_nonspace)
qed

lemma json_indent_hd:
  "json_ok d v \<Longrightarrow>
   \<exists>c s. json_indent k v = c # s \<and> \<not> is_space c \<and> c \<noteq> CHR '']'' \<and> c \<noteq> CHR ''}''"
proof (cases v)
  case (JNum l)
  moreover assume "json_ok d v"
  ultimately show ?thesis using number_ok_hd [of l] digit_not_special by fastforce
next
  case (JArr vs)
  then show ?thesis by (cases vs) (simp_all add: is_space_def)
next
  case (JObj ms)
  then show ?thesis by (cases ms) (simp_all add: is_space_def)
qed (auto simp: is_space_def quoted_def)

definition member_text :: "nat \<Rightarrow> string \<times> json \<Rightarrow> string" where
  "member_text k m = quoted (fst m) @ '': '' @ json_indent k (snd m)"

lemma skip_ws_special [simp]:
  "skip_ws (CHR '','' # s) = CHR '','' # s" "skip_ws (CHR '']'' # s) = CHR '']'' # s"
  "skip_ws (CHR ''}'' # s) = CHR ''}'' # s" "skip_ws (CHR '':'' # s) = CHR '':'' # s"
  "skip_ws (CHR 0x22 # s) = CHR 0x22 # s" "skip_ws (CHR '' '' # s) = skip_ws s"
  by (simp_all add: skip_ws_def is_space_def)

lemma newline_indent_simps [simp]:
  "stops (newline_indent j @ s)" "newline_indent j \<noteq> []"
  by (simp_all add: newline_indent_def)

lemma p_elems_sep:
  assumes "vs \<noteq> []"
    and "\<And>v r. v \<in> set vs \<Longrightarrow> stops r \<Longrightarrow> p_value d (json_indent k v @ r) = Some (v, r)"
  shows "p_elems d (newline_indent k @ sep_by (newline_indent k) (map (json_indent k) vs)
      @ newline_indent j @ CHR '']'' # r) = Some (vs, r)"
  using assms
proof (induction vs rule: list_nonempty_induct)
  case (single v)
  then show ?case by (simp add: p_elems.simps)
next
  case (cons v vs)
  let ?s = "newline_indent k @ sep_by (newline_indent k) (map (json_indent k) vs)
      @ newline_indent j @ CHR '']'' # r"
  obtain w ws where vs: "vs = w # ws" using cons.hyps by (cases vs) auto
  have "p_value d (json_indent k v @ CHR '','' # ?s) = Some (v, CHR '','' # ?s)"
    using cons.prems by simp
  moreover have "p_elems d ?s = Some (vs, r)" using cons.IH cons.prems by simp
  ultimately show ?case by (simp add: p_elems.simps [of d "newline_indent k @ _"] vs)
qed

lemma p_members_sep:
  assumes "ms \<noteq> []"
    and "\<And>m. m \<in> set ms \<Longrightarrow> valid_utf8 (fst m)"
    and "\<And>m r. m \<in> set ms \<Longrightarrow> stops r \<Longrightarrow>
           p_value d (json_indent k (snd m) @ r) = Some (snd m, r)"
  shows "p_members d (newline_indent k @ sep_by (newline_indent k) (map (member_text k) ms)
      @ newline_indent j @ CHR ''}'' # r) = Some (ms, r)"
  using assms
proof (induction ms rule: list_nonempty_induct)
  case (single m)
  have "p_value d (CHR '' '' # s) = p_value d s" for s
    by (metis p_value_skip skip_ws_special(6))
  with single show ?case
    by (simp add: p_members.simps member_text_def quoted_def p_string_enc)
next
  case (cons m ms)
  let ?s = "newline_indent k @ sep_by (newline_indent k) (map (member_text k) ms)
      @ newline_indent j @ CHR ''}'' # r"
  obtain w ws where ms: "ms = w # ws" using cons.hyps by (cases ms) auto
  have sp: "p_value d (CHR '' '' # s) = p_value d s" for s
    by (metis p_value_skip skip_ws_special(6))
  have "p_value d (json_indent k (snd m) @ CHR '','' # ?s) = Some (snd m, CHR '','' # ?s)"
    using cons.prems by simp
  moreover have "p_members d ?s = Some (ms, r)" using cons.IH cons.prems by simp
  moreover have "valid_utf8 (fst m)" using cons.prems by simp
  ultimately show ?case
    by (subst p_members.simps)
      (simp add: member_text_def [of k m] quoted_def p_string_enc sp ms)
qed

lemma json_indent_members:
  "json_indent k (JObj (m # ms)) = ''{'' @ newline_indent (Suc k)
     @ sep_by (newline_indent (Suc k)) (map (member_text (Suc k)) (m # ms))
     @ newline_indent k @ ''}''"
  by (simp add: member_text_def [abs_def] case_prod_unfold)

lemma p_value_indent:
  "json_ok d v \<Longrightarrow> stops r \<Longrightarrow> p_value d (json_indent k v @ r) = Some (v, r)"
proof (induction v arbitrary: d k r)
  case JNull
  then show ?case by (simp add: p_value.simps skip_ws_nonspace is_space_def p_lit_def strs)
next
  case (JBool b)
  then show ?case by (simp add: p_value.simps skip_ws_nonspace is_space_def p_lit_def strs)
next
  case (JNum l)
  then show ?case by (simp add: p_value_number)
next
  case (JStr s)
  then show ?case by (simp add: p_value.simps quoted_def p_string_enc)
next
  case (JArr vs)
  show ?case
  proof (cases vs)
    case Nil
    with JArr.prems show ?thesis by (simp add: p_value.simps skip_ws_nonspace is_space_def)
  next
    case (Cons w ws)
    let ?body = "sep_by (newline_indent (Suc k)) (map (json_indent (Suc k)) vs)"
    have elems: "p_elems (d - 1) (newline_indent (Suc k) @ ?body @ newline_indent k @ CHR '']'' # r)
        = Some (vs, r)"
      using JArr by (intro p_elems_sep) (auto simp: Cons)
    obtain c s where c: "json_indent (Suc k) w = c # s" "\<not> is_space c" "c \<noteq> CHR '']''"
      using json_indent_hd [of "d - 1" w "Suc k"] JArr.prems Cons by auto
    then have "\<not> has_prefix (skip_ws (?body @ newline_indent k @ CHR '']'' # r)) '']''"
      by (cases ws) (simp_all add: Cons skip_ws_nonspace)
    with elems JArr.prems show ?thesis
      by (simp add: Cons p_value.simps skip_ws_nonspace is_space_def)
  qed
next
  case (JObj ms)
  show ?case
  proof (cases ms)
    case Nil
    with JObj.prems show ?thesis by (simp add: p_value.simps skip_ws_nonspace is_space_def)
  next
    case (Cons w ws)
    let ?body = "sep_by (newline_indent (Suc k)) (map (member_text (Suc k)) ms)"
    have IH: "p_value (d - 1) (json_indent (Suc k) (snd m) @ r') = Some (snd m, r')"
      if "m \<in> set ms" and "stops r'" for m r'
      using JObj.IH [of m "snd m" "d - 1" r' "Suc k"] JObj.prems(1) that
      by (cases m) auto
    have members: "p_members (d - 1) (newline_indent (Suc k) @ ?body @ newline_indent k @ CHR ''}'' # r)
        = Some (ms, r)"
      using JObj.prems by (intro p_members_sep IH) (auto simp: Cons)
    have "\<not> has_prefix (skip_ws (?body @ newline_indent k @ CHR ''}'' # r)) ''}''"
      by (cases ws) (simp_all add: Cons member_text_def quoted_def)
    with members JObj.prems show ?thesis
      by (simp add: Cons json_indent_members p_value.simps skip_ws_nonspace is_space_def
          del: json_indent.simps(8))
  qed
qed

section \<open>The codec contract\<close>

text \<open>
  What a component that stores structured data relies on: the text that \<open>enc\<close> writes for a
  good value is read back by \<open>dec\<close>. The configuration and the schedule intent are clients.
\<close>

locale codec =
  fixes enc :: "'v \<Rightarrow> string"
    and dec :: "string \<Rightarrow> 'v option"
    and good :: "'v \<Rightarrow> bool"
  assumes dec_enc: "good v \<Longrightarrow> dec (enc v) = Some v"
begin

lemma enc_inj: "good v \<Longrightarrow> good w \<Longrightarrow> enc v = enc w \<Longrightarrow> v = w"
  by (metis dec_enc option.inject)

lemma dec_enc_client:
  "good (to_tree x) \<Longrightarrow> of_tree (to_tree x) = Some x \<Longrightarrow>
   (case dec (enc (to_tree x)) of None \<Rightarrow> None | Some t \<Rightarrow> of_tree t) = Some x"
  by (simp add: dec_enc)

end

definition json_good :: "json \<Rightarrow> bool" where
  "json_good v \<longleftrightarrow> json_ok max_nesting v"

interpretation json_codec: codec json_marshal json_parse json_good
proof unfold_locales
  fix v
  assume "json_good v"
  then have "p_value max_nesting (json_indent 0 v @ []) = Some (v, [])"
    by (intro p_value_indent) (simp_all add: json_good_def)
  then show "json_parse (json_marshal v) = Some v"
    by (simp add: json_parse_def json_marshal_def skip_ws_def)
qed

interpretation json_stream: codec json_marshal json_decode json_good
proof unfold_locales
  fix v
  assume "json_good v"
  then have "p_value max_nesting (json_indent 0 v @ []) = Some (v, [])"
    by (intro p_value_indent) (simp_all add: json_good_def)
  then show "json_decode (json_marshal v) = Some v"
    by (simp add: json_decode_def json_marshal_def)
qed

end
