(* ===== verification/Platform.thy ===== *)
theory Platform
  imports Json_Roundtrip
begin

text \<open>
  What the program sees of the operating system's files (\<open>os.ReadFile\<close>, \<open>os.WriteFile\<close>,
  \<open>os.Remove\<close>), and the rules by which \<open>encoding/json\<close> stores a decoded tree into a Go
  struct. Faults of the disk belong to the environment: the record \<open>os\<close> says for every path
  whether reading it fails and how writing it fails, and the properties quantify over it.
\<close>

section \<open>Files\<close>

record disk_file =
  data :: string
  perm :: nat

text \<open>
  A write may fail before the file is opened, which leaves it as it was, or after it has been
  truncated, which leaves a prefix of the data.
\<close>

datatype write_fault = NoFault | OpenFault | ShortWrite nat

record os =
  files :: "string \<Rightarrow> disk_file option"
  readFault :: "string \<Rightarrow> bool"
  writeFault :: "string \<Rightarrow> write_fault"

datatype read_result = NotExist | ReadError | Content string

definition os_ReadFile :: "string \<Rightarrow> os \<Rightarrow> read_result" where
  "os_ReadFile path w =
     (case files w path of
        None \<Rightarrow> NotExist
      | Some f \<Rightarrow> if readFault w path then ReadError else Content (data f))"

text \<open>The permissions of \<open>os.WriteFile\<close> apply only where it creates the file.\<close>

definition put_file :: "string \<Rightarrow> string \<Rightarrow> nat \<Rightarrow> os \<Rightarrow> os" where
  "put_file path d p w =
     w\<lparr>files := (files w)(path \<mapsto>
        (case files w path of
           None \<Rightarrow> \<lparr>data = d, perm = p\<rparr>
         | Some f \<Rightarrow> f\<lparr>data := d\<rparr>))\<rparr>"

definition os_WriteFile :: "string \<Rightarrow> string \<Rightarrow> nat \<Rightarrow> os \<Rightarrow> bool \<times> os" where
  "os_WriteFile path d p w =
     (case writeFault w path of
        NoFault \<Rightarrow> (True, put_file path d p w)
      | OpenFault \<Rightarrow> (False, w)
      | ShortWrite n \<Rightarrow> (False, put_file path (take n d) p w))"

definition os_Remove :: "string \<Rightarrow> os \<Rightarrow> os" where
  "os_Remove path w = w\<lparr>files := (files w)(path := None)\<rparr>"

definition disk_ok :: "string \<Rightarrow> os \<Rightarrow> bool" where
  "disk_ok path w \<longleftrightarrow> \<not> readFault w path \<and> writeFault w path = NoFault"

text \<open>An empty disk that works, for concrete examples.\<close>

definition empty_disk :: os where
  "empty_disk = \<lparr>files = (\<lambda>_. None), readFault = (\<lambda>_. False), writeFault = (\<lambda>_. NoFault)\<rparr>"

lemma empty_disk_ok [simp]: "disk_ok p empty_disk" "os_ReadFile p empty_disk = NotExist"
  by (simp_all add: disk_ok_def empty_disk_def os_ReadFile_def)

lemma put_file_simps [simp]:
  "readFault (put_file p d m w) = readFault w" "writeFault (put_file p d m w) = writeFault w"
  "q \<noteq> p \<Longrightarrow> files (put_file p d m w) q = files w q"
  by (simp_all add: put_file_def)

lemma os_WriteFile_frame [simp]:
  "readFault (snd (os_WriteFile p d m w)) = readFault w"
  "writeFault (snd (os_WriteFile p d m w)) = writeFault w"
  "q \<noteq> p \<Longrightarrow> files (snd (os_WriteFile p d m w)) q = files w q"
  by (simp_all add: os_WriteFile_def split: write_fault.split)

lemma disk_ok_write [simp]: "disk_ok q (snd (os_WriteFile p d m w)) = disk_ok q w"
  by (simp add: disk_ok_def)

lemma os_write_ok [simp]:
  "disk_ok p w \<Longrightarrow> fst (os_WriteFile p d m w)"
  "disk_ok p w \<Longrightarrow> os_ReadFile p (snd (os_WriteFile p d m w)) = Content d"
  by (simp_all add: disk_ok_def os_WriteFile_def os_ReadFile_def put_file_def split: option.split)

section \<open>Storing a JSON tree into a struct\<close>

text \<open>
  Keys are matched with the field names exactly or else up to case. \<open>fold_name\<close> is the folding
  of the package: ASCII letters to upper case, and the long s (U+017F) and the Kelvin sign
  (U+212A) to the letters they fold with. No other character folds to an ASCII one, and the
  field names of the program are ASCII.
\<close>

definition ascii_lower :: "char \<Rightarrow> char" where
  "ascii_lower c = (let n = (of_char c :: nat) in if 65 \<le> n \<and> n \<le> 90 then char_of (n + 32) else c)"

definition ascii_upper :: "char \<Rightarrow> char" where
  "ascii_upper c = (let n = (of_char c :: nat) in if 97 \<le> n \<and> n \<le> 122 then char_of (n - 32) else c)"

fun fold_name :: "string \<Rightarrow> string" where
  "fold_name [] = []"
| "fold_name [c] = [ascii_upper c]"
| "fold_name [c, d] =
     (if c = CHR 0xC5 \<and> d = CHR 0xBF then ''S'' else ascii_upper c # fold_name [d])"
| "fold_name (c # d # e # r) =
     (if c = CHR 0xC5 \<and> d = CHR 0xBF then CHR ''S'' # fold_name (e # r)
      else if c = CHR 0xE2 \<and> d = CHR 0x84 \<and> e = CHR 0xAA then CHR ''K'' # fold_name r
      else ascii_upper c # fold_name (d # e # r))"

definition find_field :: "string list \<Rightarrow> string \<Rightarrow> string option" where
  "find_field names k =
     (if k \<in> set names then Some k
      else List.find (\<lambda>n. fold_name n = fold_name k) names)"

text \<open>
  A value of the wrong type leaves its field alone and is reported once the whole object has
  been read, so the result is the struct together with a flag. \<open>null\<close> is no error and has no
  effect; unknown keys are ignored; of a key given twice the later value counts.
\<close>

fun set_members ::
  "string list \<Rightarrow> (string \<Rightarrow> json \<Rightarrow> 'a \<Rightarrow> 'a \<times> bool) \<Rightarrow> (string \<times> json) list \<Rightarrow> 'a \<Rightarrow> 'a \<times> bool"
where
  "set_members names set_field [] x = (x, True)"
| "set_members names set_field ((k, v) # ms) x =
     (case find_field names k of
        None \<Rightarrow> set_members names set_field ms x
      | Some n \<Rightarrow>
          (let (x1, ok1) = set_field n v x; (x2, ok2) = set_members names set_field ms x1
           in (x2, ok1 \<and> ok2)))"

definition set_struct ::
  "string list \<Rightarrow> (string \<Rightarrow> json \<Rightarrow> 'a \<Rightarrow> 'a \<times> bool) \<Rightarrow> json \<Rightarrow> 'a \<Rightarrow> 'a \<times> bool"
where
  "set_struct names set_field v x =
     (case v of
        JNull \<Rightarrow> (x, True)
      | JObj ms \<Rightarrow> set_members names set_field ms x
      | _ \<Rightarrow> (x, False))"

definition set_bool :: "json \<Rightarrow> (bool \<Rightarrow> 'a) \<Rightarrow> 'a \<Rightarrow> 'a \<times> bool" where
  "set_bool v upd x = (case v of JNull \<Rightarrow> (x, True) | JBool b \<Rightarrow> (upd b, True) | _ \<Rightarrow> (x, False))"

definition set_string :: "json \<Rightarrow> (string \<Rightarrow> 'a) \<Rightarrow> 'a \<Rightarrow> 'a \<times> bool" where
  "set_string v upd x = (case v of JNull \<Rightarrow> (x, True) | JStr s \<Rightarrow> (upd s, True) | _ \<Rightarrow> (x, False))"

definition set_int :: "json \<Rightarrow> (int \<Rightarrow> 'a) \<Rightarrow> 'a \<Rightarrow> 'a \<times> bool" where
  "set_int v upd x =
     (case v of
        JNull \<Rightarrow> (x, True)
      | JNum l \<Rightarrow> (case atoi l of None \<Rightarrow> (x, False) | Some i \<Rightarrow> (upd i, True))
      | _ \<Rightarrow> (x, False))"

text \<open>\<open>json.Unmarshal(data, &x)\<close>: the struct where there was no error.\<close>

definition unmarshal ::
  "string list \<Rightarrow> (string \<Rightarrow> json \<Rightarrow> 'a \<Rightarrow> 'a \<times> bool) \<Rightarrow> 'a \<Rightarrow> json option \<Rightarrow> 'a option"
where
  "unmarshal names set_field x t =
     (case t of
        None \<Rightarrow> None
      | Some v \<Rightarrow> (let (y, ok) = set_struct names set_field v x in if ok then Some y else None))"

lemmas set_scalar = set_bool_def set_string_def set_int_def

lemma unmarshal_None [simp]: "unmarshal names f x None = None"
  by (simp add: unmarshal_def)

lemma find_field_exact [simp]: "k \<in> set names \<Longrightarrow> find_field names k = Some k"
  by (simp add: find_field_def)

text \<open>What every field keeps, the struct keeps.\<close>

lemma set_members_keeps:
  assumes "\<And>n v x. P x \<Longrightarrow> P (fst (set_field n v x))"
  shows "P x \<Longrightarrow> P (fst (set_members names set_field ms x))"
proof (induction ms arbitrary: x)
  case Nil
  then show ?case by simp
next
  case (Cons m ms)
  obtain k v where m: "m = (k, v)" by (cases m)
  show ?case
    using Cons assms by (cases "find_field names k") (simp_all add: m case_prod_unfold Let_def)
qed

lemma unmarshal_keeps:
  assumes "unmarshal names set_field x t = Some y" and "P x"
    and "\<And>n v x. P x \<Longrightarrow> P (fst (set_field n v x))"
  shows "P y"
proof -
  have "P (fst (set_struct names set_field v x))" for v
    using set_members_keeps [of P set_field x, OF assms(3,2)]
    by (simp add: set_struct_def assms(2) split: json.split)
  then show ?thesis
    using assms(1) by (auto simp: unmarshal_def case_prod_unfold Let_def split: option.splits if_splits)
qed

lemma atoi_i64: "atoi s = Some i \<Longrightarrow> in_i64 i"
  by (auto simp: atoi_def Let_def split: if_splits option.splits)

lemma set_int_keeps: "P x \<Longrightarrow> (\<And>i. in_i64 i \<Longrightarrow> P (upd i)) \<Longrightarrow> P (fst (set_int v upd x))"
  by (auto simp: set_int_def dest: atoi_i64 split: json.split option.split)

lemma set_string_keeps: "P x \<Longrightarrow> (\<And>s. P (upd s)) \<Longrightarrow> P (fst (set_string v upd x))"
  by (simp add: set_string_def split: json.split)

end
