(* ===== verification/Base64.thy ===== *)
theory Base64
  imports Prelude
begin

text \<open>
  The standard encoding of the package \<open>encoding/base64\<close> (\<open>base64.StdEncoding\<close>): padded, not
  strict (the unused low bits of the last character are ignored), and with carriage returns
  and line feeds skipped anywhere in the input. The program stores its password in this form
  and the HTTP library reads the \<open>Authorization\<close> header with it.
\<close>

section \<open>The alphabet\<close>

definition b64_char :: "nat \<Rightarrow> char" where
  "b64_char n =
     char_of (if n < 26 then n + 65
              else if n < 52 then n + 71
              else if n < 62 then n - 4
              else if n = 62 then 43 else 47)"

definition b64_val :: "char \<Rightarrow> nat option" where
  "b64_val c =
     (let n = (of_char c :: nat) in
      if 65 \<le> n \<and> n \<le> 90 then Some (n - 65)
      else if 97 \<le> n \<and> n \<le> 122 then Some (n - 71)
      else if 48 \<le> n \<and> n \<le> 57 then Some (n + 4)
      else if n = 43 then Some 62
      else if n = 47 then Some 63
      else None)"

definition is_newline :: "char \<Rightarrow> bool" where
  "is_newline c \<longleftrightarrow> c = CHR 0x0D \<or> c = CHR 0x0A"

lemma b64_val_char [simp]: "n < 64 \<Longrightarrow> b64_val (b64_char n) = Some n"
  by (auto simp: b64_val_def b64_char_def Let_def of_char_of split: if_splits)

lemma b64_val_pad [simp]: "b64_val CHR ''='' = None"
  by (simp add: b64_val_def)

lemma b64_val_newline [simp]: "is_newline c \<Longrightarrow> b64_val c = None"
  by (auto simp: is_newline_def b64_val_def)

lemma b64_char_not_pad [simp]: "n < 64 \<Longrightarrow> b64_char n \<noteq> CHR ''=''"
  by (metis b64_val_char b64_val_pad option.distinct(1))

lemma b64_char_not_newline [simp]: "n < 64 \<Longrightarrow> \<not> is_newline (b64_char n)"
  by (metis b64_val_char b64_val_newline option.distinct(1))

lemma pad_not_newline [simp]: "\<not> is_newline CHR ''=''"
  by (simp add: is_newline_def)

section \<open>EncodeToString\<close>

fun b64_encode :: "string \<Rightarrow> string" where
  "b64_encode [] = []"
| "b64_encode [x] =
     (let a = (of_char x :: nat) in
      [b64_char (a div 4), b64_char (a mod 4 * 16), CHR ''='', CHR ''=''])"
| "b64_encode [x, y] =
     (let a = (of_char x :: nat); b = (of_char y :: nat) in
      [b64_char (a div 4), b64_char (a mod 4 * 16 + b div 16), b64_char (b mod 16 * 4), CHR ''=''])"
| "b64_encode (x # y # z # r) =
     (let a = (of_char x :: nat); b = (of_char y :: nat); c = (of_char z :: nat) in
      [b64_char (a div 4), b64_char (a mod 4 * 16 + b div 16),
       b64_char (b mod 16 * 4 + c div 64), b64_char (c mod 64)] @ b64_encode r)"

section \<open>DecodeString\<close>

text \<open>
  \<open>b64_quanta\<close> decodes the groups of four characters that are left once the newlines are
  skipped. Padding may only close the input: \<open>xx==\<close> stands for one byte, \<open>xxx=\<close> for two.
\<close>

fun b64_quanta :: "string \<Rightarrow> string option" where
  "b64_quanta [] = Some []"
| "b64_quanta (p # q # r # s # rest) =
     (case (b64_val p, b64_val q) of
        (Some d0, Some d1) \<Rightarrow>
          if r = CHR ''='' then
            (if s = CHR ''='' \<and> rest = [] then Some [char_of (d0 * 4 + d1 div 16)] else None)
          else
            (case b64_val r of
               None \<Rightarrow> None
             | Some d2 \<Rightarrow>
                 if s = CHR ''='' then
                   (if rest = []
                    then Some [char_of (d0 * 4 + d1 div 16), char_of (d1 mod 16 * 16 + d2 div 4)]
                    else None)
                 else
                   (case b64_val s of
                      None \<Rightarrow> None
                    | Some d3 \<Rightarrow>
                        map_option
                          (\<lambda>bs. [char_of (d0 * 4 + d1 div 16), char_of (d1 mod 16 * 16 + d2 div 4),
                                char_of (d2 mod 4 * 64 + d3)] @ bs)
                          (b64_quanta rest)))
      | _ \<Rightarrow> None)"
| "b64_quanta _ = None"

definition b64_decode :: "string \<Rightarrow> string option" where
  "b64_decode s = b64_quanta (filter (\<lambda>c. \<not> is_newline c) s)"

section \<open>Round trip\<close>

lemma byte_bound [simp]: "(of_char c :: nat) < 256"
  by (cases c) (simp add: of_char_def horner_sum_simps)

lemma byte_split [simp]:
  fixes c :: char
  defines "n \<equiv> (of_char c :: nat)"
  shows "n div 4 < 64" "n mod 4 * 16 < 64" "n div 16 < 16" "n div 64 < 4"
    "n mod 16 * 4 < 64" "n mod 64 < 64"
  using byte_bound [of c] unfolding n_def by (simp_all add: less_mult_imp_div_less)

text \<open>The three bytes of a group, put together again from the four numbers below 64.\<close>

lemma div_mod_join: "k < d \<Longrightarrow> 0 < d \<Longrightarrow> (n :: nat) div m * m + (n mod m * d + k) div d = n"
  by simp

lemma mod_join: "h < m \<Longrightarrow> k < d \<Longrightarrow> h = (n :: nat) div m' \<Longrightarrow>
    (j * m + h) mod m * m' + (n mod m' * d + k) div d = n"
  by simp

lemma byte_first [simp]:
  "(of_char c :: nat) div 4 * 4 + (of_char c mod 4 * 16 + of_char d div 16) div 16 = of_char c"
  "(of_char c :: nat) div 4 * 4 + of_char c mod 4 * 16 div 16 = of_char c"
  by (rule div_mod_join; simp) simp

lemma byte_second [simp]:
  "(j * 16 + (of_char c :: nat) div 16) mod 16 * 16
     + (of_char c mod 16 * 4 + of_char d div 64) div 4 = of_char c"
  "(j * 16 + (of_char c :: nat) div 16) mod 16 * 16 + of_char c mod 16 * 4 div 4 = of_char c"
  by (rule mod_join; simp) (use mod_join [of "of_char c div 16" 16 0 4 "of_char c" 16] in simp)

lemma byte_third [simp]:
  "(j * 4 + (of_char c :: nat) div 64) mod 4 * 64 + of_char c mod 64 = of_char c"
  using mod_join [of "of_char c div 64" 4 0 1 "of_char c" 64] byte_split [of c] by simp

lemma group_bounds [simp]:
  "(of_char c :: nat) mod 4 * 16 + of_char d div 16 < 64"
  "(of_char c :: nat) mod 16 * 4 + of_char d div 64 < 64"
proof -
  have "(of_char c :: nat) mod 4 \<le> 3" and "(of_char c :: nat) mod 16 \<le> 15" by simp_all
  then show "(of_char c :: nat) mod 4 * 16 + of_char d div 16 < 64"
    and "(of_char c :: nat) mod 16 * 4 + of_char d div 64 < 64"
    using byte_split [of d] by linarith+
qed

lemma b64_encode_no_newline: "c \<in> set (b64_encode bs) \<Longrightarrow> \<not> is_newline c"
  by (induction bs rule: b64_encode.induct) (auto simp: Let_def)

lemma filter_b64_encode [simp]: "filter (\<lambda>c. \<not> is_newline c) (b64_encode bs) = b64_encode bs"
  by (simp add: b64_encode_no_newline)

lemma b64_quanta_encode: "b64_quanta (b64_encode bs) = Some bs"
proof (induction bs rule: b64_encode.induct)
  case 1
  then show ?case by simp
next
  case (2 x)
  then show ?case by (simp add: Let_def)
next
  case (3 x y)
  then show ?case by (simp add: Let_def)
next
  case (4 x y z r)
  then show ?case by (simp add: Let_def)
qed

theorem b64_decode_encode [simp]: "b64_decode (b64_encode bs) = Some bs"
  by (simp add: b64_decode_def b64_quanta_encode)

end
