(* ===== verification/Config.thy ===== *)
theory Config
  imports Platform Base64
begin

text \<open>
  The package \<open>config\<close>: the configuration record, its defaults, and \<open>Load\<close> and \<open>Save\<close> over
  the file \<open>config.json\<close>. \<open>Load\<close> creates the file with the defaults where it does not exist,
  decodes the password, repairs three fields that are out of range and rejects the file
  where any other is. The lemmas show that a loaded configuration is always well-formed, that
  saving and loading are inverse, and exactly which files are accepted.
\<close>

record Config =
  Port :: int
  Username :: string
  PasswordB64 :: string
  SessionTimeoutMinutes :: int
  RestartMinMinutes :: int
  RestartMaxMinutes :: int
  LockMinMinutes :: int
  LockMaxMinutes :: int
  UpdateCheckMinutes :: int
  LogLevel :: string
  password :: string

definition Password :: "Config \<Rightarrow> string" where
  "Password c = password c"

text \<open>\<open>DefaultPath\<close>: next to the executable; the platform's functions are parameters.\<close>

definition DefaultPath :: "string option \<Rightarrow> (string \<Rightarrow> string) \<Rightarrow> (string list \<Rightarrow> string) \<Rightarrow> string" where
  "DefaultPath executable dir join =
     (case executable of
        None \<Rightarrow> ''config.json''
      | Some exe \<Rightarrow> join [dir exe, ''config.json''])"

definition defaults :: Config where
  "defaults =
     (let plain = ''changeme'' in
      \<lparr>Port = 8443,
       Username = ''admin'',
       PasswordB64 = b64_encode plain,
       SessionTimeoutMinutes = 30,
       RestartMinMinutes = 5,
       RestartMaxMinutes = 15,
       LockMinMinutes = 5,
       LockMaxMinutes = 15,
       UpdateCheckMinutes = 360,
       LogLevel = ''info'',
       password = plain\<rparr>)"

text \<open>
  The configurations of the tests (\<open>config/testing.go\<close>): no encoded password, but the decoded one.
\<close>

definition NewForTest :: "int \<Rightarrow> string \<Rightarrow> string \<Rightarrow> Config" where
  "NewForTest port username pw =
     \<lparr>Port = port, Username = username, PasswordB64 = [], SessionTimeoutMinutes = 30,
      RestartMinMinutes = 5, RestartMaxMinutes = 15, LockMinMinutes = 5, LockMaxMinutes = 15,
      UpdateCheckMinutes = 360, LogLevel = ''info'', password = pw\<rparr>"

definition NewForTestWithTimeout :: "int \<Rightarrow> string \<Rightarrow> string \<Rightarrow> int \<Rightarrow> Config" where
  "NewForTestWithTimeout port username pw sessionTimeoutMinutes =
     \<lparr>Port = port, Username = username, PasswordB64 = [],
      SessionTimeoutMinutes = sessionTimeoutMinutes,
      RestartMinMinutes = 5, RestartMaxMinutes = 15, LockMinMinutes = 5, LockMaxMinutes = 15,
      UpdateCheckMinutes = 360, LogLevel = ''info'', password = pw\<rparr>"

lemma NewForTest_timeout: "NewForTest p u pw = NewForTestWithTimeout p u pw 30"
  by (simp add: NewForTest_def NewForTestWithTimeout_def)

text \<open>The value \<open>&Config{}\<close> that \<open>json.Unmarshal\<close> fills.\<close>

definition zero_config :: Config where
  "zero_config =
     \<lparr>Port = 0, Username = '''', PasswordB64 = '''', SessionTimeoutMinutes = 0,
      RestartMinMinutes = 0, RestartMaxMinutes = 0, LockMinMinutes = 0, LockMaxMinutes = 0,
      UpdateCheckMinutes = 0, LogLevel = '''', password = ''''\<rparr>"

definition config_fields :: "string list" where
  "config_fields =
     [''port'', ''username'', ''password'', ''session_timeout_minutes'',
      ''restart_min_minutes'', ''restart_max_minutes'', ''lock_min_minutes'', ''lock_max_minutes'',
      ''update_check_minutes'', ''log_level'']"

definition config_to_json :: "Config \<Rightarrow> json" where
  "config_to_json c =
     JObj [(''port'', JNum (itoa (Port c))),
           (''username'', JStr (Username c)),
           (''password'', JStr (PasswordB64 c)),
           (''session_timeout_minutes'', JNum (itoa (SessionTimeoutMinutes c))),
           (''restart_min_minutes'', JNum (itoa (RestartMinMinutes c))),
           (''restart_max_minutes'', JNum (itoa (RestartMaxMinutes c))),
           (''lock_min_minutes'', JNum (itoa (LockMinMinutes c))),
           (''lock_max_minutes'', JNum (itoa (LockMaxMinutes c))),
           (''update_check_minutes'', JNum (itoa (UpdateCheckMinutes c))),
           (''log_level'', JStr (LogLevel c))]"

definition set_config_field :: "string \<Rightarrow> json \<Rightarrow> Config \<Rightarrow> Config \<times> bool" where
  "set_config_field n v c =
     (if n = ''port'' then set_int v (\<lambda>i. c\<lparr>Port := i\<rparr>) c
      else if n = ''username'' then set_string v (\<lambda>s. c\<lparr>Username := s\<rparr>) c
      else if n = ''password'' then set_string v (\<lambda>s. c\<lparr>PasswordB64 := s\<rparr>) c
      else if n = ''session_timeout_minutes'' then set_int v (\<lambda>i. c\<lparr>SessionTimeoutMinutes := i\<rparr>) c
      else if n = ''restart_min_minutes'' then set_int v (\<lambda>i. c\<lparr>RestartMinMinutes := i\<rparr>) c
      else if n = ''restart_max_minutes'' then set_int v (\<lambda>i. c\<lparr>RestartMaxMinutes := i\<rparr>) c
      else if n = ''lock_min_minutes'' then set_int v (\<lambda>i. c\<lparr>LockMinMinutes := i\<rparr>) c
      else if n = ''lock_max_minutes'' then set_int v (\<lambda>i. c\<lparr>LockMaxMinutes := i\<rparr>) c
      else if n = ''update_check_minutes'' then set_int v (\<lambda>i. c\<lparr>UpdateCheckMinutes := i\<rparr>) c
      else set_string v (\<lambda>s. c\<lparr>LogLevel := s\<rparr>) c)"

datatype config_error =
    ReadFailed
  | InvalidJson
  | InvalidBase64
  | InvalidPort int
  | EmptyUsername
  | EmptyPassword
  | BadRestartMin
  | BadRestartMax int
  | BadLockMin
  | BadLockMax int

definition maxIntervalMinutes :: int where
  "maxIntervalMinutes = 1440"

text \<open>The log levels the program knows.\<close>

definition known_level :: "string \<Rightarrow> bool" where
  "known_level l \<longleftrightarrow> l = ''debug'' \<or> l = ''info'' \<or> l = ''error''"

text \<open>The part of \<open>Load\<close> after the file has been parsed: decoding, repair and validation.\<close>

definition check_config :: "Config \<Rightarrow> config_error + Config" where
  "check_config cfg0 =
     (case b64_decode (PasswordB64 cfg0) of
        None \<Rightarrow> Inl InvalidBase64
      | Some decoded \<Rightarrow>
          let cfg1 = cfg0\<lparr>password := decoded\<rparr>;
              cfg = (if SessionTimeoutMinutes cfg1 \<le> 0 then cfg1\<lparr>SessionTimeoutMinutes := 30\<rparr> else cfg1)
          in if Port cfg < 1 \<or> Port cfg > 65535 then Inl (InvalidPort (Port cfg))
             else if Username cfg = '''' then Inl EmptyUsername
             else if password cfg = '''' then Inl EmptyPassword
             else if RestartMinMinutes cfg < 1 \<or> RestartMinMinutes cfg > maxIntervalMinutes
               then Inl BadRestartMin
             else if RestartMaxMinutes cfg < RestartMinMinutes cfg
                     \<or> RestartMaxMinutes cfg > maxIntervalMinutes
               then Inl (BadRestartMax (RestartMinMinutes cfg))
             else if LockMinMinutes cfg < 1 \<or> LockMinMinutes cfg > maxIntervalMinutes
               then Inl BadLockMin
             else if LockMaxMinutes cfg < LockMinMinutes cfg
                     \<or> LockMaxMinutes cfg > maxIntervalMinutes
               then Inl (BadLockMax (LockMinMinutes cfg))
             else
               let cfg2 = (if UpdateCheckMinutes cfg \<le> 0 then cfg\<lparr>UpdateCheckMinutes := 360\<rparr> else cfg)
               in Inr (if known_level (LogLevel cfg2) then cfg2 else cfg2\<lparr>LogLevel := ''info''\<rparr>))"

definition Save :: "Config \<Rightarrow> string \<Rightarrow> os \<Rightarrow> bool \<times> os" where
  "Save cfg path w = os_WriteFile path (json_marshal (config_to_json cfg)) 384 w"

definition Load :: "string \<Rightarrow> os \<Rightarrow> (config_error + Config) \<times> os" where
  "Load path w =
     (case os_ReadFile path w of
        NotExist \<Rightarrow> (Inr defaults, snd (Save defaults path w))
      | ReadError \<Rightarrow> (Inl ReadFailed, w)
      | Content d \<Rightarrow>
          (case unmarshal config_fields set_config_field zero_config (json_parse d) of
             None \<Rightarrow> (Inl InvalidJson, w)
           | Some cfg \<Rightarrow> (check_config cfg, w)))"

section \<open>Well-formed configurations\<close>

definition int_fields_ok :: "Config \<Rightarrow> bool" where
  "int_fields_ok c \<longleftrightarrow>
     in_i64 (Port c) \<and> in_i64 (SessionTimeoutMinutes c) \<and> in_i64 (RestartMinMinutes c)
     \<and> in_i64 (RestartMaxMinutes c) \<and> in_i64 (LockMinMinutes c) \<and> in_i64 (LockMaxMinutes c)
     \<and> in_i64 (UpdateCheckMinutes c)"

definition valid_config :: "Config \<Rightarrow> bool" where
  "valid_config c \<longleftrightarrow>
     1 \<le> Port c \<and> Port c \<le> 65535
     \<and> Username c \<noteq> '''' \<and> password c \<noteq> '''' \<and> b64_decode (PasswordB64 c) = Some (password c)
     \<and> 1 \<le> SessionTimeoutMinutes c
     \<and> 1 \<le> RestartMinMinutes c \<and> RestartMinMinutes c \<le> RestartMaxMinutes c
     \<and> RestartMaxMinutes c \<le> 1440
     \<and> 1 \<le> LockMinMinutes c \<and> LockMinMinutes c \<le> LockMaxMinutes c \<and> LockMaxMinutes c \<le> 1440
     \<and> 1 \<le> UpdateCheckMinutes c
     \<and> known_level (LogLevel c)"

text \<open>What \<open>Load\<close> demands of the parsed file, before the repairs.\<close>

definition acceptable :: "Config \<Rightarrow> bool" where
  "acceptable c \<longleftrightarrow>
     (\<exists>p \<in> set_option (b64_decode (PasswordB64 c)). p \<noteq> '''')
     \<and> 1 \<le> Port c \<and> Port c \<le> 65535 \<and> Username c \<noteq> ''''
     \<and> 1 \<le> RestartMinMinutes c \<and> RestartMinMinutes c \<le> RestartMaxMinutes c
     \<and> RestartMaxMinutes c \<le> 1440
     \<and> 1 \<le> LockMinMinutes c \<and> LockMinMinutes c \<le> LockMaxMinutes c \<and> LockMaxMinutes c \<le> 1440"

lemma check_config_valid: "check_config c = Inr c' \<Longrightarrow> valid_config c'"
  by (auto simp: check_config_def valid_config_def known_level_def maxIntervalMinutes_def Let_def
      split: option.splits if_splits)

lemma check_config_accepts: "(\<exists>c'. check_config c = Inr c') \<longleftrightarrow> acceptable c"
  by (auto simp: check_config_def acceptable_def maxIntervalMinutes_def Let_def
      split: option.splits if_splits)

lemma check_config_id: "valid_config c \<Longrightarrow> check_config c = Inr c"
  by (simp add: check_config_def valid_config_def maxIntervalMinutes_def Let_def)

lemma defaults_valid: "valid_config defaults"
  by (simp add: valid_config_def defaults_def known_level_def Let_def del: b64_encode.simps)

lemma Load_valid_config: "Load path w = (Inr c, w') \<Longrightarrow> valid_config c"
  by (auto simp: Load_def defaults_valid split: read_result.splits option.splits
      dest: check_config_valid)

lemma Load_reads_only: "os_ReadFile path w \<noteq> NotExist \<Longrightarrow> snd (Load path w) = w"
  by (auto simp: Load_def split: read_result.splits option.splits)

section \<open>Saving and loading\<close>

lemma b64_val_ascii: "b64_val c = Some n \<Longrightarrow> (of_char c :: nat) < 128"
  by (auto simp: b64_val_def Let_def split: if_splits)

lemma b64_quanta_ascii: "b64_quanta s = Some bs \<Longrightarrow> ascii s"
proof (induction s arbitrary: bs rule: b64_quanta.induct)
  case (2 p q r s rest)
  then show ?case
    by (auto simp: ascii_def split: option.splits if_splits dest!: b64_val_ascii)
qed (simp_all add: ascii_def)

lemma b64_decode_ascii:
  assumes "b64_decode s = Some bs"
  shows "ascii s"
proof -
  have "ascii (filter (\<lambda>c. \<not> is_newline c) s)"
    using assms by (auto simp: b64_decode_def dest: b64_quanta_ascii)
  moreover have "(of_char c :: nat) < 128" if "is_newline c" for c
    using that by (auto simp: is_newline_def)
  ultimately show ?thesis by (fastforce simp: ascii_def)
qed

lemma known_level_ascii: "known_level l \<Longrightarrow> ascii l"
  by (auto simp: known_level_def ascii_def)

lemma config_json_good:
  assumes "valid_config c" and "valid_utf8 (Username c)"
  shows "json_good (config_to_json c)"
proof -
  have "valid_utf8 (PasswordB64 c)" and "valid_utf8 (LogLevel c)"
    using assms(1) by (auto simp: valid_config_def intro: ascii_valid_utf8 b64_decode_ascii
        known_level_ascii)
  with assms(2) show ?thesis
    by (simp add: json_good_def config_to_json_def max_nesting_def ascii_valid_utf8 ascii_def)
qed

lemma unmarshal_config:
  "int_fields_ok c \<Longrightarrow>
   unmarshal config_fields set_config_field zero_config (Some (config_to_json c))
     = Some (c\<lparr>password := ''''\<rparr>)"
  by (simp add: unmarshal_def set_struct_def config_to_json_def config_fields_def
      set_config_field_def set_scalar zero_config_def int_fields_ok_def)

lemma check_config_password:
  "valid_config c \<Longrightarrow> check_config (c\<lparr>password := ''''\<rparr>) = Inr c"
  using check_config_id [of c] by (simp add: check_config_def valid_config_def)

lemma Load_Save:
  assumes "valid_config c" and "int_fields_ok c" and "valid_utf8 (Username c)" and "disk_ok path w"
  shows "Load path (snd (Save c path w)) = (Inr c, snd (Save c path w))"
  using assms by (simp add: Load_def Save_def json_codec.dec_enc config_json_good unmarshal_config
      check_config_password)

lemma defaults_fields: "int_fields_ok defaults" "valid_utf8 (Username defaults)"
  by (simp_all add: int_fields_ok_def defaults_def in_i64_def ascii_valid_utf8 ascii_def)

lemma defaults_int_valid: "valid_config defaults \<and> int_fields_ok defaults \<and> valid_utf8 (Username defaults)"
  using defaults_valid defaults_fields by simp

section \<open>Properties\<close>

text \<open>
  Every configuration that \<open>Load\<close> returns, from a file or on the first run, is well-formed:
  the port fits, the credentials are not empty and the password is the decoded one, both
  intervals are ordered and lie within a day, and the timeout, the update interval and the log
  level have been repaired. \<open>Load\<close> changes no other file, and its own only where it was missing.
\<close>

theorem loaded_config_valid:
  assumes "Load path w = (Inr c, w')"
  shows "valid_config c \<and> (os_ReadFile path w \<noteq> NotExist \<longrightarrow> w' = w)
    \<and> (\<forall>q. q \<noteq> path \<longrightarrow> files w' q = files w q)"
proof -
  have "q \<noteq> path \<Longrightarrow> files (snd (Load path w)) q = files w q" for q
    by (cases "os_ReadFile path w") (simp_all add: Load_def Save_def split: option.splits)
  with assms Load_valid_config [OF assms] Load_reads_only [of path w] show ?thesis by auto
qed

theorem loaded_config_valid_witness: "fst (Load ''c'' empty_disk) = Inr defaults \<and> valid_config defaults"
  using loaded_config_valid [of "''c''" empty_disk defaults "snd (Load ''c'' empty_disk)"]
  by (simp add: Load_def)

text \<open>The record that is accepted, after the repairs.\<close>

definition repaired :: "Config \<Rightarrow> Config" where
  "repaired c =
     c\<lparr>password := the (b64_decode (PasswordB64 c)),
       SessionTimeoutMinutes := (if SessionTimeoutMinutes c \<le> 0 then 30 else SessionTimeoutMinutes c),
       UpdateCheckMinutes := (if UpdateCheckMinutes c \<le> 0 then 360 else UpdateCheckMinutes c),
       LogLevel := (if known_level (LogLevel c) then LogLevel c else ''info'')\<rparr>"

text \<open>
  C27: exactly which files are accepted: a readable file that decodes into a record is accepted if
  and only if the record has a port between 1 and 65535, a user name, a valid base64 password
  that is not empty, and ordered intervals between 1 and 1440 minutes. Nothing else leads to an
  error: a session timeout, an update interval or a log level out of range is replaced by
  its default.
\<close>

theorem load_accepts:
  assumes "os_ReadFile path w = Content d"
    and "unmarshal config_fields set_config_field zero_config (json_parse d) = Some c"
  shows "((\<exists>c'. fst (Load path w) = Inr c') \<longleftrightarrow> acceptable c)
    \<and> (acceptable c \<longrightarrow> fst (Load path w) = Inr (repaired c))"
proof -
  have Load: "fst (Load path w) = check_config c" using assms by (simp add: Load_def)
  have "check_config c = Inr c' \<Longrightarrow> c' = repaired c" for c'
    by (auto simp: check_config_def Let_def repaired_def split: option.splits if_splits)
  with Load check_config_accepts [of c] show ?thesis by auto
qed

theorem load_accepts_witness:
  "fst (Load ''c'' (snd (Save defaults ''c'' empty_disk))) = Inr (repaired (defaults\<lparr>password := ''''\<rparr>))"
proof -
  let ?w = "snd (Save defaults ''c'' empty_disk)"
  have "os_ReadFile ''c'' ?w = Content (json_marshal (config_to_json defaults))"
    by (simp add: Save_def)
  moreover have "unmarshal config_fields set_config_field zero_config
      (json_parse (json_marshal (config_to_json defaults))) = Some (defaults\<lparr>password := ''''\<rparr>)"
    using defaults_int_valid by (simp add: json_codec.dec_enc config_json_good unmarshal_config)
  moreover have "acceptable (defaults\<lparr>password := ''''\<rparr>)"
    by (simp add: acceptable_def defaults_def Let_def del: b64_encode.simps)
  ultimately show ?thesis using load_accepts [of "''c''" ?w] by blast
qed

text \<open>
  C26: saving a well-formed configuration and loading it gives the same configuration back,
  password included. (The numbers fit into a Go \<open>int\<close>, and the user name is UTF-8.)
\<close>

theorem config_roundtrip:
  assumes "valid_config c" and "int_fields_ok c" and "valid_utf8 (Username c)" and "disk_ok path w"
  shows "fst (Load path (snd (Save c path w))) = Inr c"
  using Load_Save [OF assms] by simp

theorem config_roundtrip_witness: "fst (Load ''c'' (snd (Save defaults ''c'' empty_disk))) = Inr defaults"
  using config_roundtrip [of defaults "''c''" empty_disk] defaults_int_valid by simp

text \<open>
  On the first run the file is created with the defaults and mode 0600, the program runs with
  them, and the next run loads them from the file without changing it.
\<close>

theorem first_run_creates_defaults:
  assumes "files w path = None" and "disk_ok path w"
  shows "\<exists>w'. Load path w = (Inr defaults, w') \<and> map_option perm (files w' path) = Some 384
    \<and> Load path w' = (Inr defaults, w')"
proof -
  have "Load path w = (Inr defaults, snd (Save defaults path w))"
    using assms(1) by (simp add: Load_def os_ReadFile_def)
  moreover have "map_option perm (files (snd (Save defaults path w)) path) = Some 384"
    using assms by (simp add: Save_def os_WriteFile_def put_file_def disk_ok_def)
  ultimately show ?thesis
    using Load_Save [of defaults path w] defaults_int_valid assms(2) by simp
qed

theorem first_run_creates_defaults_witness:
  "\<exists>w'. Load ''c'' empty_disk = (Inr defaults, w') \<and> Load ''c'' w' = (Inr defaults, w')"
proof -
  have "files empty_disk ''c'' = None" by (simp add: empty_disk_def)
  then show ?thesis using first_run_creates_defaults [of empty_disk "''c''"] by auto
qed

end
