(* ===== verification/Auth.thy ===== *)
theory Auth
  imports Config Sha256
begin

text \<open>
  The file \<open>server/auth.go\<close>: the holder of the configuration, the tracker of failed logins, the
  table of sessions, and the middleware \<open>basicAuth\<close> that every request passes. The clock and
  the random bytes of a token are arguments. The theory ends with the lemmas about each of
  them; what they implement is in \<open>Access\<close>, the properties of the middleware are in \<open>Guard\<close>.
\<close>

section \<open>The holder of the configuration\<close>

record configHolder =
  ch_cfg :: Config
  ch_path :: string

definition newConfigHolder :: "Config \<Rightarrow> string \<Rightarrow> configHolder" where
  "newConfigHolder c p = \<lparr>ch_cfg = c, ch_path = p\<rparr>"

definition get_config :: "configHolder \<Rightarrow> Config" where
  "get_config ch = ch_cfg ch"

definition reload :: "configHolder \<Rightarrow> os \<Rightarrow> (config_error + Config) \<times> configHolder \<times> os" where
  "reload ch w =
     (case Load (ch_path ch) w of
        (Inl e, w') \<Rightarrow> (Inl e, ch, w')
      | (Inr c, w') \<Rightarrow> (Inr c, ch\<lparr>ch_cfg := c\<rparr>, w'))"

text \<open>The result says whether the level was saved.\<close>

definition setLogLevel :: "string \<Rightarrow> configHolder \<Rightarrow> os \<Rightarrow> bool \<times> configHolder \<times> os" where
  "setLogLevel level ch w =
     (let prev = LogLevel (ch_cfg ch);
          c = (ch_cfg ch)\<lparr>LogLevel := level\<rparr>
      in case Save c (ch_path ch) w of
           (False, w') \<Rightarrow> (False, ch\<lparr>ch_cfg := c\<lparr>LogLevel := prev\<rparr>\<rparr>, w')
         | (True, w') \<Rightarrow> (True, ch\<lparr>ch_cfg := c\<rparr>, w'))"

section \<open>Failed logins\<close>

definition maxFailedAttempts :: nat where
  "maxFailedAttempts = 3"

definition failureWindow :: duration where
  "failureWindow = 5 * minute"

definition lockoutDuration :: duration where
  "lockoutDuration = 15 * minute"

text \<open>\<open>lockedAt\<close> starts as the zero time, 1 January of the year 1.\<close>

definition zero_time :: instant where
  "zero_time = - 62135596800 * second"

record ipRecord =
  attempts :: "instant list"
  lockedAt :: instant

record loginTracker =
  ips :: "string \<Rightarrow> ipRecord option"

definition newLoginTracker :: loginTracker where
  "newLoginTracker = \<lparr>ips = (\<lambda>_. None)\<rparr>"

text \<open>
  \<open>net.SplitHostPort\<close>: the last colon separates the port; a host with colons is in brackets;
  brackets are allowed nowhere else. Every error is \<open>None\<close>.
\<close>

definition split_host_port :: "string \<Rightarrow> (string \<times> string) option" where
  "split_host_port s =
     (case last_index_byte s CHR '':'' of
        None \<Rightarrow> None
      | Some i \<Rightarrow>
          (let port = drop (Suc i) s
           in if has_prefix s ''['' then
                (case index_byte s CHR '']'' of
                   None \<Rightarrow> None
                 | Some e \<Rightarrow>
                     if Suc e \<noteq> i then None
                     else if CHR ''['' \<in> set (drop 1 s) \<or> CHR '']'' \<in> set (drop (Suc e) s) then None
                     else Some (drop 1 (take e s), port))
              else
                (let host = take i s
                 in if CHR '':'' \<in> set host then None
                    else if CHR ''['' \<in> set s \<or> CHR '']'' \<in> set s then None
                    else Some (host, port))))"

definition stripPort :: "string \<Rightarrow> string" where
  "stripPort addr = (case split_host_port addr of Some (host, port) \<Rightarrow> host | None \<Rightarrow> addr)"

definition recordFailure :: "string \<Rightarrow> instant \<Rightarrow> loginTracker \<Rightarrow> loginTracker" where
  "recordFailure remoteAddr now lt =
     (let ip = stripPort remoteAddr;
          r = (case ips lt ip of None \<Rightarrow> \<lparr>attempts = [], lockedAt = zero_time\<rparr> | Some r \<Rightarrow> r);
          cutoff = now - failureWindow;
          recent = filter (\<lambda>t. cutoff < t) (attempts r) @ [now];
          r1 = r\<lparr>attempts := recent\<rparr>;
          r2 = (if maxFailedAttempts \<le> length recent then r1\<lparr>lockedAt := now\<rparr> else r1)
      in lt\<lparr>ips := (ips lt)(ip \<mapsto> r2)\<rparr>)"

definition recordSuccess :: "string \<Rightarrow> loginTracker \<Rightarrow> loginTracker" where
  "recordSuccess remoteAddr lt = lt\<lparr>ips := (ips lt)(stripPort remoteAddr := None)\<rparr>"

definition isLocked :: "string \<Rightarrow> instant \<Rightarrow> loginTracker \<Rightarrow> bool \<times> loginTracker" where
  "isLocked remoteAddr now lt =
     (let ip = stripPort remoteAddr
      in case ips lt ip of
           None \<Rightarrow> (False, lt)
         | Some r \<Rightarrow>
             if length (attempts r) < maxFailedAttempts then (False, lt)
             else if lockoutDuration < now - lockedAt r then (False, lt\<lparr>ips := (ips lt)(ip := None)\<rparr>)
             else (True, lt))"

section \<open>Sessions\<close>

record session =
  expiresAt :: instant

record sessionStore =
  sessions :: "string \<Rightarrow> session option"
  timeout :: duration

definition newSessionStore :: "int \<Rightarrow> sessionStore" where
  "newSessionStore timeoutMinutes = \<lparr>sessions = (\<lambda>_. None), timeout = minutes timeoutMinutes\<rparr>"

definition updateTimeout :: "int \<Rightarrow> sessionStore \<Rightarrow> sessionStore" where
  "updateTimeout m s = s\<lparr>timeout := minutes m\<rparr>"

text \<open>\<open>rnd\<close> is what \<open>rand.Read\<close> fills the 32 bytes with, or \<open>None\<close> where it fails.\<close>

definition create :: "string option \<Rightarrow> instant \<Rightarrow> sessionStore \<Rightarrow> string option \<times> sessionStore" where
  "create rnd now s =
     (case rnd of
        None \<Rightarrow> (None, s)
      | Some b \<Rightarrow>
          (let token = hex_encode b;
               swept = (\<lambda>k. case sessions s k of
                              None \<Rightarrow> None
                            | Some v \<Rightarrow> if expiresAt v < now then None else Some v)
           in (Some token, s\<lparr>sessions := swept(token \<mapsto> \<lparr>expiresAt = now + timeout s\<rparr>)\<rparr>)))"

definition valid_session :: "string \<Rightarrow> instant \<Rightarrow> sessionStore \<Rightarrow> bool \<times> sessionStore" where
  "valid_session token now s =
     (case sessions s token of
        None \<Rightarrow> (False, s)
      | Some sess \<Rightarrow>
          if expiresAt sess < now then (False, s\<lparr>sessions := (sessions s)(token := None)\<rparr>)
          else (True, s))"

definition remove_session :: "string \<Rightarrow> sessionStore \<Rightarrow> sessionStore" where
  "remove_session token s = s\<lparr>sessions := (sessions s)(token := None)\<rparr>"

section \<open>Requests and responses\<close>

text \<open>
  What the program reads of a request: the cookies as \<open>net/http\<close> has parsed them, the header
  \<open>Authorization\<close> (empty where there is none), and for the handlers the method, the path, the
  query parameter \<open>level\<close> and the body.
\<close>

record request =
  req_method :: string
  req_path :: string
  remoteAddr :: string
  cookies :: "(string \<times> string) list"
  authorization :: string
  query_level :: string
  req_body :: string

record cookie =
  c_name :: string
  c_value :: string
  c_maxAge :: int
  c_httpOnly :: bool
  c_sameSiteStrict :: bool

text \<open>The body of a response is the text of an error or a JSON tree; other handlers send bytes.\<close>

datatype resp_body = Text string | Json json | Bytes string

record response =
  resp_status :: nat
  setCookies :: "cookie list"
  wwwAuthenticate :: bool
  resp_body :: resp_body

definition http_error :: "string \<Rightarrow> nat \<Rightarrow> response" where
  "http_error msg code =
     \<lparr>resp_status = code, setCookies = [], wwwAuthenticate = False, resp_body = Text msg\<rparr>"

text \<open>Headers that were set before the response is written go out with it.\<close>

definition with_cookies :: "cookie list \<Rightarrow> response \<Rightarrow> response" where
  "with_cookies cs r = r\<lparr>setCookies := cs @ setCookies r\<rparr>"

definition with_challenge :: "response \<Rightarrow> response" where
  "with_challenge r = r\<lparr>wwwAuthenticate := True\<rparr>"

definition find_cookie :: "string \<Rightarrow> request \<Rightarrow> string option" where
  "find_cookie name r = map_of (cookies r) name"

definition sessionCookieName :: string where
  "sessionCookieName = ''winctl_session''"

definition loggedOutCookieName :: string where
  "loggedOutCookieName = ''winctl_logged_out''"

definition clear_cookie :: "string \<Rightarrow> cookie" where
  "clear_cookie name =
     \<lparr>c_name = name, c_value = [], c_maxAge = - 1, c_httpOnly = False, c_sameSiteStrict = False\<rparr>"

definition session_cookie :: "string \<Rightarrow> cookie" where
  "session_cookie token =
     \<lparr>c_name = sessionCookieName, c_value = token, c_maxAge = 0, c_httpOnly = True,
      c_sameSiteStrict = True\<rparr>"

text \<open>\<open>Request.BasicAuth\<close>: the scheme is compared up to ASCII case.\<close>

definition basic_auth_header :: "request \<Rightarrow> (string \<times> string) option" where
  "basic_auth_header r =
     (let auth = authorization r
      in if auth = [] then None
         else if length auth < 6 \<or> map ascii_lower (take 6 auth) \<noteq> ''basic '' then None
         else case b64_decode (drop 6 auth) of
                None \<Rightarrow> None
              | Some cs \<Rightarrow>
                  (case index_byte cs CHR '':'' of
                     None \<Rightarrow> None
                   | Some i \<Rightarrow> Some (take i cs, drop (Suc i) cs)))"

section \<open>The middleware\<close>

text \<open>
  The part of the server that the middleware reads and changes. The handlers behind it work on
  an extension of this record.
\<close>

record auth =
  holder :: configHolder
  store :: sessionStore
  tracker :: loginTracker

record env =
  now :: instant
  randomBytes :: "string option"

type_synonym 'a handler = "env \<Rightarrow> request \<Rightarrow> 'a \<Rightarrow> response \<times> 'a"

definition unauthorized :: response where
  "unauthorized = with_challenge (http_error ''Unauthorized'' 401)"

text \<open>The part of the middleware that asks for credentials; \<open>cs\<close> are the cookies set so far.\<close>

definition login :: "'a auth_scheme handler \<Rightarrow> cookie list \<Rightarrow> 'a auth_scheme handler" where
  "login nx cs e r s =
     (let c = get_config (holder s);
          parsed = basic_auth_header r;
          user = (case parsed of None \<Rightarrow> [] | Some (u, p) \<Rightarrow> u);
          pass = (case parsed of None \<Rightarrow> [] | Some (u, p) \<Rightarrow> p);
          userOK = (user = Username c);
          passOK = (pass = Password c)
      in if parsed = None \<or> \<not> (userOK \<and> passOK) then
           (with_cookies cs unauthorized,
            s\<lparr>tracker := recordFailure (remoteAddr r) (now e) (tracker s)\<rparr>)
         else
           (let s1 = s\<lparr>tracker := recordSuccess (remoteAddr r) (tracker s)\<rparr>;
                (token, st') = create (randomBytes e) (now e) (store s1);
                s2 = s1\<lparr>store := st'\<rparr>
            in case token of
                 None \<Rightarrow> (with_cookies cs (http_error ''Internal Server Error'' 500), s2)
               | Some t \<Rightarrow>
                   (let (resp, s3) = nx e r s2 in (with_cookies (cs @ [session_cookie t]) resp, s3))))"

definition basicAuth :: "'a auth_scheme handler \<Rightarrow> 'a auth_scheme handler" where
  "basicAuth nx e r s =
     (let (locked, lt) = isLocked (remoteAddr r) (now e) (tracker s);
          s1 = s\<lparr>tracker := lt\<rparr>
      in if locked then
           (http_error ''Too many failed login attempts. Try again in 15 minutes.'' 403, s1)
         else if find_cookie loggedOutCookieName r \<noteq> None then
           (with_cookies [clear_cookie loggedOutCookieName] unauthorized, s1)
         else
           (case find_cookie sessionCookieName r of
              None \<Rightarrow> login nx [] e r s1
            | Some v \<Rightarrow>
                (let (ok, st') = valid_session v (now e) (store s1);
                     s2 = s1\<lparr>store := st'\<rparr>
                 in if ok then nx e r s2
                    else login nx [clear_cookie sessionCookieName] e r s2)))"

end
