(* ===== verification/StateStore.thy ===== *)
theory StateStore
  imports Platform
begin

text \<open>
  The package \<open>state\<close>, file \<open>state.go\<close>: the thread-safe record of what is scheduled, the copy
  of it that the API reports, and the callback that is told whenever the schedule intent
  changes. Every method is one critical section of \<open>State.mu\<close> followed, where the intent
  changed, by \<open>notifyChange\<close> outside the lock. The world \<open>'w\<close> the callback acts on is a
  parameter: the program passes a callback that writes \<open>state.json\<close>.
\<close>

record Intent =
  RestartScheduleEnabled :: bool
  LockScheduleEnabled :: bool

record StatusDTO =
  DryRun :: bool
  RestartScheduleActive :: bool
  RestartNextAt :: "instant option"
  RestartPendingOnce :: bool
  RestartOnceAt :: "instant option"
  LockScheduleActive :: bool
  LockNextAt :: "instant option"
  LockPendingOnce :: bool
  LockOnceAt :: "instant option"

record 'w State =
  dryRun :: bool
  restartScheduleOn :: bool
  restartNextAt :: "instant option"
  restartPendingOnce :: bool
  restartOnceAt :: "instant option"
  lockScheduleOn :: bool
  lockNextAt :: "instant option"
  lockPendingOnce :: bool
  lockOnceAt :: "instant option"
  onChange :: "(Intent \<Rightarrow> 'w \<Rightarrow> 'w) option"

definition NewState :: "bool \<Rightarrow> 'w State" where
  "NewState dry =
     \<lparr>dryRun = dry,
      restartScheduleOn = False, restartNextAt = None,
      restartPendingOnce = False, restartOnceAt = None,
      lockScheduleOn = False, lockNextAt = None,
      lockPendingOnce = False, lockOnceAt = None,
      onChange = None\<rparr>"

definition SetOnChange :: "(Intent \<Rightarrow> 'w \<Rightarrow> 'w) option \<Rightarrow> 'w State \<Rightarrow> 'w State" where
  "SetOnChange fn s = s\<lparr>onChange := fn\<rparr>"

definition intent :: "'w State \<Rightarrow> Intent" where
  "intent s =
     \<lparr>RestartScheduleEnabled = restartScheduleOn s, LockScheduleEnabled = lockScheduleOn s\<rparr>"

text \<open>
  \<open>notifyChange\<close> reads the callback and the intent under the read lock and calls the callback
  after releasing it. The two halves are separate definitions, because other goroutines may run
  in between.
\<close>

definition notify_read :: "'w State \<Rightarrow> (Intent \<Rightarrow> 'w \<Rightarrow> 'w) option \<times> Intent" where
  "notify_read s = (onChange s, intent s)"

definition notify_call :: "(Intent \<Rightarrow> 'w \<Rightarrow> 'w) option \<times> Intent \<Rightarrow> 'w \<Rightarrow> 'w" where
  "notify_call p w = (case fst p of None \<Rightarrow> w | Some fn \<Rightarrow> fn (snd p) w)"

definition notifyChange :: "'w State \<Rightarrow> 'w \<Rightarrow> 'w" where
  "notifyChange s w = notify_call (notify_read s) w"

definition copyTime :: "instant option \<Rightarrow> instant option" where
  "copyTime t = (case t of None \<Rightarrow> None | Some v \<Rightarrow> Some v)"

definition Status :: "'w State \<Rightarrow> StatusDTO" where
  "Status s =
     \<lparr>DryRun = dryRun s,
      RestartScheduleActive = restartScheduleOn s,
      RestartNextAt = copyTime (restartNextAt s),
      RestartPendingOnce = restartPendingOnce s,
      RestartOnceAt = copyTime (restartOnceAt s),
      LockScheduleActive = lockScheduleOn s,
      LockNextAt = copyTime (lockNextAt s),
      LockPendingOnce = lockPendingOnce s,
      LockOnceAt = copyTime (lockOnceAt s)\<rparr>"

text \<open>
  The setters of the schedules: first the part under the lock, with the flag \<open>on != prev\<close> that
  decides about the notification, then the whole method.
\<close>

definition setRestartSchedule_locked :: "bool \<Rightarrow> instant option \<Rightarrow> 'w State \<Rightarrow> 'w State \<times> bool" where
  "setRestartSchedule_locked on next s =
     (let prev = restartScheduleOn s
      in (s\<lparr>restartScheduleOn := on, restartNextAt := copyTime next\<rparr>, on \<noteq> prev))"

definition SetRestartSchedule :: "bool \<Rightarrow> instant option \<Rightarrow> 'w State \<Rightarrow> 'w \<Rightarrow> 'w State \<times> 'w" where
  "SetRestartSchedule on next s w =
     (let (s', changed) = setRestartSchedule_locked on next s
      in (s', if changed then notifyChange s' w else w))"

definition SetRestartOnce :: "bool \<Rightarrow> instant option \<Rightarrow> 'w State \<Rightarrow> 'w State" where
  "SetRestartOnce pending at s = s\<lparr>restartPendingOnce := pending, restartOnceAt := copyTime at\<rparr>"

definition setLockSchedule_locked :: "bool \<Rightarrow> instant option \<Rightarrow> 'w State \<Rightarrow> 'w State \<times> bool" where
  "setLockSchedule_locked on next s =
     (let prev = lockScheduleOn s
      in (s\<lparr>lockScheduleOn := on, lockNextAt := copyTime next\<rparr>, on \<noteq> prev))"

definition SetLockSchedule :: "bool \<Rightarrow> instant option \<Rightarrow> 'w State \<Rightarrow> 'w \<Rightarrow> 'w State \<times> 'w" where
  "SetLockSchedule on next s w =
     (let (s', changed) = setLockSchedule_locked on next s
      in (s', if changed then notifyChange s' w else w))"

definition SetLockOnce :: "bool \<Rightarrow> instant option \<Rightarrow> 'w State \<Rightarrow> 'w State" where
  "SetLockOnce pending at s = s\<lparr>lockPendingOnce := pending, lockOnceAt := copyTime at\<rparr>"

definition reset_locked :: "'w State \<Rightarrow> 'w State \<times> bool" where
  "reset_locked s =
     (let hadSchedules = restartScheduleOn s \<or> lockScheduleOn s
      in (s\<lparr>restartScheduleOn := False, restartNextAt := None,
            restartPendingOnce := False, restartOnceAt := None,
            lockScheduleOn := False, lockNextAt := None,
            lockPendingOnce := False, lockOnceAt := None\<rparr>, hadSchedules))"

definition Reset :: "'w State \<Rightarrow> 'w \<Rightarrow> 'w State \<times> 'w" where
  "Reset s w =
     (let (s', hadSchedules) = reset_locked s
      in (s', if hadSchedules then notifyChange s' w else w))"

section \<open>The contract of an operation that reports changes of the intent\<close>

text \<open>
  An operation of the store calls the callback exactly when it changes the intent, once, with
  the new intent, and keeps the callback. A client that stores the intent elsewhere
  (\<open>synced i w\<close>: the world \<open>w\<close> records intent \<open>i\<close>) therefore stays up to date.
\<close>

locale notifying_op =
  fixes op :: "'w State \<Rightarrow> 'w \<Rightarrow> 'w State \<times> 'w"
  assumes keeps_callback: "onChange (fst (op s w)) = onChange s"
    and keeps_dryRun: "dryRun (fst (op s w)) = dryRun s"
    and notifies:
      "snd (op s w) = (if intent (fst (op s w)) = intent s then w else notifyChange (fst (op s w)) w)"
begin

lemma silent: "intent (fst (op s w)) = intent s \<Longrightarrow> snd (op s w) = w"
  by (simp add: notifies)

lemma stays_synced:
  assumes "onChange s = Some fn" and "synced (intent s) w" and "\<And>i. synced i (fn i w)"
  shows "synced (intent (fst (op s w))) (snd (op s w))"
  using assms keeps_callback [of s w]
  by (simp add: notifies notifyChange_def notify_call_def notify_read_def)

end

lemmas state_ops = SetRestartSchedule_def setRestartSchedule_locked_def SetRestartOnce_def
  SetLockSchedule_def setLockSchedule_locked_def SetLockOnce_def Reset_def reset_locked_def

lemma copyTime_id [simp]: "copyTime t = t"
  by (simp add: copyTime_def split: option.split)

lemma intent_eq:
  "intent s = intent t \<longleftrightarrow>
     restartScheduleOn s = restartScheduleOn t \<and> lockScheduleOn s = lockScheduleOn t"
  by (simp add: intent_def)

interpretation set_restart: notifying_op "SetRestartSchedule on nx" for on nx
  by unfold_locales (auto simp: state_ops intent_eq)

interpretation set_lock: notifying_op "SetLockSchedule on nx" for on nx
  by unfold_locales (auto simp: state_ops intent_eq)

interpretation set_restart_once: notifying_op "\<lambda>s w. (SetRestartOnce p t s, w)" for p t
  by unfold_locales (auto simp: state_ops intent_eq)

interpretation set_lock_once: notifying_op "\<lambda>s w. (SetLockOnce p t s, w)" for p t
  by unfold_locales (auto simp: state_ops intent_eq)

interpretation reset_op: notifying_op Reset
  by unfold_locales (auto simp: state_ops intent_eq)

text \<open>A call of one of the mutating methods, and runs of calls.\<close>

datatype store_call =
    CSetRestartSchedule bool "instant option"
  | CSetRestartOnce bool "instant option"
  | CSetLockSchedule bool "instant option"
  | CSetLockOnce bool "instant option"
  | CReset

fun do_call :: "store_call \<Rightarrow> 'w State \<Rightarrow> 'w \<Rightarrow> 'w State \<times> 'w" where
  "do_call (CSetRestartSchedule on t) s w = SetRestartSchedule on t s w"
| "do_call (CSetRestartOnce p t) s w = (SetRestartOnce p t s, w)"
| "do_call (CSetLockSchedule on t) s w = SetLockSchedule on t s w"
| "do_call (CSetLockOnce p t) s w = (SetLockOnce p t s, w)"
| "do_call CReset s w = Reset s w"

fun do_calls :: "store_call list \<Rightarrow> 'w State \<Rightarrow> 'w \<Rightarrow> 'w State \<times> 'w" where
  "do_calls [] s w = (s, w)"
| "do_calls (c # cs) s w = (let (s', w') = do_call c s w in do_calls cs s' w')"

lemma do_call_notifies: "notifying_op (do_call c :: 'w State \<Rightarrow> 'w \<Rightarrow> 'w State \<times> 'w)"
proof (cases c)
  case (CSetRestartSchedule on t)
  then have "(do_call c :: 'w State \<Rightarrow> 'w \<Rightarrow> 'w State \<times> 'w) = SetRestartSchedule on t" by (simp add: fun_eq_iff)
  then show ?thesis using set_restart.notifying_op_axioms by simp
next
  case (CSetRestartOnce p t)
  then have "(do_call c :: 'w State \<Rightarrow> 'w \<Rightarrow> 'w State \<times> 'w) = (\<lambda>s w. (SetRestartOnce p t s, w))" by (simp add: fun_eq_iff)
  then show ?thesis using set_restart_once.notifying_op_axioms by simp
next
  case (CSetLockSchedule on t)
  then have "(do_call c :: 'w State \<Rightarrow> 'w \<Rightarrow> 'w State \<times> 'w) = SetLockSchedule on t" by (simp add: fun_eq_iff)
  then show ?thesis using set_lock.notifying_op_axioms by simp
next
  case (CSetLockOnce p t)
  then have "(do_call c :: 'w State \<Rightarrow> 'w \<Rightarrow> 'w State \<times> 'w) = (\<lambda>s w. (SetLockOnce p t s, w))" by (simp add: fun_eq_iff)
  then show ?thesis using set_lock_once.notifying_op_axioms by simp
next
  case CReset
  then have "(do_call c :: 'w State \<Rightarrow> 'w \<Rightarrow> 'w State \<times> 'w) = Reset" by (simp add: fun_eq_iff)
  then show ?thesis using reset_op.notifying_op_axioms by simp
qed

lemma do_calls_synced:
  assumes "onChange s = Some fn" and "synced (intent s) w" and "\<And>i w. synced i (fn i w)"
  shows "synced (intent (fst (do_calls cs s w))) (snd (do_calls cs s w))
       \<and> onChange (fst (do_calls cs s w)) = Some fn"
  using assms(1,2)
proof (induction cs arbitrary: s w)
  case Nil
  then show ?case by simp
next
  case (Cons c cs)
  obtain s' w' where step: "do_call c s w = (s', w')" by (cases "do_call c s w")
  have "onChange s' = Some fn" and "synced (intent s') w'"
    using notifying_op.keeps_callback [OF do_call_notifies, of c s w]
      notifying_op.stays_synced [OF do_call_notifies, of s fn synced w c]
      Cons.prems assms(3) step by auto
  with Cons.IH step show ?case by simp
qed

end
