(* ===== verification/Scheduler.thy ===== *)
theory Scheduler
  imports StateStore
begin

text \<open>
  The package \<open>scheduler\<close> as a labelled transition system. The record \<open>Scheduler\<close> holds the
  fields of the Go struct; \<open>sys\<close> adds what its methods and goroutines act on: the shared
  \<open>State\<close>, the root context, the goroutines, the clock, the world of the persistence callback
  and a log of the executed actions.

  Every start of an activity creates one context and one goroutine, so a context is named by
  the index of its goroutine, a cancel function is that index, and \<open>ctxCancelled\<close> of the
  goroutine records whether it has been called. A public method is one critical section of
  \<open>s.mu\<close>; a goroutine moves from one shared access to the next. The steps of goroutines are
  interleaved freely with the methods and with the passing of time, and \<open>select\<close> may take any
  channel that is ready.
\<close>

section \<open>The struct and its goroutines\<close>

record IntervalRange =
  MinMinutes :: int
  MaxMinutes :: int

text \<open>The functions of the package \<open>executor\<close> that can be called through \<open>ExecFuncs\<close>.\<close>

datatype os_action = RealRestart | RealLockScreen | DryRestart | DryLockScreen

record ExecFuncs =
  Restart :: os_action
  LockScreen :: os_action

record Scheduler =
  exec :: ExecFuncs
  restartInterval :: IntervalRange
  lockInterval :: IntervalRange
  restartScheduleCancel :: "nat option"
  restartScheduleGen :: "64 word"
  restartOnceCancel :: "nat option"
  restartOnceGen :: "64 word"
  lockScheduleCancel :: "nat option"
  lockScheduleGen :: "64 word"
  lockOnceCancel :: "nat option"
  lockOnceGen :: "64 word"

text \<open>
  Where a goroutine stands, named by its next shared access: the loop of a schedule
  (\<open>Loop\<close>), its deferred clean-up (\<open>Defer\<close>), a one-shot (\<open>Once\<close>), and the end. A goroutine
  inside \<open>notifyChange\<close> carries the callback and the intent it has read.
\<close>

datatype (dead 'w) pc =
    LoopTop
  | LoopSet duration
  | LoopNotify duration
  | LoopCall duration "(Intent \<Rightarrow> 'w \<Rightarrow> 'w) option \<times> Intent"
  | LoopTimer duration
  | LoopSelect instant
  | LoopExec
  | DeferLock
  | DeferClear
  | DeferNotify
  | DeferCall "(Intent \<Rightarrow> 'w \<Rightarrow> 'w) option \<times> Intent"
  | OnceTimer
  | OnceSelect instant
  | OnceExec
  | OnceCancel
  | OnceLock
  | OnceClear
  | Finished

text \<open>
  The four kinds of goroutines of the scheduler, and the HTTP handler that is inside
  \<open>State.Reset\<close>, which notifies after it has released the lock.
\<close>

datatype kind = RestartLoop | LockLoop | RestartShot | LockShot | Resetter

record 'w goroutine =
  kind :: kind
  gen :: "64 word"
  ctxCancelled :: bool
  born :: instant
  pc :: "'w pc"

record entry =
  entryKind :: kind
  entryIndex :: nat
  entryAction :: os_action
  entryTime :: instant

record 'w sys =
  sched :: Scheduler
  st :: "'w State"
  rootDone :: bool
  gos :: "'w goroutine list"
  clock :: instant
  execLog :: "entry list"
  world :: 'w

definition NewExec :: "bool \<Rightarrow> ExecFuncs" where
  "NewExec dry =
     (if dry then \<lparr>Restart = DryRestart, LockScreen = DryLockScreen\<rparr>
      else \<lparr>Restart = RealRestart, LockScreen = RealLockScreen\<rparr>)"

definition NewWithExec :: "ExecFuncs \<Rightarrow> IntervalRange \<Rightarrow> IntervalRange \<Rightarrow> Scheduler" where
  "NewWithExec ex r l =
     \<lparr>exec = ex, restartInterval = r, lockInterval = l,
      restartScheduleCancel = None, restartScheduleGen = 0,
      restartOnceCancel = None, restartOnceGen = 0,
      lockScheduleCancel = None, lockScheduleGen = 0,
      lockOnceCancel = None, lockOnceGen = 0\<rparr>"

definition NewScheduler :: "bool \<Rightarrow> IntervalRange \<Rightarrow> IntervalRange \<Rightarrow> Scheduler" where
  "NewScheduler dry r l = NewWithExec (NewExec dry) r l"

definition init_sys ::
  "bool \<Rightarrow> IntervalRange \<Rightarrow> IntervalRange \<Rightarrow> (Intent \<Rightarrow> 'w \<Rightarrow> 'w) option \<Rightarrow> 'w \<Rightarrow> instant \<Rightarrow> 'w sys"
where
  "init_sys dry r l fn w now =
     \<lparr>sched = NewScheduler dry r l, st = SetOnChange fn (NewState dry), rootDone = False,
      gos = [], clock = now, execLog = [], world = w\<rparr>"

section \<open>Contexts and goroutines\<close>

definition ctx_done :: "'w sys \<Rightarrow> 'w goroutine \<Rightarrow> bool" where
  "ctx_done s g \<longleftrightarrow> rootDone s \<or> ctxCancelled g"

text \<open>Calling the cancel function of the context of goroutine \<open>i\<close>.\<close>

definition cancel_ctx :: "nat \<Rightarrow> 'w goroutine list \<Rightarrow> 'w goroutine list" where
  "cancel_ctx i gs = (if i < length gs then gs[i := (gs ! i)\<lparr>ctxCancelled := True\<rparr>] else gs)"

definition new_go :: "kind \<Rightarrow> 64 word \<Rightarrow> instant \<Rightarrow> 'w pc \<Rightarrow> 'w goroutine" where
  "new_go k g now p = \<lparr>kind = k, gen = g, ctxCancelled = False, born = now, pc = p\<rparr>"

definition onceDelay :: duration where
  "onceDelay = 60 * second"

section \<open>The methods\<close>

definition Stop :: "'w sys \<Rightarrow> 'w sys" where
  "Stop s = s\<lparr>rootDone := True\<rparr>"

text \<open>\<open>n\<close> is the number that \<open>rand.IntN\<close> draws; \<open>rand_ok\<close> says which numbers it can draw.\<close>

definition spread :: "IntervalRange \<Rightarrow> int" where
  "spread ir = i64 (MaxMinutes ir - MinMinutes ir)"

definition rand_ok :: "IntervalRange \<Rightarrow> int \<Rightarrow> bool" where
  "rand_ok ir n \<longleftrightarrow> spread ir \<le> 0 \<or> (0 \<le> n \<and> n < i64 (spread ir + 1))"

definition randomInterval :: "IntervalRange \<Rightarrow> int \<Rightarrow> duration" where
  "randomInterval ir n =
     (if spread ir \<le> 0 then minutes (MinMinutes ir)
      else minutes (i64 (n + MinMinutes ir)))"

definition StartRestartSchedule :: "'w sys \<Rightarrow> 'w sys" where
  "StartRestartSchedule s =
     (if restartScheduleCancel (sched s) \<noteq> None then s
      else
        let i = length (gos s); g = restartScheduleGen (sched s) + 1
        in s\<lparr>sched := (sched s)\<lparr>restartScheduleCancel := Some i, restartScheduleGen := g\<rparr>,
             gos := gos s @ [new_go RestartLoop g (clock s) LoopTop]\<rparr>)"

definition StopRestartSchedule :: "'w sys \<Rightarrow> 'w sys" where
  "StopRestartSchedule s =
     (case restartScheduleCancel (sched s) of
        None \<Rightarrow> s
      | Some i \<Rightarrow> s\<lparr>gos := cancel_ctx i (gos s),
                    sched := (sched s)\<lparr>restartScheduleCancel := None\<rparr>\<rparr>)"

definition RestartOnce :: "'w sys \<Rightarrow> 'w sys" where
  "RestartOnce s =
     (if restartOnceCancel (sched s) \<noteq> None then s
      else
        let i = length (gos s); g = restartOnceGen (sched s) + 1; at = clock s + onceDelay
        in s\<lparr>sched := (sched s)\<lparr>restartOnceCancel := Some i, restartOnceGen := g\<rparr>,
             st := SetRestartOnce True (Some at) (st s),
             gos := gos s @ [new_go RestartShot g (clock s) OnceTimer]\<rparr>)"

definition StartLockSchedule :: "'w sys \<Rightarrow> 'w sys" where
  "StartLockSchedule s =
     (if lockScheduleCancel (sched s) \<noteq> None then s
      else
        let i = length (gos s); g = lockScheduleGen (sched s) + 1
        in s\<lparr>sched := (sched s)\<lparr>lockScheduleCancel := Some i, lockScheduleGen := g\<rparr>,
             gos := gos s @ [new_go LockLoop g (clock s) LoopTop]\<rparr>)"

definition StopLockSchedule :: "'w sys \<Rightarrow> 'w sys" where
  "StopLockSchedule s =
     (case lockScheduleCancel (sched s) of
        None \<Rightarrow> s
      | Some i \<Rightarrow> s\<lparr>gos := cancel_ctx i (gos s),
                    sched := (sched s)\<lparr>lockScheduleCancel := None\<rparr>\<rparr>)"

definition LockOnce :: "'w sys \<Rightarrow> 'w sys" where
  "LockOnce s =
     (if lockOnceCancel (sched s) \<noteq> None then s
      else
        let i = length (gos s); g = lockOnceGen (sched s) + 1; at = clock s + onceDelay
        in s\<lparr>sched := (sched s)\<lparr>lockOnceCancel := Some i, lockOnceGen := g\<rparr>,
             st := SetLockOnce True (Some at) (st s),
             gos := gos s @ [new_go LockShot g (clock s) OnceTimer]\<rparr>)"

definition UpdateIntervals :: "IntervalRange \<Rightarrow> IntervalRange \<Rightarrow> 'w sys \<Rightarrow> 'w sys" where
  "UpdateIntervals r l s = s\<lparr>sched := (sched s)\<lparr>restartInterval := r, lockInterval := l\<rparr>\<rparr>"

definition CancelRestartOnce :: "'w sys \<Rightarrow> 'w sys" where
  "CancelRestartOnce s =
     (case restartOnceCancel (sched s) of
        None \<Rightarrow> s
      | Some i \<Rightarrow> s\<lparr>gos := cancel_ctx i (gos s),
                    sched := (sched s)\<lparr>restartOnceCancel := None\<rparr>\<rparr>)"

definition CancelLockOnce :: "'w sys \<Rightarrow> 'w sys" where
  "CancelLockOnce s =
     (case lockOnceCancel (sched s) of
        None \<Rightarrow> s
      | Some i \<Rightarrow> s\<lparr>gos := cancel_ctx i (gos s),
                    sched := (sched s)\<lparr>lockOnceCancel := None\<rparr>\<rparr>)"

record CancelRequest =
  reqRestartOnce :: bool
  reqRestartSchedule :: bool
  reqLockOnce :: bool
  reqLockSchedule :: bool

definition Cancel :: "CancelRequest \<Rightarrow> 'w sys \<Rightarrow> 'w sys" where
  "Cancel req s =
     (let s1 = (if reqRestartSchedule req then StopRestartSchedule s else s);
          s2 = (if reqLockSchedule req then StopLockSchedule s1 else s1);
          s3 = (if reqRestartOnce req then CancelRestartOnce s2 else s2)
      in if reqLockOnce req then CancelLockOnce s3 else s3)"

text \<open>
  \<open>s.state.Reset()\<close>: its critical section, after which the calling handler still has to
  notify where a schedule was on.
\<close>

definition StateReset :: "'w sys \<Rightarrow> 'w sys" where
  "StateReset s =
     (let (x, had) = reset_locked (st s)
      in s\<lparr>st := x,
           gos := gos s @ (if had then [new_go Resetter 0 (clock s) DeferNotify] else [])\<rparr>)"

text \<open>\<open>st.SetOnChange(nil)\<close>: the shutdown of the program disconnects the persistence first.\<close>

definition Disconnect :: "'w sys \<Rightarrow> 'w sys" where
  "Disconnect s = s\<lparr>st := SetOnChange None (st s)\<rparr>"

definition ResetAll :: "'w sys \<Rightarrow> 'w sys" where
  "ResetAll s =
     StateReset (Cancel \<lparr>reqRestartOnce = True, reqRestartSchedule = True,
                         reqLockOnce = True, reqLockSchedule = True\<rparr> s)"

section \<open>The goroutines\<close>

text \<open>
  A step of a goroutine is labelled with what the environment chooses in it: the random number,
  or which of the channels of a \<open>select\<close> is taken. A step that the choice does not fit, or a
  channel that is not ready, is no step (\<open>None\<close>).
\<close>

datatype choice = Continue | Draw int | TimerFires | CtxDone

definition log_exec :: "kind \<Rightarrow> nat \<Rightarrow> os_action \<Rightarrow> 'w sys \<Rightarrow> 'w sys" where
  "log_exec k i a s =
     s\<lparr>execLog := execLog s @ [\<lparr>entryKind = k, entryIndex = i, entryAction = a, entryTime = clock s\<rparr>]\<rparr>"

text \<open>A step that leaves no choice.\<close>

definition goes :: "choice \<Rightarrow> 'w sys \<Rightarrow> 'w pc \<Rightarrow> ('w sys \<times> 'w pc) option" where
  "goes c s p = (if c = Continue then Some (s, p) else None)"

text \<open>The goroutines of the two schedules.\<close>

definition restart_loop :: "choice \<Rightarrow> nat \<Rightarrow> 'w sys \<Rightarrow> 'w pc \<Rightarrow> ('w sys \<times> 'w pc) option" where
  "restart_loop c i s p =
     (case p of
        LoopTop \<Rightarrow>
          (case c of
             Draw n \<Rightarrow>
               (let ivl = restartInterval (sched s)
                in if rand_ok ivl n then Some (s, LoopSet (randomInterval ivl n)) else None)
           | _ \<Rightarrow> None)
      | LoopSet d \<Rightarrow>
          (let next = clock s + d; (x, changed) = setRestartSchedule_locked True (Some next) (st s)
           in goes c (s\<lparr>st := x\<rparr>) (if changed then LoopNotify d else LoopTimer d))
      | LoopNotify d \<Rightarrow> goes c s (LoopCall d (notify_read (st s)))
      | LoopCall d q \<Rightarrow> goes c (s\<lparr>world := notify_call q (world s)\<rparr>) (LoopTimer d)
      | LoopTimer d \<Rightarrow> goes c s (LoopSelect (clock s + d))
      | LoopSelect t \<Rightarrow>
          (if c = TimerFires \<and> t \<le> clock s then Some (s, LoopExec)
           else if c = CtxDone \<and> ctx_done s (gos s ! i) then Some (s, DeferLock)
           else None)
      | LoopExec \<Rightarrow> goes c (log_exec RestartLoop i (Restart (exec (sched s))) s) LoopTop
      | DeferLock \<Rightarrow>
          (if restartScheduleGen (sched s) = gen (gos s ! i)
           then goes c (s\<lparr>sched := (sched s)\<lparr>restartScheduleCancel := None\<rparr>\<rparr>) DeferClear
           else goes c s Finished)
      | DeferClear \<Rightarrow>
          (let (x, changed) = setRestartSchedule_locked False None (st s)
           in goes c (s\<lparr>st := x\<rparr>) (if changed then DeferNotify else Finished))
      | DeferNotify \<Rightarrow> goes c s (DeferCall (notify_read (st s)))
      | DeferCall q \<Rightarrow> goes c (s\<lparr>world := notify_call q (world s)\<rparr>) Finished
      | _ \<Rightarrow> None)"

definition lock_loop :: "choice \<Rightarrow> nat \<Rightarrow> 'w sys \<Rightarrow> 'w pc \<Rightarrow> ('w sys \<times> 'w pc) option" where
  "lock_loop c i s p =
     (case p of
        LoopTop \<Rightarrow>
          (case c of
             Draw n \<Rightarrow>
               (let ivl = lockInterval (sched s)
                in if rand_ok ivl n then Some (s, LoopSet (randomInterval ivl n)) else None)
           | _ \<Rightarrow> None)
      | LoopSet d \<Rightarrow>
          (let next = clock s + d; (x, changed) = setLockSchedule_locked True (Some next) (st s)
           in goes c (s\<lparr>st := x\<rparr>) (if changed then LoopNotify d else LoopTimer d))
      | LoopNotify d \<Rightarrow> goes c s (LoopCall d (notify_read (st s)))
      | LoopCall d q \<Rightarrow> goes c (s\<lparr>world := notify_call q (world s)\<rparr>) (LoopTimer d)
      | LoopTimer d \<Rightarrow> goes c s (LoopSelect (clock s + d))
      | LoopSelect t \<Rightarrow>
          (if c = TimerFires \<and> t \<le> clock s then Some (s, LoopExec)
           else if c = CtxDone \<and> ctx_done s (gos s ! i) then Some (s, DeferLock)
           else None)
      | LoopExec \<Rightarrow> goes c (log_exec LockLoop i (LockScreen (exec (sched s))) s) LoopTop
      | DeferLock \<Rightarrow>
          (if lockScheduleGen (sched s) = gen (gos s ! i)
           then goes c (s\<lparr>sched := (sched s)\<lparr>lockScheduleCancel := None\<rparr>\<rparr>) DeferClear
           else goes c s Finished)
      | DeferClear \<Rightarrow>
          (let (x, changed) = setLockSchedule_locked False None (st s)
           in goes c (s\<lparr>st := x\<rparr>) (if changed then DeferNotify else Finished))
      | DeferNotify \<Rightarrow> goes c s (DeferCall (notify_read (st s)))
      | DeferCall q \<Rightarrow> goes c (s\<lparr>world := notify_call q (world s)\<rparr>) Finished
      | _ \<Rightarrow> None)"

text \<open>The goroutines of the two one-shots.\<close>

definition restart_shot :: "choice \<Rightarrow> nat \<Rightarrow> 'w sys \<Rightarrow> 'w pc \<Rightarrow> ('w sys \<times> 'w pc) option" where
  "restart_shot c i s p =
     (case p of
        OnceTimer \<Rightarrow> goes c s (OnceSelect (clock s + onceDelay))
      | OnceSelect t \<Rightarrow>
          (if c = TimerFires \<and> t \<le> clock s then Some (s, OnceExec)
           else if c = CtxDone \<and> ctx_done s (gos s ! i) then Some (s, OnceCancel)
           else None)
      | OnceExec \<Rightarrow> goes c (log_exec RestartShot i (Restart (exec (sched s))) s) OnceCancel
      | OnceCancel \<Rightarrow> goes c (s\<lparr>gos := cancel_ctx i (gos s)\<rparr>) OnceLock
      | OnceLock \<Rightarrow>
          (if restartOnceGen (sched s) = gen (gos s ! i)
           then goes c (s\<lparr>sched := (sched s)\<lparr>restartOnceCancel := None\<rparr>\<rparr>) OnceClear
           else goes c s Finished)
      | OnceClear \<Rightarrow> goes c (s\<lparr>st := SetRestartOnce False None (st s)\<rparr>) Finished
      | _ \<Rightarrow> None)"

definition lock_shot :: "choice \<Rightarrow> nat \<Rightarrow> 'w sys \<Rightarrow> 'w pc \<Rightarrow> ('w sys \<times> 'w pc) option" where
  "lock_shot c i s p =
     (case p of
        OnceTimer \<Rightarrow> goes c s (OnceSelect (clock s + onceDelay))
      | OnceSelect t \<Rightarrow>
          (if c = TimerFires \<and> t \<le> clock s then Some (s, OnceExec)
           else if c = CtxDone \<and> ctx_done s (gos s ! i) then Some (s, OnceCancel)
           else None)
      | OnceExec \<Rightarrow> goes c (log_exec LockShot i (LockScreen (exec (sched s))) s) OnceCancel
      | OnceCancel \<Rightarrow> goes c (s\<lparr>gos := cancel_ctx i (gos s)\<rparr>) OnceLock
      | OnceLock \<Rightarrow>
          (if lockOnceGen (sched s) = gen (gos s ! i)
           then goes c (s\<lparr>sched := (sched s)\<lparr>lockOnceCancel := None\<rparr>\<rparr>) OnceClear
           else goes c s Finished)
      | OnceClear \<Rightarrow> goes c (s\<lparr>st := SetLockOnce False None (st s)\<rparr>) Finished
      | _ \<Rightarrow> None)"

text \<open>The rest of \<open>State.Reset\<close> in the handler that called it.\<close>

definition resetter :: "choice \<Rightarrow> nat \<Rightarrow> 'w sys \<Rightarrow> 'w pc \<Rightarrow> ('w sys \<times> 'w pc) option" where
  "resetter c i s p =
     (case p of
        DeferNotify \<Rightarrow> goes c s (DeferCall (notify_read (st s)))
      | DeferCall q \<Rightarrow> goes c (s\<lparr>world := notify_call q (world s)\<rparr>) Finished
      | _ \<Rightarrow> None)"

fun body :: "kind \<Rightarrow> choice \<Rightarrow> nat \<Rightarrow> 'w sys \<Rightarrow> 'w pc \<Rightarrow> ('w sys \<times> 'w pc) option" where
  "body RestartLoop = restart_loop"
| "body LockLoop = lock_loop"
| "body RestartShot = restart_shot"
| "body LockShot = lock_shot"
| "body Resetter = resetter"

definition set_pc :: "nat \<Rightarrow> 'w pc \<Rightarrow> 'w sys \<Rightarrow> 'w sys" where
  "set_pc i p s = s\<lparr>gos := (gos s)[i := (gos s ! i)\<lparr>pc := p\<rparr>]\<rparr>"

definition go_step :: "choice \<Rightarrow> nat \<Rightarrow> 'w sys \<Rightarrow> 'w sys option" where
  "go_step c i s =
     (if i < length (gos s)
      then map_option (\<lambda>(s', p). set_pc i p s') (body (kind (gos s ! i)) c i s (pc (gos s ! i)))
      else None)"

section \<open>The transition system\<close>

datatype op =
    OpStop
  | OpStartRestartSchedule
  | OpStopRestartSchedule
  | OpRestartOnce
  | OpStartLockSchedule
  | OpStopLockSchedule
  | OpLockOnce
  | OpUpdateIntervals IntervalRange IntervalRange
  | OpCancelRestartOnce
  | OpCancelLockOnce
  | OpStateReset
  | OpDisconnect

fun do_op :: "op \<Rightarrow> 'w sys \<Rightarrow> 'w sys" where
  "do_op OpStop = Stop"
| "do_op OpStartRestartSchedule = StartRestartSchedule"
| "do_op OpStopRestartSchedule = StopRestartSchedule"
| "do_op OpRestartOnce = RestartOnce"
| "do_op OpStartLockSchedule = StartLockSchedule"
| "do_op OpStopLockSchedule = StopLockSchedule"
| "do_op OpLockOnce = LockOnce"
| "do_op (OpUpdateIntervals r l) = UpdateIntervals r l"
| "do_op OpCancelRestartOnce = CancelRestartOnce"
| "do_op OpCancelLockOnce = CancelLockOnce"
| "do_op OpStateReset = StateReset"
| "do_op OpDisconnect = Disconnect"

datatype label = Call op | Go choice nat | Tick duration

inductive sys_step :: "'w sys \<Rightarrow> label \<Rightarrow> 'w sys \<Rightarrow> bool" where
  call_step: "sys_step s (Call c) (do_op c s)"
| go_step: "go_step c i s = Some t \<Longrightarrow> sys_step s (Go c i) t"
| tick_step: "0 \<le> d \<Longrightarrow> sys_step s (Tick d) (s\<lparr>clock := clock s + d\<rparr>)"

inductive_simps sys_step_simps:
  "sys_step s (Call c) t" "sys_step s (Go c i) t" "sys_step s (Tick d) t"

definition is_init :: "'w sys \<Rightarrow> bool" where
  "is_init s \<longleftrightarrow> (\<exists>dry r l fn w now. s = init_sys dry r l fn w now)"

text \<open>A run of the system along a list of labels, for concrete executions.\<close>

fun run :: "label list \<Rightarrow> 'w sys \<Rightarrow> 'w sys option" where
  "run [] s = Some s"
| "run (Call c # ls) s = run ls (do_op c s)"
| "run (Go c i # ls) s = (case go_step c i s of None \<Rightarrow> None | Some t \<Rightarrow> run ls t)"
| "run (Tick d # ls) s = (if 0 \<le> d then run ls (s\<lparr>clock := clock s + d\<rparr>) else None)"

lemma run_reach:
  "reach is_init sys_step s \<Longrightarrow> run ls s = Some t \<Longrightarrow> reach is_init sys_step t"
proof (induction ls s rule: run.induct)
  case (1 s)
  then show ?case by simp
next
  case (2 c ls s)
  then show ?case by (auto intro: reach_step call_step)
next
  case (3 c i ls s)
  then show ?case by (auto intro: reach_step sys_step.go_step split: option.splits)
next
  case (4 d ls s)
  then show ?case by (auto intro: reach_step tick_step split: if_splits)
qed

lemma reach_op: "reach is_init sys_step s \<Longrightarrow> reach is_init sys_step (do_op c s)"
  using reach_step call_step by metis

lemma init_reach [simp]: "reach is_init sys_step (init_sys dry r l fn w now)"
  by (rule reach_init) (unfold is_init_def, blast)

lemmas start_ops = StartRestartSchedule_def StartLockSchedule_def RestartOnce_def LockOnce_def
lemmas stop_ops = StopRestartSchedule_def StopLockSchedule_def CancelRestartOnce_def
  CancelLockOnce_def
lemmas other_ops = Stop_def UpdateIntervals_def StateReset_def Disconnect_def SetOnChange_def

end
