(* ===== verification/Updater.thy ===== *)
theory Updater
  imports Platform Sha256
begin

text \<open>
  The package \<open>updater\<close>: the comparison of versions, the check of the latest release, the
  download of its binary, and the background loop. The network is a function from addresses to
  results at the time of the request; \<open>os.CreateTemp\<close> is an argument, the name it creates.
\<close>

section \<open>Versions\<close>

text \<open>\<open>nil\<close> is \<open>None\<close>; a result has three numbers.\<close>

fun atoi_all :: "string list \<Rightarrow> int list option" where
  "atoi_all [] = Some []"
| "atoi_all (p # ps) =
     (case atoi p of
        None \<Rightarrow> None
      | Some n \<Rightarrow> map_option ((#) n) (atoi_all ps))"

definition parseSemver :: "string \<Rightarrow> int list option" where
  "parseSemver v0 =
     (let v = trim_prefix v0 ''v'';
          parts = split_n v CHR ''.'' 3
      in if length parts \<noteq> 3 then None else atoi_all parts)"

fun newer_from :: "int list \<Rightarrow> int list \<Rightarrow> bool" where
  "newer_from (r # rs) (c # cs) = (if r > c then True else if r < c then False else newer_from rs cs)"
| "newer_from _ _ = False"

definition isNewer :: "string \<Rightarrow> string \<Rightarrow> bool" where
  "isNewer remote current =
     (case (parseSemver remote, parseSemver current) of
        (Some r, Some c) \<Rightarrow> newer_from r c
      | _ \<Rightarrow> False)"

section \<open>Releases\<close>

record UpdateInfo =
  Available :: bool
  Version :: string
  ReleaseName :: string
  Body :: string
  DownloadURL :: string
  Size :: int
  SHA256 :: string

definition no_update :: UpdateInfo where
  "no_update =
     \<lparr>Available = False, Version = [], ReleaseName = [], Body = [], DownloadURL = [], Size = 0,
      SHA256 = []\<rparr>"

record ghAsset =
  AssetName :: string
  BrowserDownloadURL :: string
  AssetSize :: int
  Digest :: string

record ghRelease =
  TagName :: string
  RelName :: string
  RelBody :: string
  Assets :: "ghAsset list"

definition zero_asset :: ghAsset where
  "zero_asset = \<lparr>AssetName = [], BrowserDownloadURL = [], AssetSize = 0, Digest = []\<rparr>"

definition zero_release :: ghRelease where
  "zero_release = \<lparr>TagName = [], RelName = [], RelBody = [], Assets = []\<rparr>"

definition asset_fields :: "string list" where
  "asset_fields = [''name'', ''browser_download_url'', ''size'', ''digest'']"

definition set_asset_field :: "string \<Rightarrow> json \<Rightarrow> ghAsset \<Rightarrow> ghAsset \<times> bool" where
  "set_asset_field n v a =
     (if n = ''name'' then set_string v (\<lambda>s. a\<lparr>AssetName := s\<rparr>) a
      else if n = ''browser_download_url'' then set_string v (\<lambda>s. a\<lparr>BrowserDownloadURL := s\<rparr>) a
      else if n = ''size'' then set_int v (\<lambda>i. a\<lparr>AssetSize := i\<rparr>) a
      else set_string v (\<lambda>s. a\<lparr>Digest := s\<rparr>) a)"

text \<open>
  An array is stored element by element; an element that is there already (the key was given
  twice) is overwritten field by field. \<open>null\<close> empties the slice.
\<close>

definition set_assets :: "json \<Rightarrow> ghRelease \<Rightarrow> ghRelease \<times> bool" where
  "set_assets v rel =
     (case v of
        JNull \<Rightarrow> (rel\<lparr>Assets := []\<rparr>, True)
      | JArr vs \<Rightarrow>
          (let old = (\<lambda>i. if i < length (Assets rel) then Assets rel ! i else zero_asset);
               rs = map (\<lambda>i. set_struct asset_fields set_asset_field (vs ! i) (old i)) [0..<length vs]
           in (rel\<lparr>Assets := map fst rs\<rparr>, list_all snd rs))
      | _ \<Rightarrow> (rel, False))"

definition release_fields :: "string list" where
  "release_fields = [''tag_name'', ''name'', ''body'', ''assets'']"

definition set_release_field :: "string \<Rightarrow> json \<Rightarrow> ghRelease \<Rightarrow> ghRelease \<times> bool" where
  "set_release_field n v rel =
     (if n = ''tag_name'' then set_string v (\<lambda>s. rel\<lparr>TagName := s\<rparr>) rel
      else if n = ''name'' then set_string v (\<lambda>s. rel\<lparr>RelName := s\<rparr>) rel
      else if n = ''body'' then set_string v (\<lambda>s. rel\<lparr>RelBody := s\<rparr>) rel
      else set_assets v rel)"

definition decode_release :: "string \<Rightarrow> ghRelease option" where
  "decode_release body = unmarshal release_fields set_release_field zero_release (json_decode body)"

section \<open>The network\<close>

text \<open>
  A response: its status, the bytes that arrive, and whether the body ends there (or the
  connection breaks).
\<close>

datatype http_result = HttpError | HttpResponse nat string bool

type_synonym network = "string \<Rightarrow> http_result"

section \<open>The updater\<close>

record Updater =
  currentVersion :: string
  apiURL :: string
  cached :: UpdateInfo

definition defaultAPIURL :: string where
  "defaultAPIURL = ''https://api.github.com/repos/arabkin/winctl/releases/latest''"

definition NewUpdater :: "string \<Rightarrow> string \<Rightarrow> Updater" where
  "NewUpdater version url =
     \<lparr>currentVersion = version, apiURL = (if url = [] then defaultAPIURL else url), cached = no_update\<rparr>"

definition Cached :: "Updater \<Rightarrow> UpdateInfo" where
  "Cached u = cached u"

datatype update_error =
    FetchFailed
  | BadStatus nat
  | BadRelease
  | NoExeAsset string
  | DownloadFailed
  | DownloadStatus nat
  | NoTempFile
  | CopyFailed
  | ShaMismatch string string

text \<open>
  \<open>strings.ToLower\<close> is not ASCII only, but no other character than a capital letter has a lower
  case among the characters of \<open>.exe\<close>, and the bytes of other characters are not ASCII.
\<close>

definition is_exe :: "ghAsset \<Rightarrow> bool" where
  "is_exe a \<longleftrightarrow> has_suffix (map ascii_lower (AssetName a)) ''.exe''"

definition asset_sha :: "ghAsset \<Rightarrow> string" where
  "asset_sha a = (case cut_prefix (Digest a) ''sha256:'' of None \<Rightarrow> [] | Some after \<Rightarrow> after)"

definition Check :: "network \<Rightarrow> Updater \<Rightarrow> (update_error + UpdateInfo) \<times> Updater" where
  "Check net u =
     (case net (apiURL u) of
        HttpError \<Rightarrow> (Inl FetchFailed, u)
      | HttpResponse status body complete \<Rightarrow>
          if status \<noteq> 200 then
            (if status = 404 then (Inr no_update, u)
             else if status = 403 then (Inr (Cached u), u)
             else (Inl (BadStatus status), u))
          else
            (case decode_release (take (2 * 1024 * 1024) body) of
               None \<Rightarrow> (Inl BadRelease, u)
             | Some rel \<Rightarrow>
                 (let remoteVersion = trim_prefix (TagName rel) ''v''
                  in if \<not> isNewer remoteVersion (currentVersion u) then
                       (Inr no_update, u\<lparr>cached := no_update\<rparr>)
                     else
                       (case List.find is_exe (Assets rel) of
                          None \<Rightarrow> (Inl (NoExeAsset (TagName rel)), u)
                        | Some exe \<Rightarrow>
                            (let info = \<lparr>Available = True, Version = remoteVersion,
                                         ReleaseName = RelName rel, Body = RelBody rel,
                                         DownloadURL = BrowserDownloadURL exe, Size = AssetSize exe,
                                         SHA256 = asset_sha exe\<rparr>
                             in (Inr info, u\<lparr>cached := info\<rparr>))))))"

text \<open>
  \<open>Download\<close>: the bytes go to the file and into the hash. A write to the disk may fail; then,
  or where the body breaks off, the file is removed.
\<close>

definition Download ::
  "network \<Rightarrow> string option \<Rightarrow> UpdateInfo \<Rightarrow> os \<Rightarrow> (update_error + string) \<times> os"
where
  "Download net tmp info w =
     (case net (DownloadURL info) of
        HttpError \<Rightarrow> (Inl DownloadFailed, w)
      | HttpResponse status body complete \<Rightarrow>
          if status \<noteq> 200 then (Inl (DownloadStatus status), w)
          else
            (case tmp of
               None \<Rightarrow> (Inl NoTempFile, w)
             | Some name \<Rightarrow>
                 (let w0 = put_file name [] 384 w;
                      (written, w1) = os_WriteFile name body 384 w0
                  in if \<not> written \<or> \<not> complete then (Inl CopyFailed, os_Remove name w1)
                     else
                       (let gotHash = hex_encode (sha256 body)
                        in if SHA256 info = [] then (Inr name, w1)
                           else if gotHash \<noteq> SHA256 info then
                             (Inl (ShaMismatch (SHA256 info) gotHash), os_Remove name w1)
                           else (Inr name, w1)))))"

section \<open>The background loop\<close>

text \<open>
  The checks of the loop are made when the ticker fires (each sees the network of its moment),
  until the context is done. \<open>time.NewTicker\<close> panics for an interval that is not positive.
\<close>

datatype bg_event = BgTick network | BgDone

datatype bg_result = Panicked Updater | Returned Updater | Running Updater

fun bg_loop :: "bg_event list \<Rightarrow> Updater \<Rightarrow> bg_result" where
  "bg_loop [] u = Running u"
| "bg_loop (BgTick net # evs) u = bg_loop evs (snd (Check net u))"
| "bg_loop (BgDone # evs) u = Returned u"

definition BackgroundCheck :: "network \<Rightarrow> int \<Rightarrow> bg_event list \<Rightarrow> Updater \<Rightarrow> bg_result" where
  "BackgroundCheck net intervalMinutes evs u =
     (let u1 = snd (Check net u)
      in if minutes intervalMinutes \<le> 0 then Panicked u1 else bg_loop evs u1)"

section \<open>Lemmas\<close>

lemma atoi_all_length: "atoi_all ps = Some ns \<Longrightarrow> length ns = length ps"
  by (induction ps arbitrary: ns) (auto split: option.splits)

lemma parseSemver_length: "parseSemver v = Some ns \<Longrightarrow> length ns = 3"
  by (auto simp: parseSemver_def Let_def split: if_splits dest: atoi_all_length)

lemma parseSemver_three:
  "parseSemver v = Some ns \<Longrightarrow> \<exists>a b c. ns = [a, b, c]"
  using parseSemver_length [of v ns] by (auto simp: length_Suc_conv numeral_3_eq_3)

text \<open>
  The specification: versions are triples of numbers with the lexicographic order, a linear order
  of the library.
\<close>

datatype semver = Semver int int int

instantiation semver :: linorder
begin

fun less_semver :: "semver \<Rightarrow> semver \<Rightarrow> bool" where
  "less_semver (Semver a1 a2 a3) (Semver b1 b2 b3) \<longleftrightarrow> a1 < b1 \<or> a1 = b1 \<and> (a2 < b2 \<or> a2 = b2 \<and> a3 < b3)"

definition less_eq_semver :: "semver \<Rightarrow> semver \<Rightarrow> bool" where
  "less_eq_semver x y \<longleftrightarrow> x = y \<or> x < y"

instance
proof
  fix x y z :: semver
  show "(x < y) = (x \<le> y \<and> \<not> y \<le> x)" by (cases x; cases y) (auto simp: less_eq_semver_def)
  show "x \<le> x" by (simp add: less_eq_semver_def)
  show "x \<le> y \<Longrightarrow> y \<le> z \<Longrightarrow> x \<le> z" by (cases x; cases y; cases z) (auto simp: less_eq_semver_def)
  show "x \<le> y \<Longrightarrow> y \<le> x \<Longrightarrow> x = y" by (cases x; cases y) (auto simp: less_eq_semver_def)
  show "x \<le> y \<or> y \<le> x" by (cases x; cases y) (auto simp: less_eq_semver_def)
qed

end

definition semver_of :: "string \<Rightarrow> semver option" where
  "semver_of v = (case parseSemver v of Some [a, b, c] \<Rightarrow> Some (Semver a b c) | _ \<Rightarrow> None)"

lemma semver_of_parse:
  obtains "parseSemver v = None" "semver_of v = None"
  | a b c where "parseSemver v = Some [a, b, c]" "semver_of v = Some (Semver a b c)"
  using parseSemver_three [of v] by (cases "parseSemver v") (auto simp: semver_of_def)

lemma not_v_digits: "c = CHR ''v'' \<Longrightarrow> \<not> is_digit c"
  by (simp add: is_digit_def)

lemma itoa_chars: "c \<in> set (itoa i) \<Longrightarrow> is_digit c \<or> c = CHR ''-''"
  by (auto simp: itoa_def dest: nat_dec_digits split: if_splits)

lemma itoa_no_dot [simp]: "CHR ''.'' \<notin> set (itoa i)"
  using itoa_chars [of "CHR ''.''" i] by auto

lemma itoa_no_v: "\<not> has_prefix (itoa i @ s) ''v''"
proof -
  have "itoa i \<noteq> []" by (simp add: itoa_def)
  then obtain c cs where c: "itoa i = c # cs" by (cases "itoa i") auto
  then have "c \<noteq> CHR ''v''" using itoa_chars [of c i] not_v_digits by auto
  with c show ?thesis by (simp add: has_prefix_def)
qed

lemma parseSemver_print:
  assumes "in_i64 a" and "in_i64 b" and "in_i64 c"
  shows "parseSemver (itoa a @ ''.'' @ itoa b @ ''.'' @ itoa c) = Some [a, b, c]"
proof -
  have "split_n (itoa a @ CHR ''.'' # itoa b @ CHR ''.'' # itoa c) CHR ''.'' 3 = [itoa a, itoa b, itoa c]"
    using split_n_cons [of "CHR ''.''" "itoa a" "itoa b @ CHR ''.'' # itoa c" 1]
      split_n_cons [of "CHR ''.''" "itoa b" "itoa c" 0]
    by (simp add: numeral_3_eq_3 del: split_n.simps) (simp add: split_n_last)
  moreover have "trim_prefix (itoa a @ s) ''v'' = itoa a @ s" for s
    using itoa_no_v by (simp add: trim_prefix_def)
  ultimately show ?thesis using assms by (simp add: parseSemver_def Let_def)
qed

lemma Check_keeps: "currentVersion (snd (Check net u)) = currentVersion u \<and> apiURL (snd (Check net u)) = apiURL u"
  by (simp add: Check_def Let_def split: http_result.split option.split)

definition newer_only :: "Updater \<Rightarrow> bool" where
  "newer_only u \<longleftrightarrow> (Available (cached u) \<longrightarrow> isNewer (Version (cached u)) (currentVersion u))"

lemma newer_only_Check:
  "newer_only u \<Longrightarrow> newer_only (snd (Check net u))
     \<and> (\<forall>info. fst (Check net u) = Inr info \<longrightarrow> Available info \<longrightarrow> isNewer (Version info) (currentVersion u))"
  by (auto simp: Check_def Let_def newer_only_def no_update_def Cached_def
    split: http_result.splits option.splits)

text \<open>A release with one binary, for the witnesses.\<close>

definition demo_release :: json where
  "demo_release =
     JObj [(''tag_name'', JStr ''v1.3.0''), (''name'', JStr ''r''),
           (''assets'', JArr [JObj [(''name'', JStr ''readme.txt'')],
              JObj [(''name'', JStr ''winctl.EXE''), (''browser_download_url'', JStr ''u''),
                    (''size'', JNum (itoa 7)), (''digest'', JStr ''sha256:ab'')]])]"

lemma demo_release_good: "json_good demo_release"
  by (simp add: json_good_def demo_release_def max_nesting_def ascii_valid_utf8 ascii_def)

section \<open>Properties\<close>

text \<open>
  \<open>isNewer\<close> compares versions by their order: it holds exactly if both versions have three parts
  that are decimal numbers and the remote one is greater; a version that does not parse is never
  newer and never older.
\<close>

theorem isNewer_lexicographic:
  "isNewer remote current \<longleftrightarrow>
     (\<exists>r c. semver_of remote = Some r \<and> semver_of current = Some c \<and> c < r)"
  by (rule semver_of_parse [of remote]; rule semver_of_parse [of current]) (auto simp: isNewer_def)

text \<open>
  C20: \<open>isNewer\<close> is a strict order: no version is newer than itself, no two versions are newer than
  each other, being newer is transitive, and of two versions that parse one is newer unless
  their numbers are equal. An installed update is therefore never offered again, and updates
  never lead back.
\<close>

theorem isNewer_strict_order:
  "\<not> isNewer a a \<and> (isNewer a b \<longrightarrow> \<not> isNewer b a) \<and> (isNewer a b \<and> isNewer b c \<longrightarrow> isNewer a c)
   \<and> (semver_of a \<noteq> None \<and> semver_of b \<noteq> None \<longrightarrow>
        isNewer a b \<or> isNewer b a \<or> semver_of a = semver_of b)"
  by (auto simp: isNewer_lexicographic)

theorem isNewer_strict_order_witness: "isNewer ''v1.10.0'' ''1.9.9'' \<and> \<not> isNewer ''1.9.9'' ''v1.10.0''"
proof -
  have "isNewer ''v1.10.0'' ''1.9.9''" by code_simp
  then show ?thesis using isNewer_strict_order [of "''v1.10.0''" "''1.9.9''"] by blast
qed

text \<open>
  Versions are read back as they are written: for any three numbers, with or without the
  leading \<open>v\<close>.
\<close>

theorem parseSemver_roundtrip:
  assumes "in_i64 a" and "in_i64 b" and "in_i64 c"
  shows "parseSemver (itoa a @ ''.'' @ itoa b @ ''.'' @ itoa c) = Some [a, b, c]
    \<and> parseSemver (''v'' @ itoa a @ ''.'' @ itoa b @ ''.'' @ itoa c) = Some [a, b, c]"
proof -
  have "trim_prefix (itoa a @ s) ''v'' = itoa a @ s" for s
    using itoa_no_v by (simp add: trim_prefix_def)
  then have "parseSemver (''v'' @ itoa a @ s) = parseSemver (itoa a @ s)" for s
    by (simp only: parseSemver_def trim_prefix_append)
  then show ?thesis using parseSemver_print [OF assms] by simp
qed

theorem parseSemver_roundtrip_witness:
  "parseSemver (''v'' @ itoa 1 @ ''.'' @ itoa 2 @ ''.'' @ itoa 7) = Some [1, 2, 7]"
  using parseSemver_roundtrip [of 1 2 7] by (simp add: in_i64_def)

text \<open>
  C33: only newer versions are ever offered: after any number of checks, whatever the network
  answers, an update that is reported by a check or kept for the status and the upgrade has a
  version newer than the running one.
\<close>

theorem offers_only_newer:
  "(let u = fold (\<lambda>net u. snd (Check net u)) nets (NewUpdater version url)
    in currentVersion u = version \<and> (Available (Cached u) \<longrightarrow> isNewer (Version (Cached u)) version)
     \<and> (\<forall>info. fst (Check net u) = Inr info \<longrightarrow> Available info \<longrightarrow> isNewer (Version info) version))"
proof -
  have "newer_only u \<Longrightarrow> currentVersion u = version \<Longrightarrow>
      newer_only (fold (\<lambda>net u. snd (Check net u)) nets u)
      \<and> currentVersion (fold (\<lambda>net u. snd (Check net u)) nets u) = version" for u
    by (induction nets arbitrary: u) (simp_all add: newer_only_Check Check_keeps)
  moreover have "newer_only (NewUpdater version url)" and "currentVersion (NewUpdater version url) = version"
    by (simp_all add: newer_only_def NewUpdater_def no_update_def)
  ultimately have u: "newer_only (fold (\<lambda>net u. snd (Check net u)) nets (NewUpdater version url))"
    "currentVersion (fold (\<lambda>net u. snd (Check net u)) nets (NewUpdater version url)) = version"
    by blast+
  with newer_only_Check [OF u(1), of net] show ?thesis
    by (simp add: Let_def newer_only_def Cached_def)
qed

theorem offers_only_newer_witness: "currentVersion (snd (Check (\<lambda>_. HttpError) (NewUpdater ''1.2.7'' []))) = ''1.2.7''"
  using offers_only_newer [of "[\<lambda>_. HttpError]" "''1.2.7''" "[]"] by (simp add: Let_def)

text \<open>
  The outcome of a check of a newer release that decodes: the first asset whose name ends in
  \<open>.exe\<close>, in any case, is offered and kept, with its address, its size and its checksum; without
  such an asset the check fails and what was kept before stays.
\<close>

theorem check_newer_release:
  assumes "net (apiURL u) = HttpResponse 200 body complete"
    and "decode_release (take (2 * 1024 * 1024) body) = Some rel"
    and "isNewer (trim_prefix (TagName rel) ''v'') (currentVersion u)"
  shows "case List.find is_exe (Assets rel) of
      None \<Rightarrow> Check net u = (Inl (NoExeAsset (TagName rel)), u)
    | Some exe \<Rightarrow>
        (let info = \<lparr>Available = True, Version = trim_prefix (TagName rel) ''v'',
                     ReleaseName = RelName rel, Body = RelBody rel,
                     DownloadURL = BrowserDownloadURL exe, Size = AssetSize exe,
                     SHA256 = asset_sha exe\<rparr>
         in Check net u = (Inr info, u\<lparr>cached := info\<rparr>))"
  using assms by (simp add: Check_def Let_def split: option.split)

theorem check_newer_release_witness:
  "\<exists>info. fst (Check (\<lambda>_. HttpResponse 200 (json_marshal demo_release) True) (NewUpdater ''1.2.7'' [])) = Inr info
     \<and> Available info \<and> Version info = ''1.3.0'' \<and> Size info = 7 \<and> SHA256 info = ''ab''"
proof -
  let ?net = "\<lambda>_. HttpResponse 200 (json_marshal demo_release) True"
  let ?exe = "\<lparr>AssetName = ''winctl.EXE'', BrowserDownloadURL = ''u'', AssetSize = 7, Digest = ''sha256:ab''\<rparr>"
  let ?rel = "\<lparr>TagName = ''v1.3.0'', RelName = ''r'', RelBody = [],
     Assets = [zero_asset\<lparr>AssetName := ''readme.txt''\<rparr>, ?exe]\<rparr>"
  have "length (json_marshal demo_release) \<le> 500" by code_simp
  then have "json_decode (take (2 * 1024 * 1024) (json_marshal demo_release)) = Some demo_release"
    by (simp add: json_stream.dec_enc demo_release_good)
  then have "decode_release (take (2 * 1024 * 1024) (json_marshal demo_release)) = Some ?rel"
    by (simp add: decode_release_def demo_release_def unmarshal_def set_struct_def release_fields_def
      set_release_field_def set_assets_def asset_fields_def set_asset_field_def set_scalar
      zero_release_def zero_asset_def in_i64_def upt_rec)
  moreover have "isNewer (trim_prefix ''v1.3.0'' ''v'') ''1.2.7''" by code_simp
  moreover have "is_exe ?exe" "\<not> is_exe (zero_asset\<lparr>AssetName := ''readme.txt''\<rparr>)" by code_simp+
  ultimately show ?thesis
    using check_newer_release [of ?net "NewUpdater ''1.2.7'' []" "json_marshal demo_release" True ?rel]
    by (simp add: NewUpdater_def asset_sha_def strs Let_def)
qed

text \<open>
  C24: the integrity of a download: where the release names a checksum, \<open>Download\<close> succeeds only if
  the SHA-256 of the bytes that arrived is that checksum, and the file then holds exactly these
  bytes; and whenever it fails, no file is left behind. Without a checksum any bytes are
  accepted.
\<close>

theorem download_integrity:
  assumes "\<forall>name \<in> set_option tmp. files w name = None"
  shows "case Download net tmp info w of
      (Inr name', w') \<Rightarrow>
        tmp = Some name' \<and>
        (\<exists>body. net (DownloadURL info) = HttpResponse 200 body True
           \<and> map_option data (files w' name') = Some body
           \<and> (SHA256 info = [] \<or> hex_encode (sha256 body) = SHA256 info))
    | (Inl e, w') \<Rightarrow> files w' = files w"
  using assms
  by (auto simp: Download_def Let_def os_WriteFile_def put_file_def os_Remove_def fun_upd_idem
    split: http_result.splits option.splits write_fault.splits if_splits)

theorem download_integrity_witness:
  "files (snd (Download (\<lambda>_. HttpResponse 200 ''x'' False) (Some ''t'') no_update empty_disk)) = files empty_disk"
proof -
  have "Download (\<lambda>_. HttpResponse 200 ''x'' False) (Some ''t'') no_update empty_disk =
      (Inl CopyFailed, os_Remove ''t'' (put_file ''t'' ''x'' 384 (put_file ''t'' [] 384 empty_disk)))"
    by (simp add: Download_def os_WriteFile_def empty_disk_def)
  then show ?thesis
    using download_integrity [of "Some ''t''" empty_disk "\<lambda>_. HttpResponse 200 ''x'' False" no_update]
    by (simp add: empty_disk_def)
qed

text \<open>
  A check that fails keeps the last result: an error, a missing release and a rate limit leave
  what is kept for the status and the upgrade as it was; in particular an update stays on offer
  although its release has been withdrawn. A rate limit answers with the kept result.
\<close>

theorem failed_check_keeps_cache:
  "(\<forall>e. fst (Check net u) = Inl e \<longrightarrow> snd (Check net u) = u)
   \<and> (\<forall>status body complete. net (apiURL u) = HttpResponse status body complete \<and> status \<noteq> 200 \<longrightarrow>
        snd (Check net u) = u \<and> (status = 403 \<longrightarrow> fst (Check net u) = Inr (Cached u)))"
  by (auto simp: Check_def Let_def split: http_result.splits option.splits)

theorem failed_check_keeps_cache_witness:
  "fst (Check (\<lambda>_. HttpResponse 403 [] True) (NewUpdater ''1.2.7'' [])) = Inr no_update"
  using failed_check_keeps_cache [of "\<lambda>_. HttpResponse 403 [] True" "NewUpdater ''1.2.7'' []"]
  by (auto simp: Cached_def NewUpdater_def)

text \<open>
  The interval of the background check is not bounded above by the configuration, and its
  conversion to a duration wraps: an interval of up to 153722867 minutes never makes
  \<open>time.NewTicker\<close> panic, and the next one does, after the first check, in a goroutine whose
  panic ends the program.
\<close>

theorem update_interval_limit:
  "(0 < m \<and> m \<le> 153722867 \<longrightarrow> (\<forall>u'. BackgroundCheck net m evs u \<noteq> Panicked u'))
   \<and> BackgroundCheck net 153722868 evs u = Panicked (snd (Check net u))"
proof -
  have loop: "bg_loop evs v \<noteq> Panicked u'" for v u'
    by (induction evs v rule: bg_loop.induct) auto
  have "0 < m \<Longrightarrow> m \<le> 153722867 \<Longrightarrow> 0 < minutes m"
    by (simp add: minutes_small) (simp add: minute_def second_def)
  then show ?thesis using loop minutes_wraps by (auto simp: BackgroundCheck_def Let_def)
qed

theorem update_interval_limit_witness:
  "\<forall>u'. BackgroundCheck (\<lambda>_. HttpError) 360 [BgDone] (NewUpdater ''1.2.7'' []) \<noteq> Panicked u'"
  using update_interval_limit [of 360] by simp

end
