(* ===== verification/Upgrade.thy ===== *)
theory Upgrade
  imports Platform
begin

text \<open>
  The in-place upgrade: the files \<open>server/upgrade_windows.go\<close> and \<open>server/upgrade_other.go\<close>. The
  service manager, \<open>schtasks.exe\<close> and the temporary directory belong to the platform: what they
  answer is in the record \<open>machine\<close>. The theory models the preflight check, the goroutine
  \<open>applyUpgrade\<close> up to the start of the script with its two ends (failure, and the timer that
  resets the flag), and the text of the script; what the script does is in the theory \<open>Script\<close>.
\<close>

section \<open>The path of a service binary\<close>

text \<open>\<open>strings.TrimSpace\<close>: the white space of Unicode, as UTF-8.\<close>

definition space_runes :: "string list" where
  "space_runes =
     [[CHR 0x09], [CHR 0x0A], [CHR 0x0B], [CHR 0x0C], [CHR 0x0D], [CHR 0x20],
      [CHR 0xC2, CHR 0x85], [CHR 0xC2, CHR 0xA0], [CHR 0xE1, CHR 0x9A, CHR 0x80]]
     @ map (\<lambda>n. [CHR 0xE2, CHR 0x80, char_of (128 + n)]) [0..<11]
     @ [[CHR 0xE2, CHR 0x80, CHR 0xA8], [CHR 0xE2, CHR 0x80, CHR 0xA9], [CHR 0xE2, CHR 0x80, CHR 0xAF],
        [CHR 0xE2, CHR 0x81, CHR 0x9F], [CHR 0xE3, CHR 0x80, CHR 0x80]]"

fun trim_left :: "nat \<Rightarrow> string \<Rightarrow> string" where
  "trim_left 0 s = s"
| "trim_left (Suc n) s =
     (case List.find (has_prefix s) space_runes of
        None \<Rightarrow> s
      | Some p \<Rightarrow> trim_left n (drop (length p) s))"

fun trim_right :: "nat \<Rightarrow> string \<Rightarrow> string" where
  "trim_right 0 s = s"
| "trim_right (Suc n) s =
     (case List.find (has_suffix s) space_runes of
        None \<Rightarrow> s
      | Some p \<Rightarrow> trim_right n (take (length s - length p) s))"

text \<open>No string has more runes than bytes, so its length is enough fuel.\<close>

definition trim_space :: "string \<Rightarrow> string" where
  "trim_space s = (let t = trim_left (length s) s in trim_right (length t) t)"

definition parseBinaryPath :: "string \<Rightarrow> string" where
  "parseBinaryPath raw0 =
     (let raw = trim_space raw0;
          unquoted = (case index_byte raw CHR '' '' of None \<Rightarrow> raw | Some i \<Rightarrow> take i raw)
      in if has_prefix raw [CHR 0x22] then
           (case index_byte (drop 1 raw) CHR 0x22 of
              Some e \<Rightarrow> take e (drop 1 raw)
            | None \<Rightarrow> unquoted)
         else unquoted)"

section \<open>Copying a file\<close>

text \<open>
  The destination is truncated before the source is read, so that copying a file onto itself
  empties it. The mode of \<open>os.Create\<close> is 0666.
\<close>

definition copyFile :: "string \<Rightarrow> string \<Rightarrow> os \<Rightarrow> bool \<times> os" where
  "copyFile src dst w =
     (case os_ReadFile src w of
        NotExist \<Rightarrow> (False, w)
      | ReadError \<Rightarrow> (False, w)
      | Content d \<Rightarrow>
          if writeFault w dst = OpenFault then (False, w)
          else os_WriteFile dst (if src = dst then [] else d) 438 (put_file dst [] 438 w))"

section \<open>The machine\<close>

text \<open>
  The answers of the service manager (\<open>Inl\<close> is an error and its text), of \<open>schtasks.exe\<close> when the
  task is created and when it is run, and the directory for temporary files.
\<close>

record machine =
  mgrConnect :: "string option"
  openService :: "string \<Rightarrow> string option"
  serviceConfig :: "string \<Rightarrow> string + string"
  statError :: "string \<Rightarrow> string"
  taskCreated :: bool
  taskStarted :: bool
  tempDir :: string
  joinPath :: "string list \<Rightarrow> string"

definition ServiceName :: string where
  "ServiceName = ''WinCtlSvc''"

text \<open>The path that the manager has for the service, or the message of the step that failed.\<close>

definition installed_binary :: "machine \<Rightarrow> string + string" where
  "installed_binary m =
     (case mgrConnect m of
        Some err \<Rightarrow> Inl (''cannot connect to service manager: '' @ err)
      | None \<Rightarrow>
          (case openService m ServiceName of
             Some err \<Rightarrow> Inl (''service '' @ ServiceName @ '' not found: '' @ err)
           | None \<Rightarrow>
               (case serviceConfig m ServiceName of
                  Inl err \<Rightarrow> Inl (''cannot read service config: '' @ err)
                | Inr path \<Rightarrow> Inr (parseBinaryPath path))))"

definition preflightUpgradeCheck :: "machine \<Rightarrow> os \<Rightarrow> string" where
  "preflightUpgradeCheck m w =
     (case installed_binary m of
        Inl msg \<Rightarrow> msg
      | Inr installedPath \<Rightarrow>
          if files w installedPath = None
          then ''installed binary not found at '' @ installedPath @ '': '' @ statError m installedPath
          else [])"

section \<open>The script\<close>

definition crlf :: string where
  "crlf = [CHR 0x0D, CHR 0x0A]"

definition dq :: "string \<Rightarrow> string" where
  "dq s = [CHR 0x22] @ s @ [CHR 0x22]"

text \<open>The em dash of the messages, in UTF-8.\<close>

definition em_dash :: string where
  "em_dash = [CHR 0xE2, CHR 0x80, CHR 0x94]"

definition script_lines :: "string \<Rightarrow> string \<Rightarrow> string \<Rightarrow> string \<Rightarrow> string \<Rightarrow> string list" where
  "script_lines sn taskName logFile tmpPath installedPath =
     (let backupPath = installedPath @ ''.bak'';
          log = '' >> '' @ dq logFile;
          log2 = log @ '' 2>&1'';
          start = ''sc.exe start '' @ sn @ log2;
          copy = (\<lambda>src dst. ''copy /y '' @ dq src @ '' '' @ dq dst @ log2);
          fatal = ''echo FATAL: rollback copy failed '' @ em_dash @ '' restore manually from .bak'' @ log
      in [''@echo off'',
          ''echo Upgrade started %date% %time%'' @ log,
          ''ping -n 4 127.0.0.1 >nul'',
          ''echo Stopping service...'' @ log,
          ''sc.exe stop '' @ sn @ log2,
          ''echo Waiting for service to stop...'' @ log,
          ''ping -n 6 127.0.0.1 >nul'',
          ''sc.exe query '' @ sn @ '' | find '' @ dq ''STOPPED'' @ '' >nul 2>&1'',
          ''if errorlevel 1 ('',
          ''  echo ERROR: service did not stop, aborting upgrade'' @ log,
          ''  '' @ start,
          ''  goto :cleanup'',
          '')'',
          ''echo Service stopped. Copying new binary...'' @ log,
          copy tmpPath installedPath,
          ''if errorlevel 1 ('',
          ''  echo ERROR: copy failed, restoring backup'' @ log,
          ''  '' @ copy backupPath installedPath,
          ''  if errorlevel 1 ('',
          ''    '' @ fatal,
          ''    goto :cleanup'',
          ''  )'',
          ''  '' @ start,
          ''  goto :cleanup'',
          '')'',
          ''echo Starting service with new binary...'' @ log,
          start,
          ''echo Verifying service started...'' @ log,
          ''ping -n 6 127.0.0.1 >nul'',
          ''sc.exe query '' @ sn @ '' | find '' @ dq ''RUNNING'' @ '' >nul 2>&1'',
          ''if errorlevel 1 ('',
          ''  echo ERROR: service not running after start, restoring backup'' @ log,
          ''  sc.exe stop '' @ sn @ log2,
          ''  ping -n 3 127.0.0.1 >nul'',
          ''  '' @ copy backupPath installedPath,
          ''  if errorlevel 1 ('',
          ''    '' @ fatal,
          ''    goto :cleanup'',
          ''  )'',
          ''  '' @ start,
          '')'',
          '':cleanup'',
          ''del '' @ dq tmpPath @ '' >nul 2>&1'',
          ''schtasks.exe /delete /tn '' @ taskName @ '' /f >nul 2>&1'',
          ''echo Upgrade finished %date% %time%'' @ log,
          ''del '' @ dq ''%~f0'' @ '' >nul 2>&1''])"

definition scriptContent :: "string \<Rightarrow> string \<Rightarrow> string" where
  "scriptContent tmpPath installedPath =
     concat (map (\<lambda>l. l @ crlf)
       (script_lines ServiceName ''WinCtlUpgrade'' (installedPath @ ''.upgrade.log'') tmpPath installedPath))"

section \<open>The goroutine\<close>

text \<open>
  \<open>applyUpgrade\<close> ends with the task launched (\<open>True\<close>), or it cleans up: the download is removed and
  the flag \<open>upgradeInProgress\<close> is reset.
\<close>

definition cleanup :: "string \<Rightarrow> os \<Rightarrow> bool \<times> bool \<times> os" where
  "cleanup tmpPath w = (False, False, os_Remove tmpPath w)"

definition applyUpgrade :: "machine \<Rightarrow> string \<Rightarrow> bool \<Rightarrow> os \<Rightarrow> bool \<times> bool \<times> os" where
  "applyUpgrade m tmpPath flag w =
     (case installed_binary m of
        Inl msg \<Rightarrow> cleanup tmpPath w
      | Inr installedPath \<Rightarrow>
          (let backupPath = installedPath @ ''.bak'';
               (copied, w1) = copyFile installedPath backupPath w
           in if \<not> copied then cleanup tmpPath w1
              else
                (let batPath = joinPath m [tempDir m, ''winctl-upgrade.bat''];
                     (written, w2) = os_WriteFile batPath (scriptContent tmpPath installedPath) 384 w1
                 in if \<not> written then cleanup tmpPath w2
                    else if \<not> taskCreated m \<or> \<not> taskStarted m
                      then cleanup tmpPath (os_Remove batPath w2)
                    else (True, flag, w2))))"

text \<open>After 30 seconds: \<open>CompareAndSwap(true, false)\<close>.\<close>

definition upgradeTimeout :: "bool \<Rightarrow> bool" where
  "upgradeTimeout flag = (if flag then False else flag)"

text \<open>The other platforms (\<open>upgrade_other.go\<close>): no preflight, and the download is thrown away.\<close>

definition preflightUpgradeCheck_other :: string where
  "preflightUpgradeCheck_other = []"

definition applyUpgrade_other :: "string \<Rightarrow> bool \<Rightarrow> os \<Rightarrow> bool \<times> bool \<times> os" where
  "applyUpgrade_other tmpPath flag w = cleanup tmpPath w"

section \<open>Lemmas\<close>

text \<open>A byte that occurs in no white space is never trimmed, and protects what is before it.\<close>

definition space_bytes :: "char set" where
  "space_bytes = set (concat space_runes)"

lemma space_rune_bytes: "p \<in> set space_runes \<Longrightarrow> c \<in> set p \<Longrightarrow> c \<in> space_bytes"
  by (auto simp: space_bytes_def)

lemma find_some_in: "List.find P xs = Some x \<Longrightarrow> x \<in> set xs \<and> P x"
  by (auto simp: find_Some_iff in_set_conv_nth)

lemma trim_left_stop:
  assumes "c \<notin> space_bytes"
  shows "trim_left n (c # s) = c # s"
proof -
  have "p \<noteq> []" if "p \<in> set space_runes" for p using that by (auto simp: space_runes_def)
  then have "\<not> has_prefix (c # s) p" if "p \<in> set space_runes" for p
    using that assms space_rune_bytes [OF that, of c] by (cases p) (auto simp: has_prefix_def)
  then have "List.find (has_prefix (c # s)) space_runes = None" by (simp add: find_None_iff)
  then show ?thesis by (cases n) simp_all
qed

lemma suffix_after:
  assumes "has_suffix (xs @ c # ys) p" and "c \<notin> set p"
  shows "length p \<le> length ys"
proof (rule ccontr)
  assume "\<not> length p \<le> length ys"
  then have "c \<in> set (drop (length (xs @ c # ys) - length p) (xs @ c # ys))"
    by (auto simp: drop_Cons')
  with assms show False by (simp add: has_suffix_def)
qed

lemma trim_right_keeps:
  assumes "c \<notin> space_bytes"
  shows "\<exists>zs. trim_right n (xs @ c # ys) = xs @ c # zs"
proof (induction n arbitrary: ys)
  case 0
  then show ?case by simp
next
  case (Suc n)
  show ?case
  proof (cases "List.find (has_suffix (xs @ c # ys)) space_runes")
    case None
    then show ?thesis by simp
  next
    case (Some p)
    then have p: "p \<in> set space_runes" "has_suffix (xs @ c # ys) p" using find_some_in by fast+
    then have "c \<notin> set p" using assms space_rune_bytes by blast
    then have "length p \<le> length ys" using suffix_after p(2) by blast
    then have "take (length (xs @ c # ys) - length p) (xs @ c # ys) = xs @ c # take (length ys - length p) ys"
      by (simp add: Suc_diff_le)
    with Some Suc.IH show ?thesis by simp
  qed
qed

lemma trim_right_stop:
  assumes "c \<notin> space_bytes"
  shows "trim_right n (xs @ [c]) = xs @ [c]"
proof -
  have "p \<noteq> []" if "p \<in> set space_runes" for p using that by (auto simp: space_runes_def)
  then have "\<not> has_suffix (xs @ [c]) p" if "p \<in> set space_runes" for p
    using that assms space_rune_bytes [OF that, of c] suffix_after [of xs c "[]" p] by auto
  then have "List.find (has_suffix (xs @ [c])) space_runes = None" by (simp add: find_None_iff)
  then show ?thesis by (cases n) simp_all
qed

lemma trim_right_prefix: "\<exists>k. trim_right n s = take k s"
proof (induction n arbitrary: s)
  case 0
  then show ?case by (intro exI [of _ "length s"]) simp
next
  case (Suc n)
  show ?case
  proof (cases "List.find (has_suffix s) space_runes")
    case None
    then show ?thesis by (intro exI [of _ "length s"]) simp
  next
    case (Some p)
    with Suc.IH [of "take (length s - length p) s"] show ?thesis by auto
  qed
qed

lemma quote_no_space: "CHR 0x22 \<notin> space_bytes"
  by code_simp

lemma trim_space_keeps:
  assumes "c \<notin> space_bytes" and "d \<notin> space_bytes"
  shows "\<exists>zs. trim_space (c # xs @ d # ys) = c # xs @ d # zs"
  using trim_right_keeps [OF assms(2), of "length (c # xs @ d # ys)" "c # xs" ys]
  unfolding trim_space_def Let_def trim_left_stop [OF assms(1)] by (simp del: trim_right.simps)

text \<open>What a copy leaves: the destination has the data of the source, other files are untouched.\<close>

lemma copyFile_ok:
  assumes "copyFile src dst w = (True, w')" and "src \<noteq> dst"
  shows "\<exists>d. os_ReadFile src w = Content d \<and> map_option data (files w' dst) = Some d
    \<and> (\<forall>q. q \<noteq> dst \<longrightarrow> files w' q = files w q)"
  using assms
  by (auto simp: copyFile_def os_WriteFile_def put_file_def
    split: read_result.splits write_fault.splits if_splits)

lemma copyFile_frame:
  "q \<noteq> dst \<Longrightarrow> files (snd (copyFile src dst w)) q = files w q"
  by (auto simp: copyFile_def os_WriteFile_def put_file_def
    split: read_result.splits write_fault.splits if_splits)

lemma copyFile_self:
  "copyFile src src w = (True, w') \<Longrightarrow> map_option data (files w' src) = Some []"
  by (auto simp: copyFile_def os_WriteFile_def put_file_def
    split: read_result.splits write_fault.splits if_splits option.splits)

text \<open>A machine on which every step succeeds, for the witness.\<close>

definition demo_machine :: machine where
  "demo_machine =
     \<lparr>mgrConnect = None, openService = (\<lambda>_. None), serviceConfig = (\<lambda>_. Inr ''w.exe run''),
      statError = (\<lambda>_. []), taskCreated = True, taskStarted = True, tempDir = ''tmp'',
      joinPath = concat\<rparr>"

definition demo_disk :: os where
  "demo_disk = put_file ''w.exe'' ''old'' 493 empty_disk"

lemma parseBinaryPath_plain: "parseBinaryPath ''w.exe run'' = ''w.exe''"
  by code_simp

section \<open>Properties\<close>

text \<open>
  The path of the installed binary is found whatever arguments follow it: a quoted path is
  read up to the closing quote, spaces included, and a path without quotes and without white
  space up to the first space.
\<close>

theorem parseBinaryPath_path:
  assumes "CHR 0x22 \<notin> set p"
  shows "parseBinaryPath (CHR 0x22 # p @ CHR 0x22 # args) = p
    \<and> (p \<noteq> [] \<and> set p \<inter> space_bytes = {} \<longrightarrow>
         parseBinaryPath p = p \<and> parseBinaryPath (p @ CHR '' '' # args) = p)"
proof (intro conjI impI)
  obtain zs where zs: "trim_space (CHR 0x22 # p @ CHR 0x22 # args) = CHR 0x22 # p @ CHR 0x22 # zs"
    using trim_space_keeps [OF quote_no_space quote_no_space] by blast
  have "index_byte (p @ CHR 0x22 # zs) CHR 0x22 = Some (length p)"
    using assms by (rule index_byte_append)
  then show "parseBinaryPath (CHR 0x22 # p @ CHR 0x22 # args) = p"
    by (simp add: parseBinaryPath_def zs has_prefix_def Let_def)
next
  have space: "CHR '' '' \<in> space_bytes" by code_simp
  assume "p \<noteq> [] \<and> set p \<inter> space_bytes = {}"
  then have p: "p \<noteq> []" "set p \<inter> space_bytes = {}" by simp_all
  with space have no_space: "CHR '' '' \<notin> set p" by blast
  have no_quote: "\<not> has_prefix (p @ s) [CHR 0x22]" for s
    using p(1) assms by (cases p) (auto simp: has_prefix_def)
  have last: "p = butlast p @ [last p]" "last p \<notin> space_bytes" and hd: "p = hd p # tl p" "hd p \<notin> space_bytes"
    using p by (auto simp: disjoint_iff)
  have left: "trim_left n (p @ s) = p @ s" for n s
    using trim_left_stop [OF hd(2), of n "tl p @ s"] hd(1) by (metis append_Cons)
  have "trim_space p = p"
    using left [of "length p" "[]"] trim_right_stop [OF last(2), of "length p" "butlast p"] last(1)
    by (simp add: trim_space_def Let_def)
  then show "parseBinaryPath p = p"
    using no_quote [of "[]"] no_space by (simp add: parseBinaryPath_def Let_def)
  let ?s = "p @ CHR '' '' # args"
  obtain zs where "trim_right (length ?s) (butlast p @ last p # CHR '' '' # args) = butlast p @ last p # zs"
    using trim_right_keeps [OF last(2)] by blast
  then have zs: "trim_right (length ?s) ?s = p @ zs"
    using last(1) by (metis append.assoc append_Cons append_Nil)
  obtain k where "trim_right (length ?s) ?s = take k ?s" using trim_right_prefix by blast
  with zs have pk: "p @ zs = take k ?s" by (rule trans [OF sym])
  then have "length (p @ zs) = length (take k ?s)" by (rule arg_cong)
  then have "length p \<le> k" by simp
  with pk have "p @ zs = p @ take (k - length p) (CHR '' '' # args)" by simp
  then have "zs = take (k - length p) (CHR '' '' # args)" by simp
  then have "index_byte (p @ zs) CHR '' '' = (if zs = [] then None else Some (length p))"
    using no_space index_byte_append [OF no_space] by (cases "k - length p") auto
  moreover have "trim_space ?s = p @ zs"
    using left [of "length ?s" "CHR '' '' # args"] zs by (simp add: trim_space_def Let_def)
  ultimately show "parseBinaryPath ?s = p"
    using no_quote [of zs] by (simp add: parseBinaryPath_def Let_def)
qed

theorem parseBinaryPath_path_witness:
  "parseBinaryPath (CHR 0x22 # ''C:/a b/w.exe'' @ CHR 0x22 # '' run'') = ''C:/a b/w.exe''"
  using parseBinaryPath_path [of "''C:/a b/w.exe''" "'' run''"] by simp



end
