(* ===== verification/Persist.thy ===== *)
theory Persist
  imports StateStore
begin

text \<open>
  The package \<open>state\<close>, file \<open>persist.go\<close>: the schedule intent on disk. \<open>SaveIntent\<close> prints it
  as indented JSON, \<open>LoadIntent\<close> reads it back and answers with the empty intent where the file
  is missing, unreadable or invalid. The functions of \<open>path/filepath\<close> depend on the platform
  and are parameters.
\<close>

definition StatePath :: "(string \<Rightarrow> string) \<Rightarrow> (string list \<Rightarrow> string) \<Rightarrow> string \<Rightarrow> string" where
  "StatePath dir join configPath = join [dir configPath, ''state.json'']"

definition intent_to_json :: "Intent \<Rightarrow> json" where
  "intent_to_json i =
     JObj [(''restart_schedule_enabled'', JBool (RestartScheduleEnabled i)),
           (''lock_schedule_enabled'', JBool (LockScheduleEnabled i))]"

definition intent_fields :: "string list" where
  "intent_fields = [''restart_schedule_enabled'', ''lock_schedule_enabled'']"

definition set_intent_field :: "string \<Rightarrow> json \<Rightarrow> Intent \<Rightarrow> Intent \<times> bool" where
  "set_intent_field n v i =
     (if n = ''restart_schedule_enabled''
      then set_bool v (\<lambda>b. i\<lparr>RestartScheduleEnabled := b\<rparr>) i
      else set_bool v (\<lambda>b. i\<lparr>LockScheduleEnabled := b\<rparr>) i)"

definition no_intent :: Intent where
  "no_intent = \<lparr>RestartScheduleEnabled = False, LockScheduleEnabled = False\<rparr>"

datatype save_error = SaveFailed string

definition SaveIntent :: "string \<Rightarrow> Intent \<Rightarrow> os \<Rightarrow> (save_error + unit) \<times> os" where
  "SaveIntent path i w =
     (let d = json_marshal (intent_to_json i);
          (ok, w') = os_WriteFile path d 384 w
      in (if ok then Inr () else Inl (SaveFailed path), w'))"

definition LoadIntent :: "string \<Rightarrow> os \<Rightarrow> Intent" where
  "LoadIntent path w =
     (case os_ReadFile path w of
        NotExist \<Rightarrow> no_intent
      | ReadError \<Rightarrow> no_intent
      | Content d \<Rightarrow>
          (case unmarshal intent_fields set_intent_field no_intent (json_parse d) of
             None \<Rightarrow> no_intent
           | Some i \<Rightarrow> i))"

text \<open>The callback that \<open>cmd\<close> and \<open>service\<close> register: a failed save is only logged.\<close>

definition save_callback :: "string \<Rightarrow> Intent \<Rightarrow> os \<Rightarrow> os" where
  "save_callback path i w = snd (SaveIntent path i w)"

section \<open>Lemmas\<close>

lemma intent_json_good [simp]: "json_good (intent_to_json i)"
  by (simp add: json_good_def intent_to_json_def max_nesting_def ascii_valid_utf8 ascii_def)

lemma unmarshal_intent [simp]:
  "unmarshal intent_fields set_intent_field no_intent (Some (intent_to_json i)) = Some i"
  by (simp add: unmarshal_def set_struct_def intent_to_json_def intent_fields_def
      set_intent_field_def set_scalar no_intent_def)

lemma LoadIntent_written:
  "os_ReadFile path w = Content (json_marshal (intent_to_json i)) \<Longrightarrow> LoadIntent path w = i"
  by (simp add: LoadIntent_def json_codec.dec_enc)

lemma LoadIntent_SaveIntent:
  "disk_ok path w \<Longrightarrow> SaveIntent path i w = (r, w') \<Longrightarrow> r = Inr () \<and> LoadIntent path w' = i"
  using os_write_ok [of path w "json_marshal (intent_to_json i)" 384]
  by (auto simp: SaveIntent_def Let_def LoadIntent_written case_prod_unfold)

lemma save_callback_disk [simp]: "disk_ok q (save_callback path i w) = disk_ok q w"
  using disk_ok_write [of q path "json_marshal (intent_to_json i)" 384 w]
  by (simp add: save_callback_def SaveIntent_def Let_def case_prod_unfold)

text \<open>The file records the intent on a disk that works.\<close>

definition recorded :: "string \<Rightarrow> Intent \<Rightarrow> os \<Rightarrow> bool" where
  "recorded path i w \<longleftrightarrow> (disk_ok path w \<longrightarrow> LoadIntent path w = i)"

lemma recorded_save: "recorded path i (save_callback path i w)"
proof -
  obtain r w' where s: "SaveIntent path i w = (r, w')" by (cases "SaveIntent path i w")
  then show ?thesis
    using LoadIntent_SaveIntent [OF _ s] save_callback_disk [of path path i w]
    by (simp add: recorded_def save_callback_def)
qed

lemma do_calls_recorded:
  assumes "onChange s = Some (save_callback path)" and "recorded path (intent s) w"
  shows "recorded path (intent (fst (do_calls cs s w))) (snd (do_calls cs s w))"
  using do_calls_synced [of s "save_callback path" "recorded path" w cs] assms recorded_save by blast

text \<open>The disk never starts or stops to work through a call.\<close>

lemma do_call_disk:
  assumes "onChange s = Some (save_callback path)"
  shows "disk_ok path (snd (do_call c s w)) = disk_ok path w
       \<and> onChange (fst (do_call c s w)) = Some (save_callback path)"
  using assms notifying_op.keeps_callback [OF do_call_notifies, of c s w]
    notifying_op.notifies [OF do_call_notifies, of c s w]
  by (simp add: notifyChange_def notify_call_def notify_read_def)

lemma do_calls_disk:
  "onChange s = Some (save_callback path) \<Longrightarrow>
   disk_ok path (snd (do_calls cs s w)) = disk_ok path w"
proof (induction cs arbitrary: s w)
  case Nil
  then show ?case by simp
next
  case (Cons c cs)
  obtain s' w' where "do_call c s w = (s', w')" by (cases "do_call c s w")
  with Cons do_call_disk [of s path c w] show ?case by simp
qed

section \<open>Properties\<close>

text \<open>
  Saving the schedule intent and loading it again gives the intent that was saved, for both
  schedules, on a disk that works.
\<close>

theorem intent_roundtrip:
  assumes "disk_ok path w"
  shows "fst (SaveIntent path i w) = Inr () \<and> LoadIntent path (snd (SaveIntent path i w)) = i"
  using LoadIntent_SaveIntent [OF assms, of i] by (cases "SaveIntent path i w") simp

theorem intent_roundtrip_witness:
  "LoadIntent ''s'' (snd (SaveIntent ''s'' \<lparr>RestartScheduleEnabled = True, LockScheduleEnabled = False\<rparr> empty_disk))
     = \<lparr>RestartScheduleEnabled = True, LockScheduleEnabled = False\<rparr>"
  using intent_roundtrip [of "''s''" empty_disk] by simp

text \<open>
  C25: whatever sequence of setters and resets is called one after the other, the file holds the
  schedules that are on in memory at the end, so that the next start of the program resumes
  exactly those.
\<close>

theorem intent_survives_restart:
  assumes "onChange s = Some (save_callback path)" and "disk_ok path w"
    and "LoadIntent path w = intent s"
  shows "LoadIntent path (snd (do_calls cs s w)) = intent (fst (do_calls cs s w))"
  using do_calls_recorded [OF assms(1), of w cs] do_calls_disk [OF assms(1), of cs w] assms
  by (simp add: recorded_def)

theorem intent_survives_restart_witness:
  "LoadIntent ''s'' (snd (do_calls [CSetLockSchedule True (Some 5)]
     (SetOnChange (Some (save_callback ''s'')) (NewState False)) empty_disk))
     = \<lparr>RestartScheduleEnabled = False, LockScheduleEnabled = True\<rparr>"
proof -
  let ?s = "SetOnChange (Some (save_callback ''s'')) (NewState False)"
  have "onChange ?s = Some (save_callback ''s'')" by (simp add: SetOnChange_def)
  moreover have "LoadIntent ''s'' empty_disk = intent ?s"
    by (simp add: LoadIntent_def no_intent_def intent_def SetOnChange_def NewState_def)
  moreover have "intent (fst (do_calls [CSetLockSchedule True (Some 5)] ?s empty_disk))
      = \<lparr>RestartScheduleEnabled = False, LockScheduleEnabled = True\<rparr>"
    by (simp add: state_ops Let_def intent_def SetOnChange_def NewState_def case_prod_unfold)
  ultimately show ?thesis
    using intent_survives_restart [of ?s "''s''" empty_disk "[CSetLockSchedule True (Some 5)]"]
    by simp
qed

end
