(* ===== verification/Handlers.thy ===== *)
theory Handlers
  imports Auth Scheduler Updater Upgrade Persist "HOL-Library.Char_ord" "HOL-Library.List_Lexorder"
begin

text \<open>
  The files \<open>server/handlers.go\<close>, \<open>server/server.go\<close> and \<open>logging/logging.go\<close>: the state of the
  server, its fifteen handlers, the router and the composition with the middleware. A handler
  is a function from the request and the state to the response and the state; the methods of
  the scheduler that it calls are those of the theory \<open>Scheduler\<close>, so that the goroutines it
  starts run on after it.
\<close>

section \<open>Logging\<close>

datatype slog_level = SlogDebug | SlogInfo | SlogError

definition Setup :: "string \<Rightarrow> slog_level" where
  "Setup level =
     (if level = ''debug'' then SlogDebug
      else if level = ''info'' then SlogInfo
      else if level = ''error'' then SlogError
      else SlogInfo)"

section \<open>The server\<close>

text \<open>
  What the handlers work on: the part of the middleware, the scheduler with its goroutines (its
  world is the disk), the updater, the level of the logger, the flag \<open>upgradeInProgress\<close>, and
  the goroutines of an upgrade that have been started: those that have not finished
  \<open>applyUpgrade\<close>, each with the path of its download, and the number of timers that run after
  it. \<open>preparing\<close> counts the requests that have set the flag and have not been answered yet.
\<close>

record server = auth +
  sys_of :: "os sys"
  upd :: Updater
  version :: string
  logger :: slog_level
  upgradeInProgress :: bool
  preparing :: nat
  upgrading :: "string list"
  timers :: nat

text \<open>
  What the environment answers during a request: the network, the name of a temporary file, the
  service manager, how a time and an error of the updater are printed (\<open>None\<close> is a time that
  cannot be encoded), and the responses for all other paths (the embedded files, redirects).
\<close>

record platform =
  windows :: bool
  net :: network
  tempName :: "string option"
  machine :: machine
  showTime :: "instant \<Rightarrow> string option"
  errorText :: "update_error \<Rightarrow> string"
  static_files :: "request \<Rightarrow> response"

definition disk :: "server \<Rightarrow> os" where
  "disk s = world (sys_of s)"

definition set_disk :: "os \<Rightarrow> server \<Rightarrow> server" where
  "set_disk w s = s\<lparr>sys_of := (sys_of s)\<lparr>world := w\<rparr>\<rparr>"

definition on_sys :: "(os sys \<Rightarrow> os sys) \<Rightarrow> server \<Rightarrow> server" where
  "on_sys f s = s\<lparr>sys_of := f (sys_of s)\<rparr>"

section \<open>Responses\<close>

text \<open>
  \<open>encoding/json\<close> prints the keys of a map in the order of their bytes. Encoding fails where a
  time cannot be printed; then the body is a fixed text with status 500.
\<close>

definition json_map :: "(string \<times> json) list \<Rightarrow> json" where
  "json_map ms = JObj (sort_key fst ms)"

definition writeJSON :: "json option \<Rightarrow> response" where
  "writeJSON v =
     (case v of
        None \<Rightarrow> \<lparr>resp_status = 500, setCookies = [], wwwAuthenticate = False,
                 resp_body = Bytes ([CHR 0x7B, CHR 0x22] @ ''error'' @ [CHR 0x22, CHR 0x3A, CHR 0x22]
                   @ ''internal server error'' @ [CHR 0x22, CHR 0x7D])\<rparr>
      | Some j \<Rightarrow> \<lparr>resp_status = 200, setCookies = [], wwwAuthenticate = False, resp_body = Json j\<rparr>)"

text \<open>A map of strings with the status 200, and with a status that has been written before.\<close>

definition ok_map :: "(string \<times> string) list \<Rightarrow> response" where
  "ok_map ms = writeJSON (Some (json_map (map (\<lambda>(k, v). (k, JStr v)) ms)))"

definition fail_map :: "nat \<Rightarrow> (string \<times> string) list \<Rightarrow> response" where
  "fail_map code ms = (ok_map ms)\<lparr>resp_status := code\<rparr>"

definition methodNotAllowed :: response where
  "methodNotAllowed = http_error ''Method not allowed'' 405"

section \<open>Status\<close>

definition json_time :: "platform \<Rightarrow> instant option \<Rightarrow> json option" where
  "json_time pf t = (case t of None \<Rightarrow> Some JNull | Some x \<Rightarrow> map_option JStr (showTime pf x))"

definition status_members :: "platform \<Rightarrow> string \<Rightarrow> StatusDTO \<Rightarrow> UpdateInfo \<Rightarrow> (string \<times> json option) list" where
  "status_members pf v d u =
     [(''version'', Some (JStr v)),
      (''dry_run'', Some (JBool (DryRun d))),
      (''restart_schedule_active'', Some (JBool (RestartScheduleActive d))),
      (''restart_next_at'', json_time pf (RestartNextAt d)),
      (''restart_pending_once'', Some (JBool (RestartPendingOnce d))),
      (''restart_once_at'', json_time pf (RestartOnceAt d)),
      (''lock_schedule_active'', Some (JBool (LockScheduleActive d))),
      (''lock_next_at'', json_time pf (LockNextAt d)),
      (''lock_pending_once'', Some (JBool (LockPendingOnce d))),
      (''lock_once_at'', json_time pf (LockOnceAt d)),
      (''update_available'', Some (JBool (Available u))),
      (''update_version'', Some (JStr (Version u)))]"

text \<open>A map is encoded if all of its values are.\<close>

definition encode_members :: "(string \<times> json option) list \<Rightarrow> json option" where
  "encode_members ms =
     (if list_all (\<lambda>(k, v). v \<noteq> None) ms then Some (json_map (map (\<lambda>(k, v). (k, the v)) ms)) else None)"

definition status_handler :: "platform \<Rightarrow> request \<Rightarrow> server \<Rightarrow> response \<times> server" where
  "status_handler pf r s =
     (if req_method r \<noteq> ''GET'' then (methodNotAllowed, s)
      else
        (writeJSON (encode_members
           (status_members pf (version s) (Status (st (sys_of s))) (Cached (upd s)))), s))"

section \<open>The handlers of the scheduler\<close>

definition restartOnce :: "request \<Rightarrow> server \<Rightarrow> response \<times> server" where
  "restartOnce r s =
     (if req_method r \<noteq> ''POST'' then (methodNotAllowed, s)
      else (ok_map [(''status'', ''restart scheduled in 60s'')], on_sys RestartOnce s))"

definition restartSchedule :: "request \<Rightarrow> server \<Rightarrow> response \<times> server" where
  "restartSchedule r s =
     (if req_method r = ''POST'' then
        (ok_map [(''status'', ''restart schedule enabled'')], on_sys StartRestartSchedule s)
      else if req_method r = ''DELETE'' then
        (ok_map [(''status'', ''restart schedule disabled'')], on_sys StopRestartSchedule s)
      else (methodNotAllowed, s))"

definition lockOnce :: "request \<Rightarrow> server \<Rightarrow> response \<times> server" where
  "lockOnce r s =
     (if req_method r \<noteq> ''POST'' then (methodNotAllowed, s)
      else (ok_map [(''status'', ''lock scheduled in 60s'')], on_sys LockOnce s))"

definition lockSchedule :: "request \<Rightarrow> server \<Rightarrow> response \<times> server" where
  "lockSchedule r s =
     (if req_method r = ''POST'' then
        (ok_map [(''status'', ''lock schedule enabled'')], on_sys StartLockSchedule s)
      else if req_method r = ''DELETE'' then
        (ok_map [(''status'', ''lock schedule disabled'')], on_sys StopLockSchedule s)
      else (methodNotAllowed, s))"

definition reset_handler :: "request \<Rightarrow> server \<Rightarrow> response \<times> server" where
  "reset_handler r s =
     (if req_method r \<noteq> ''POST'' then (methodNotAllowed, s)
      else (ok_map [(''status'', ''all settings reset'')], on_sys ResetAll s))"

definition cancel_fields :: "string list" where
  "cancel_fields = [''restart_once'', ''restart_schedule'', ''lock_once'', ''lock_schedule'']"

definition set_cancel_field :: "string \<Rightarrow> json \<Rightarrow> CancelRequest \<Rightarrow> CancelRequest \<times> bool" where
  "set_cancel_field n v q =
     (if n = ''restart_once'' then set_bool v (\<lambda>b. q\<lparr>reqRestartOnce := b\<rparr>) q
      else if n = ''restart_schedule'' then set_bool v (\<lambda>b. q\<lparr>reqRestartSchedule := b\<rparr>) q
      else if n = ''lock_once'' then set_bool v (\<lambda>b. q\<lparr>reqLockOnce := b\<rparr>) q
      else set_bool v (\<lambda>b. q\<lparr>reqLockSchedule := b\<rparr>) q)"

definition no_cancel :: CancelRequest where
  "no_cancel =
     \<lparr>reqRestartOnce = False, reqRestartSchedule = False, reqLockOnce = False, reqLockSchedule = False\<rparr>"

definition cancel_handler :: "request \<Rightarrow> server \<Rightarrow> response \<times> server" where
  "cancel_handler r s =
     (if req_method r \<noteq> ''POST'' then (methodNotAllowed, s)
      else
        (case unmarshal cancel_fields set_cancel_field no_cancel (json_decode (req_body r)) of
           None \<Rightarrow> (fail_map 400 [(''error'', ''invalid JSON'')], s)
         | Some q \<Rightarrow>
             if \<not> reqRestartOnce q \<and> \<not> reqRestartSchedule q \<and> \<not> reqLockOnce q \<and> \<not> reqLockSchedule q
             then (ok_map [(''status'', ''nothing to cancel'')], s)
             else (ok_map [(''status'', ''cancelled'')], on_sys (Cancel q) s)))"

section \<open>Logging out\<close>

definition logged_out_cookie :: cookie where
  "logged_out_cookie =
     \<lparr>c_name = loggedOutCookieName, c_value = ''1'', c_maxAge = 10, c_httpOnly = True,
      c_sameSiteStrict = False\<rparr>"

definition logout :: "request \<Rightarrow> server \<Rightarrow> response \<times> server" where
  "logout r s =
     (if req_method r \<noteq> ''POST'' then (methodNotAllowed, s)
      else
        (let s1 = (case find_cookie sessionCookieName r of
                     None \<Rightarrow> s
                   | Some v \<Rightarrow> s\<lparr>store := remove_session v (store s)\<rparr>)
         in (with_cookies [clear_cookie sessionCookieName, logged_out_cookie]
               (ok_map [(''status'', ''logged out'')]), s1)))"

section \<open>The configuration\<close>

definition configGet :: "request \<Rightarrow> server \<Rightarrow> response \<times> server" where
  "configGet r s =
     (if req_method r \<noteq> ''GET'' then (methodNotAllowed, s)
      else
        (let cfg = get_config (holder s)
         in (writeJSON (Some (json_map
               [(''port'', JNum (itoa (Port cfg))),
                (''username'', JStr (Username cfg)),
                (''session_timeout_minutes'', JNum (itoa (SessionTimeoutMinutes cfg))),
                (''restart_min_minutes'', JNum (itoa (RestartMinMinutes cfg))),
                (''restart_max_minutes'', JNum (itoa (RestartMaxMinutes cfg))),
                (''lock_min_minutes'', JNum (itoa (LockMinMinutes cfg))),
                (''lock_max_minutes'', JNum (itoa (LockMaxMinutes cfg))),
                (''update_check_minutes'', JNum (itoa (UpdateCheckMinutes cfg))),
                (''log_level'', JStr (LogLevel cfg))])), s)))"

text \<open>The anonymous struct of an update request.\<close>

record settings =
  setSessionTimeout :: int
  setRestartMin :: int
  setRestartMax :: int
  setLockMin :: int
  setLockMax :: int
  setUpdateCheck :: int
  setLevel :: string

definition no_settings :: settings where
  "no_settings =
     \<lparr>setSessionTimeout = 0, setRestartMin = 0, setRestartMax = 0, setLockMin = 0, setLockMax = 0,
      setUpdateCheck = 0, setLevel = []\<rparr>"

definition settings_fields :: "string list" where
  "settings_fields =
     [''session_timeout_minutes'', ''restart_min_minutes'', ''restart_max_minutes'',
      ''lock_min_minutes'', ''lock_max_minutes'', ''update_check_minutes'', ''log_level'']"

definition set_settings_field :: "string \<Rightarrow> json \<Rightarrow> settings \<Rightarrow> settings \<times> bool" where
  "set_settings_field n v q =
     (if n = ''session_timeout_minutes'' then set_int v (\<lambda>i. q\<lparr>setSessionTimeout := i\<rparr>) q
      else if n = ''restart_min_minutes'' then set_int v (\<lambda>i. q\<lparr>setRestartMin := i\<rparr>) q
      else if n = ''restart_max_minutes'' then set_int v (\<lambda>i. q\<lparr>setRestartMax := i\<rparr>) q
      else if n = ''lock_min_minutes'' then set_int v (\<lambda>i. q\<lparr>setLockMin := i\<rparr>) q
      else if n = ''lock_max_minutes'' then set_int v (\<lambda>i. q\<lparr>setLockMax := i\<rparr>) q
      else if n = ''update_check_minutes'' then set_int v (\<lambda>i. q\<lparr>setUpdateCheck := i\<rparr>) q
      else set_string v (\<lambda>x. q\<lparr>setLevel := x\<rparr>) q)"

definition settings_errors :: "settings \<Rightarrow> string list" where
  "settings_errors q =
     (if setSessionTimeout q < 1 then [''session timeout must be at least 1 minute''] else [])
     @ (if setRestartMin q < 1 \<or> setRestartMin q > 1440 then [''restart min must be 1-1440 minutes''] else [])
     @ (if setRestartMax q < setRestartMin q \<or> setRestartMax q > 1440
        then [''restart max must be >= min and <= 1440''] else [])
     @ (if setLockMin q < 1 \<or> setLockMin q > 1440 then [''lock min must be 1-1440 minutes''] else [])
     @ (if setLockMax q < setLockMin q \<or> setLockMax q > 1440
        then [''lock max must be >= min and <= 1440''] else [])
     @ (if setUpdateCheck q < 1 then [''update check must be at least 1 minute''] else [])
     @ (if known_level (setLevel q) then [] else [''log level must be debug, info, or error''])"

definition apply_settings :: "settings \<Rightarrow> Config \<Rightarrow> Config" where
  "apply_settings q c =
     c\<lparr>SessionTimeoutMinutes := setSessionTimeout q,
       RestartMinMinutes := setRestartMin q, RestartMaxMinutes := setRestartMax q,
       LockMinMinutes := setLockMin q, LockMaxMinutes := setLockMax q,
       UpdateCheckMinutes := setUpdateCheck q, LogLevel := setLevel q\<rparr>"

text \<open>What a reloaded configuration is handed to: the scheduler, the sessions and the logger.\<close>

definition restart_range :: "Config \<Rightarrow> IntervalRange" where
  "restart_range c = \<lparr>MinMinutes = RestartMinMinutes c, MaxMinutes = RestartMaxMinutes c\<rparr>"

definition lock_range :: "Config \<Rightarrow> IntervalRange" where
  "lock_range c = \<lparr>MinMinutes = LockMinMinutes c, MaxMinutes = LockMaxMinutes c\<rparr>"

definition install_config :: "Config \<Rightarrow> server \<Rightarrow> server" where
  "install_config c s =
     (on_sys (UpdateIntervals (restart_range c) (lock_range c)) s)
       \<lparr>store := updateTimeout (SessionTimeoutMinutes c) (store s), logger := Setup (LogLevel c)\<rparr>"

definition configUpdate :: "request \<Rightarrow> server \<Rightarrow> response \<times> server" where
  "configUpdate r s =
     (if req_method r \<noteq> ''POST'' then (methodNotAllowed, s)
      else
        (case unmarshal settings_fields set_settings_field no_settings (json_decode (req_body r)) of
           None \<Rightarrow> (fail_map 400 [(''error'', ''invalid JSON'')], s)
         | Some q \<Rightarrow>
             let errors = settings_errors q
             in if errors \<noteq> [] then
                  ((writeJSON (Some (json_map
                      [(''error'', JStr ''validation failed''), (''details'', JArr (map JStr errors))])))
                     \<lparr>resp_status := 400\<rparr>, s)
                else
                  (let ch = (holder s)\<lparr>ch_cfg := apply_settings q (ch_cfg (holder s))\<rparr>;
                       (saved, w) = Save (ch_cfg ch) (ch_path ch) (disk s);
                       s1 = set_disk w (s\<lparr>holder := ch\<rparr>)
                   in if \<not> saved then (fail_map 500 [(''error'', ''failed to save config'')], s1)
                      else
                        (case reload (holder s1) (disk s1) of
                           (Inl e, ch', w') \<Rightarrow>
                             (fail_map 500 [(''error'', ''saved but reload failed'')],
                              set_disk w' (s1\<lparr>holder := ch'\<rparr>))
                         | (Inr cfg, ch', w') \<Rightarrow>
                             (ok_map [(''status'', ''configuration saved'')],
                              install_config cfg (set_disk w' (s1\<lparr>holder := ch'\<rparr>)))))))"

definition configReload :: "request \<Rightarrow> server \<Rightarrow> response \<times> server" where
  "configReload r s =
     (if req_method r \<noteq> ''POST'' then (methodNotAllowed, s)
      else
        (case reload (holder s) (disk s) of
           (Inl e, ch', w') \<Rightarrow>
             (http_error ''config reload failed'' 500, set_disk w' (s\<lparr>holder := ch'\<rparr>))
         | (Inr cfg, ch', w') \<Rightarrow>
             (ok_map [(''status'', ''configuration reloaded'')],
              install_config cfg (set_disk w' (s\<lparr>holder := ch'\<rparr>)))))"

definition configSetLogLevel :: "request \<Rightarrow> server \<Rightarrow> response \<times> server" where
  "configSetLogLevel r s =
     (if req_method r \<noteq> ''POST'' then (methodNotAllowed, s)
      else if \<not> known_level (query_level r) then
        (fail_map 400 [(''error'', ''invalid level: must be debug, info, or error'')], s)
      else
        (let (ok, ch, w) = setLogLevel (query_level r) (holder s) (disk s);
             s1 = set_disk w (s\<lparr>holder := ch\<rparr>)
         in if \<not> ok then (fail_map 500 [(''error'', ''failed to save config'')], s1)
            else (ok_map [(''status'', ''log level set to '' @ query_level r)],
                  s1\<lparr>logger := Setup (query_level r)\<rparr>)))"

section \<open>Updates\<close>

text \<open>The encoding of \<open>UpdateInfo\<close>: every field but the first is left out where it is empty.\<close>

definition omit_str :: "string \<Rightarrow> string \<Rightarrow> (string \<times> json) list" where
  "omit_str k v = (if v = [] then [] else [(k, JStr v)])"

definition info_to_json :: "UpdateInfo \<Rightarrow> json" where
  "info_to_json i =
     JObj ([(''available'', JBool (Available i))]
       @ omit_str ''version'' (Version i) @ omit_str ''release_name'' (ReleaseName i)
       @ omit_str ''body'' (Body i) @ omit_str ''download_url'' (DownloadURL i)
       @ (if Size i = 0 then [] else [(''size'', JNum (itoa (Size i)))])
       @ omit_str ''sha256'' (SHA256 i))"

definition updateStatus :: "request \<Rightarrow> server \<Rightarrow> response \<times> server" where
  "updateStatus r s =
     (if req_method r \<noteq> ''GET'' then (methodNotAllowed, s)
      else (writeJSON (Some (info_to_json (Cached (upd s)))), s))"

definition updateCheck :: "platform \<Rightarrow> request \<Rightarrow> server \<Rightarrow> response \<times> server" where
  "updateCheck pf r s =
     (if req_method r \<noteq> ''POST'' then (methodNotAllowed, s)
      else
        (case Check (net pf) (upd s) of
           (Inl e, u) \<Rightarrow>
             (fail_map 500 [(''error'', ''update check failed: '' @ errorText pf e)], s\<lparr>upd := u\<rparr>)
         | (Inr info, u) \<Rightarrow> (writeJSON (Some (info_to_json info)), s\<lparr>upd := u\<rparr>)))"

text \<open>
  \<open>updateApply\<close> in two parts, between which other requests run: setting the flag with
  \<open>CompareAndSwap\<close>, and the rest, which prepares and starts the upgrade or resets the flag.
\<close>

definition claim_upgrade :: "server \<Rightarrow> bool \<times> server" where
  "claim_upgrade s =
     (if upgradeInProgress s then (False, s)
      else (True, s\<lparr>upgradeInProgress := True, preparing := Suc (preparing s)\<rparr>))"

definition preflight :: "platform \<Rightarrow> os \<Rightarrow> string" where
  "preflight pf w =
     (if windows pf then preflightUpgradeCheck (machine pf) w else preflightUpgradeCheck_other)"

definition prepare_upgrade :: "platform \<Rightarrow> server \<Rightarrow> response \<times> server" where
  "prepare_upgrade pf s0 =
     (let s = s0\<lparr>preparing := preparing s0 - 1\<rparr>;
          errMsg = preflight pf (disk s)
      in if errMsg \<noteq> [] then
           (fail_map 500 [(''error'', errMsg)], s\<lparr>upgradeInProgress := False\<rparr>)
         else
           (let info = Cached (upd s)
            in if \<not> Available info then
                 (fail_map 409 [(''status'', ''no update available'')], s\<lparr>upgradeInProgress := False\<rparr>)
               else
                 (case Download (net pf) (tempName pf) info (disk s) of
                    (Inl e, w) \<Rightarrow>
                      (fail_map 500 [(''error'', ''download failed: '' @ errorText pf e)],
                       set_disk w (s\<lparr>upgradeInProgress := False\<rparr>))
                  | (Inr tmpPath, w) \<Rightarrow>
                      (ok_map [(''status'', ''upgrading''), (''version'', Version info),
                               (''message'', ''Service will restart in approximately 5 seconds'')],
                       set_disk w (s\<lparr>upgrading := upgrading s @ [tmpPath]\<rparr>)))))"

definition updateApply :: "platform \<Rightarrow> request \<Rightarrow> server \<Rightarrow> response \<times> server" where
  "updateApply pf r s =
     (if req_method r \<noteq> ''POST'' then (methodNotAllowed, s)
      else
        (let (claimed, s1) = claim_upgrade s
         in if \<not> claimed then (fail_map 409 [(''error'', ''upgrade already in progress'')], s1)
            else prepare_upgrade pf s1))"

section \<open>The router\<close>

text \<open>
  The patterns that \<open>server.New\<close> registers with the multiplexer. None of them ends in a slash, so
  each matches exactly its path; every other path is the file server's, or a redirect.
\<close>

definition mux :: "platform \<Rightarrow> (string \<times> (request \<Rightarrow> server \<Rightarrow> response \<times> server)) list" where
  "mux pf =
     [(''/api/status'', status_handler pf),
      (''/api/restart/once'', restartOnce),
      (''/api/restart/schedule'', restartSchedule),
      (''/api/lock/once'', lockOnce),
      (''/api/lock/schedule'', lockSchedule),
      (''/api/reset'', reset_handler),
      (''/api/cancel'', cancel_handler),
      (''/api/logout'', logout),
      (''/api/config'', configGet),
      (''/api/config/update'', configUpdate),
      (''/api/config/reload'', configReload),
      (''/api/config/loglevel'', configSetLogLevel),
      (''/api/update/status'', updateStatus),
      (''/api/update/check'', updateCheck pf),
      (''/api/update/apply'', updateApply pf)]"

definition route :: "platform \<Rightarrow> server handler" where
  "route pf e r s =
     (case map_of (mux pf) (req_path r) of
        Some h \<Rightarrow> h r s
      | None \<Rightarrow> (static_files pf r, s))"

text \<open>The handler of the server: every request passes the middleware.\<close>

definition handle :: "platform \<Rightarrow> server handler" where
  "handle pf = basicAuth (route pf)"

text \<open>\<open>server.New\<close>, as far as it makes the state; the address is the port on all interfaces.\<close>

definition New_server :: "Config \<Rightarrow> string \<Rightarrow> os sys \<Rightarrow> Updater \<Rightarrow> string \<Rightarrow> slog_level \<Rightarrow> server" where
  "New_server cfg configPath sys u ver lvl =
     \<lparr>holder = newConfigHolder cfg configPath,
      store = newSessionStore (SessionTimeoutMinutes cfg),
      tracker = newLoginTracker,
      sys_of = sys, upd = u, version = ver, logger = lvl,
      upgradeInProgress = False, preparing = 0, upgrading = [], timers = 0\<rparr>"

definition server_addr :: "Config \<Rightarrow> string" where
  "server_addr cfg = '':'' @ itoa (Port cfg)"

end
