(* ===== verification/Access.thy ===== *)
theory Access
  imports Auth
begin

text \<open>
  What the access control of \<open>server/auth.go\<close> guarantees. The tracker of failed logins
  implements a history of failures, and the table of sessions, with its lazy sweeps, implements
  a table of expiry times. The contract of a lockout table is a locale, with the model of the
  tracker as its interpretation.
\<close>

section \<open>The contract of a lockout table\<close>

text \<open>
  What the middleware relies on: a host is locked until a fixed time, asking does not change
  a lock that holds, and the failures and successes of other hosts do not either.
\<close>

locale lockout_table =
  fixes host :: "string \<Rightarrow> string"
    and locked :: "string \<Rightarrow> instant \<Rightarrow> 't \<Rightarrow> bool \<times> 't"
    and failure :: "string \<Rightarrow> instant \<Rightarrow> 't \<Rightarrow> 't"
    and success :: "string \<Rightarrow> 't \<Rightarrow> 't"
    and until :: "'t \<Rightarrow> string \<Rightarrow> instant option"
  assumes locked_iff: "fst (locked a t s) \<longleftrightarrow> (\<exists>u. until s (host a) = Some u \<and> t \<le> u)"
    and locked_keeps: "fst (locked a t s) \<Longrightarrow> snd (locked a t s) = s"
    and locked_other: "h \<noteq> host a \<Longrightarrow> until (snd (locked a t s)) h = until s h"
    and failure_other: "h \<noteq> host a \<Longrightarrow> until (failure a t s) h = until s h"
    and success_other: "h \<noteq> host a \<Longrightarrow> until (success a s) h = until s h"
begin

text \<open>A request is refused where its host is locked; else it passes, fails or succeeds.\<close>

definition attempt :: "string \<Rightarrow> instant \<Rightarrow> bool option \<Rightarrow> 't \<Rightarrow> 't" where
  "attempt a t outcome s =
     (let (l, s1) = locked a t s
      in if l then s1
         else case outcome of None \<Rightarrow> s1 | Some True \<Rightarrow> success a s1 | Some False \<Rightarrow> failure a t s1)"

lemma attempt_locked: "until s h = Some u \<Longrightarrow> t \<le> u \<Longrightarrow> until (attempt a t outcome s) h = Some u"
proof (cases "h = host a")
  case True
  moreover assume "until s h = Some u" and "t \<le> u"
  ultimately have "fst (locked a t s)" by (simp add: locked_iff)
  with \<open>until s h = Some u\<close> locked_keeps [of a t s] show ?thesis
    by (simp add: attempt_def case_prod_unfold)
next
  case False
  moreover assume "until s h = Some u"
  ultimately show ?thesis
    by (simp add: attempt_def case_prod_unfold Let_def locked_other failure_other success_other
      split: option.split bool.split)
qed

end

definition locked_until :: "loginTracker \<Rightarrow> string \<Rightarrow> instant option" where
  "locked_until lt h =
     (case ips lt h of
        None \<Rightarrow> None
      | Some r \<Rightarrow>
          if length (attempts r) < maxFailedAttempts then None else Some (lockedAt r + lockoutDuration))"

lemmas tracker_ops = isLocked_def recordFailure_def recordSuccess_def

interpretation lockout: lockout_table stripPort isLocked recordFailure recordSuccess locked_until
  by unfold_locales
    (auto simp: locked_until_def tracker_ops Let_def split: option.splits if_splits)

section \<open>The tracker implements a history of failures\<close>

datatype login_event = Failure string instant | Success string | Query string instant

fun event_time :: "login_event \<Rightarrow> instant option" where
  "event_time (Failure a t) = Some t"
| "event_time (Success a) = None"
| "event_time (Query a t) = Some t"

fun track :: "login_event \<Rightarrow> loginTracker \<Rightarrow> loginTracker" where
  "track (Failure a t) lt = recordFailure a t lt"
| "track (Success a) lt = recordSuccess a lt"
| "track (Query a t) lt = snd (isLocked a t lt)"

text \<open>
  The specification: the times of the failures of a host since its last success or since its
  lock expired. It is locked where the five minutes before the last failure hold three.
\<close>

type_synonym history = "string \<Rightarrow> instant list"

definition hot :: "instant list \<Rightarrow> bool" where
  "hot fs \<longleftrightarrow> 3 \<le> length (filter (\<lambda>x. last fs - 5 * minute < x) fs)"

definition spec_locked :: "string \<Rightarrow> instant \<Rightarrow> history \<Rightarrow> bool" where
  "spec_locked h t hist \<longleftrightarrow> hot (hist h) \<and> t \<le> last (hist h) + 15 * minute"

fun spec_track :: "login_event \<Rightarrow> history \<Rightarrow> history" where
  "spec_track (Failure a t) hist = hist(stripPort a := hist (stripPort a) @ [t])"
| "spec_track (Success a) hist = hist(stripPort a := [])"
| "spec_track (Query a t) hist =
     (let h = stripPort a
      in if hot (hist h) \<and> \<not> spec_locked h t hist then hist(h := []) else hist)"

definition implements :: "instant \<Rightarrow> ipRecord option \<Rightarrow> instant list \<Rightarrow> bool" where
  "implements t r fs \<longleftrightarrow>
     (case r of
        None \<Rightarrow> fs = []
      | Some r \<Rightarrow>
          fs \<noteq> [] \<and> last fs \<le> t
          \<and> attempts r = filter (\<lambda>x. last fs - failureWindow < x) fs
          \<and> (maxFailedAttempts \<le> length (attempts r) \<longrightarrow> lockedAt r = last fs))"

lemma implements_later: "implements t r fs \<Longrightarrow> t \<le> t' \<Longrightarrow> implements t' r fs"
  by (auto simp: implements_def split: option.splits)

lemma implements_hot:
  "implements t (Some r) fs \<Longrightarrow> hot fs \<longleftrightarrow> \<not> length (attempts r) < maxFailedAttempts"
  by (auto simp: implements_def hot_def maxFailedAttempts_def failureWindow_def)

lemma hot_Nil [simp]: "\<not> hot []"
  by (simp add: hot_def)

text \<open>Attempts outside the window of an earlier failure are outside every later one.\<close>

lemma filter_window:
  "a \<le> b \<Longrightarrow> filter (\<lambda>x. b < x) (filter (\<lambda>x. a < x) xs) = filter (\<lambda>x. b < (x :: int)) xs"
  by (induction xs) auto

lemma implements_failure:
  assumes "implements t0 (ips lt (stripPort a)) fs" and "t0 \<le> t"
  shows "implements t (ips (recordFailure a t lt) (stripPort a)) (fs @ [t])"
proof (cases "ips lt (stripPort a)")
  case None
  with assms show ?thesis
    by (simp add: implements_def recordFailure_def Let_def failureWindow_def maxFailedAttempts_def
      minute_def second_def)
next
  case (Some r)
  with assms have "last fs \<le> t" and att: "attempts r = filter (\<lambda>x. last fs - failureWindow < x) fs"
    by (auto simp: implements_def)
  then have "filter (\<lambda>x. t - failureWindow < x) (attempts r) = filter (\<lambda>x. t - failureWindow < x) fs"
    unfolding att by (intro filter_window) simp
  with Some show ?thesis
    by (simp add: implements_def recordFailure_def Let_def failureWindow_def maxFailedAttempts_def
      minute_def second_def del: filter_filter)
qed

lemma isLocked_spec:
  assumes "implements t0 (ips lt (stripPort a)) (hist (stripPort a))"
  shows "fst (isLocked a t lt) = spec_locked (stripPort a) t hist"
proof (cases "ips lt (stripPort a)")
  case None
  with assms show ?thesis by (simp add: implements_def isLocked_def spec_locked_def)
next
  case (Some r)
  with assms have r: "implements t0 (Some r) (hist (stripPort a))" by simp
  show ?thesis
    using Some r implements_hot [OF r]
    by (auto simp: isLocked_def Let_def spec_locked_def implements_def lockoutDuration_def)
qed

definition tracks :: "instant \<Rightarrow> loginTracker \<Rightarrow> history \<Rightarrow> bool" where
  "tracks t lt hist \<longleftrightarrow> (\<forall>h. implements t (ips lt h) (hist h))"

lemma tracks_step:
  assumes R: "tracks t0 lt hist" and t: "\<And>t'. event_time ev = Some t' \<Longrightarrow> t0 \<le> t' \<and> t' \<le> t" and "t0 \<le> t"
  shows "tracks t (track ev lt) (spec_track ev hist)"
proof -
  have old: "implements t (ips lt h) (hist h)" for h
    using R assms(3) implements_later unfolding tracks_def by blast
  show ?thesis
  proof (cases ev)
    case (Failure a t')
    then have "t0 \<le> t'" "t' \<le> t" using t by auto
    then have "implements t (ips (recordFailure a t' lt) (stripPort a)) (hist (stripPort a) @ [t'])"
      using implements_failure R implements_later by (metis tracks_def)
    moreover have "h \<noteq> stripPort a \<Longrightarrow> ips (recordFailure a t' lt) h = ips lt h" for h
      by (simp add: recordFailure_def Let_def)
    ultimately show ?thesis using old Failure by (simp add: tracks_def)
  next
    case (Success a)
    with old show ?thesis by (simp add: tracks_def recordSuccess_def implements_def)
  next
    case (Query a t')
    let ?h = "stripPort a"
    have locked: "fst (isLocked a t' lt) = spec_locked ?h t' hist"
      using isLocked_spec R by (metis tracks_def)
    have hot: "hot (hist ?h) \<longleftrightarrow>
        (\<exists>r. ips lt ?h = Some r \<and> \<not> length (attempts r) < maxFailedAttempts)"
      using old [of ?h] implements_hot by (cases "ips lt ?h") (auto simp: implements_def)
    have "ips (snd (isLocked a t' lt)) =
        (if hot (hist ?h) \<and> \<not> spec_locked ?h t' hist then (ips lt)(?h := None) else ips lt)"
      unfolding hot locked [symmetric] by (auto simp: isLocked_def Let_def split: option.split)
    moreover have "implements t None []" by (simp add: implements_def)
    ultimately show ?thesis using old Query by (simp add: tracks_def Let_def)
  qed
qed

fun sorted_events :: "instant \<Rightarrow> login_event list \<Rightarrow> bool" where
  "sorted_events t [] = True"
| "sorted_events t (ev # evs) =
     (case event_time ev of
        None \<Rightarrow> sorted_events t evs
      | Some t' \<Rightarrow> t \<le> t' \<and> sorted_events t' evs)"

lemma tracks_run:
  "tracks t lt hist \<Longrightarrow> sorted_events t evs \<Longrightarrow>
     \<exists>t'. tracks t' (fold track evs lt) (fold spec_track evs hist)"
proof (induction evs arbitrary: t lt hist)
  case Nil
  then show ?case by auto
next
  case (Cons ev evs)
  define t1 where "t1 = (case event_time ev of None \<Rightarrow> t | Some t' \<Rightarrow> t')"
  have "sorted_events t1 evs" and "t \<le> t1"
    using Cons.prems(2) by (auto simp: t1_def split: option.splits)
  moreover have "tracks t1 (track ev lt) (spec_track ev hist)"
    using Cons.prems by (intro tracks_step [OF Cons.prems(1)]) (auto simp: t1_def split: option.splits)
  ultimately show ?case using Cons.IH by simp
qed

section \<open>The table of sessions implements a table of expiry times\<close>

datatype session_op = Create string instant | Check string instant | Remove string | Timeout int

fun op_time :: "session_op \<Rightarrow> instant option" where
  "op_time (Create b t) = Some t"
| "op_time (Check k t) = Some t"
| "op_time _ = None"

fun do_session :: "session_op \<Rightarrow> sessionStore \<Rightarrow> sessionStore" where
  "do_session (Create b t) s = snd (create (Some b) t s)"
| "do_session (Check k t) s = snd (valid_session k t s)"
| "do_session (Remove k) s = remove_session k s"
| "do_session (Timeout m) s = updateTimeout m s"

text \<open>The specification forgets nothing: a token expires when its timeout has passed.\<close>

record expiry_table =
  expires :: "string \<Rightarrow> instant option"
  lifetime :: duration

fun spec_session :: "session_op \<Rightarrow> expiry_table \<Rightarrow> expiry_table" where
  "spec_session (Create b t) x = x\<lparr>expires := (expires x)(hex_encode b \<mapsto> t + lifetime x)\<rparr>"
| "spec_session (Check k t) x = x"
| "spec_session (Remove k) x = x\<lparr>expires := (expires x)(k := None)\<rparr>"
| "spec_session (Timeout m) x = x\<lparr>lifetime := minutes m\<rparr>"

definition new_table :: "int \<Rightarrow> expiry_table" where
  "new_table m = \<lparr>expires = (\<lambda>_. None), lifetime = minutes m\<rparr>"

text \<open>Only entries that have expired by now may be missing from the table.\<close>

definition same_live :: "instant \<Rightarrow> sessionStore \<Rightarrow> expiry_table \<Rightarrow> bool" where
  "same_live t s x \<longleftrightarrow> timeout s = lifetime x
     \<and> (\<forall>k. case sessions s k of
          Some v \<Rightarrow> expires x k = Some (expiresAt v)
        | None \<Rightarrow> (case expires x k of None \<Rightarrow> True | Some u \<Rightarrow> u < t))"

lemma same_liveD:
  assumes "same_live t s x"
  shows same_live_timeout: "timeout s = lifetime x"
    and same_live_Some: "sessions s k = Some v \<Longrightarrow> expires x k = Some (expiresAt v)"
    and same_live_None: "sessions s k = None \<Longrightarrow> expires x k = Some u \<Longrightarrow> u < t"
proof -
  have "case sessions s k of
          Some v \<Rightarrow> expires x k = Some (expiresAt v)
        | None \<Rightarrow> (case expires x k of None \<Rightarrow> True | Some u \<Rightarrow> u < t)"
    using assms unfolding same_live_def by blast
  then show "sessions s k = Some v \<Longrightarrow> expires x k = Some (expiresAt v)"
    and "sessions s k = None \<Longrightarrow> expires x k = Some u \<Longrightarrow> u < t" by simp_all
qed (use assms in \<open>simp add: same_live_def\<close>)

lemma same_liveI:
  assumes "timeout s = lifetime x"
    and "\<And>k v. sessions s k = Some v \<Longrightarrow> expires x k = Some (expiresAt v)"
    and "\<And>k u. sessions s k = None \<Longrightarrow> expires x k = Some u \<Longrightarrow> u < t"
  shows "same_live t s x"
  using assms by (auto simp: same_live_def split: option.split)

lemma same_live_create:
  assumes R: "same_live t0 s x" and "t0 \<le> t"
  shows "same_live t (snd (create (Some b) t s)) (spec_session (Create b t) x)"
proof (rule same_liveI)
  show "timeout (snd (create (Some b) t s)) = lifetime (spec_session (Create b t) x)"
    using same_live_timeout [OF R] by (simp add: create_def Let_def)
next
  fix k v assume "sessions (snd (create (Some b) t s)) k = Some v"
  then show "expires (spec_session (Create b t) x) k = Some (expiresAt v)"
    using same_live_timeout [OF R] same_live_Some [OF R, of k]
    by (auto simp: create_def Let_def split: if_splits option.splits)
next
  fix k u assume "sessions (snd (create (Some b) t s)) k = None"
    and "expires (spec_session (Create b t) x) k = Some u"
  then have k: "expires x k = Some u"
    and gone: "case sessions s k of None \<Rightarrow> True | Some v \<Rightarrow> expiresAt v < t"
    by (auto simp: create_def Let_def split: if_splits option.splits)
  show "u < t"
  proof (cases "sessions s k")
    case None
    with same_live_None [OF R None k] assms(2) show ?thesis by simp
  next
    case (Some v)
    with same_live_Some [OF R Some] k gone show ?thesis by simp
  qed
qed

lemma same_live_check:
  assumes R: "same_live t0 s x" and "t0 \<le> t"
  shows "same_live t (snd (valid_session k0 t s)) x"
proof (rule same_liveI)
  show "timeout (snd (valid_session k0 t s)) = lifetime x"
    using same_live_timeout [OF R] by (simp add: valid_session_def split: option.split)
next
  fix k v assume "sessions (snd (valid_session k0 t s)) k = Some v"
  then have "sessions s k = Some v" by (auto simp: valid_session_def split: if_splits option.splits)
  then show "expires x k = Some (expiresAt v)" by (rule same_live_Some [OF R])
next
  fix k u assume none: "sessions (snd (valid_session k0 t s)) k = None" and k: "expires x k = Some u"
  show "u < t"
  proof (cases "sessions s k")
    case None
    with same_live_None [OF R None k] assms(2) show ?thesis by simp
  next
    case (Some v)
    with none have "expiresAt v < t"
      by (auto simp: valid_session_def split: if_splits option.splits)
    with same_live_Some [OF R Some] k show ?thesis by simp
  qed
qed

lemma same_live_step:
  assumes R: "same_live t0 s x" and t: "t = (case op_time c of None \<Rightarrow> t0 | Some t' \<Rightarrow> t')" "t0 \<le> t"
  shows "same_live t (do_session c s) (spec_session c x)"
proof (cases c)
  case (Create b t')
  with t same_live_create [OF R] show ?thesis by (simp del: spec_session.simps)
next
  case (Check k t')
  with t same_live_check [OF R] show ?thesis by simp
next
  case (Remove k)
  with t same_liveD [OF R] show ?thesis
    by (intro same_liveI) (auto simp: remove_session_def split: if_splits)
next
  case (Timeout m)
  with t same_liveD [OF R] show ?thesis
    by (intro same_liveI) (auto simp: updateTimeout_def)
qed

fun sorted_ops :: "instant \<Rightarrow> session_op list \<Rightarrow> instant option" where
  "sorted_ops t [] = Some t"
| "sorted_ops t (c # cs) =
     (case op_time c of
        None \<Rightarrow> sorted_ops t cs
      | Some t' \<Rightarrow> if t \<le> t' then sorted_ops t' cs else None)"

lemma same_live_run:
  "same_live t s x \<Longrightarrow> sorted_ops t cs = Some t' \<Longrightarrow>
     same_live t' (fold do_session cs s) (fold spec_session cs x)"
proof (induction cs arbitrary: t s x)
  case Nil
  then show ?case by simp
next
  case (Cons c cs)
  define t1 where "t1 = (case op_time c of None \<Rightarrow> t | Some t' \<Rightarrow> t')"
  have "sorted_ops t1 cs = Some t'" and "t \<le> t1"
    using Cons.prems(2) by (auto simp: t1_def split: option.splits if_splits)
  moreover have "same_live t1 (do_session c s) (spec_session c x)"
    using same_live_step [OF Cons.prems(1) t1_def \<open>t \<le> t1\<close>] .
  ultimately show ?case using Cons.IH by simp
qed

lemma valid_session_live:
  assumes "same_live t0 s x" and "t0 \<le> t"
  shows "fst (valid_session k t s) \<longleftrightarrow> (\<exists>u. expires x k = Some u \<and> t \<le> u)"
proof (cases "sessions s k")
  case None
  with same_live_None [OF assms(1) None] assms(2) show ?thesis
    by (auto simp: valid_session_def)
next
  case (Some v)
  with same_live_Some [OF assms(1) Some] show ?thesis by (auto simp: valid_session_def)
qed

end
