(* ===== verification/Guard.thy ===== *)
theory Guard
  imports Access
begin

text \<open>
  The middleware \<open>basicAuth\<close> in front of an arbitrary handler, and the properties of the access
  control: who passes, what a failed login costs, how long a session and a lockout last, and
  what the operations of the configuration holder leave behind when they fail.
\<close>

section \<open>Who passes the middleware\<close>

definition session_ok :: "env \<Rightarrow> request \<Rightarrow> 'a auth_scheme \<Rightarrow> bool" where
  "session_ok e r s \<longleftrightarrow>
     (\<exists>v. find_cookie sessionCookieName r = Some v \<and> fst (valid_session v (now e) (store s)))"

definition credentials_ok :: "request \<Rightarrow> 'a auth_scheme \<Rightarrow> bool" where
  "credentials_ok r s \<longleftrightarrow>
     basic_auth_header r = Some (Username (ch_cfg (holder s)), password (ch_cfg (holder s)))"

definition host_locked :: "env \<Rightarrow> request \<Rightarrow> 'a auth_scheme \<Rightarrow> bool" where
  "host_locked e r s \<longleftrightarrow> fst (isLocked (remoteAddr r) (now e) (tracker s))"

definition authorised :: "env \<Rightarrow> request \<Rightarrow> 'a auth_scheme \<Rightarrow> bool" where
  "authorised e r s \<longleftrightarrow>
     \<not> host_locked e r s \<and> find_cookie loggedOutCookieName r = None
     \<and> (session_ok e r s \<or> (credentials_ok r s \<and> randomBytes e \<noteq> None))"

text \<open>The three ways through \<open>login\<close>.\<close>

lemma login_fail:
  "\<not> credentials_ok r s \<Longrightarrow>
     login nx cs e r s =
       (with_cookies cs unauthorized, s\<lparr>tracker := recordFailure (remoteAddr r) (now e) (tracker s)\<rparr>)"
  by (cases "basic_auth_header r")
    (auto simp: login_def credentials_ok_def get_config_def Password_def Let_def)

lemma login_pass:
  assumes "credentials_ok r s" and "randomBytes e = Some b"
  shows "login nx cs e r s =
    (let (resp, s') = nx e r (s\<lparr>tracker := recordSuccess (remoteAddr r) (tracker s),
                               store := snd (create (Some b) (now e) (store s))\<rparr>)
     in (with_cookies (cs @ [session_cookie (hex_encode b)]) resp, s'))"
proof -
  have "basic_auth_header r = Some (Username (ch_cfg (holder s)), password (ch_cfg (holder s)))"
    using assms(1) by (simp add: credentials_ok_def)
  then show ?thesis
    using assms(2) by (simp add: login_def get_config_def Password_def create_def Let_def)
qed

lemma login_no_token:
  assumes "credentials_ok r s" and "randomBytes e = None"
  shows "login nx cs e r s =
    (with_cookies cs (http_error ''Internal Server Error'' 500),
     s\<lparr>tracker := recordSuccess (remoteAddr r) (tracker s)\<rparr>)"
proof -
  have "basic_auth_header r = Some (Username (ch_cfg (holder s)), password (ch_cfg (holder s)))"
    using assms(1) by (simp add: credentials_ok_def)
  then show ?thesis
    using assms(2) by (simp add: login_def get_config_def Password_def create_def Let_def)
qed

text \<open>The middleware, by its guards.\<close>

definition unlocked :: "env \<Rightarrow> request \<Rightarrow> 'a auth_scheme \<Rightarrow> 'a auth_scheme" where
  "unlocked e r s = s\<lparr>tracker := snd (isLocked (remoteAddr r) (now e) (tracker s))\<rparr>"

definition checked :: "string \<Rightarrow> env \<Rightarrow> request \<Rightarrow> 'a auth_scheme \<Rightarrow> 'a auth_scheme" where
  "checked v e r s = (unlocked e r s)\<lparr>store := snd (valid_session v (now e) (store s))\<rparr>"

lemma basicAuth_locked:
  "host_locked e r s \<Longrightarrow>
     basicAuth nx e r s =
       (http_error ''Too many failed login attempts. Try again in 15 minutes.'' 403, unlocked e r s)"
  by (simp add: basicAuth_def host_locked_def unlocked_def case_prod_unfold)

lemma basicAuth_logged_out:
  "\<not> host_locked e r s \<Longrightarrow> find_cookie loggedOutCookieName r \<noteq> None \<Longrightarrow>
     basicAuth nx e r s = (with_cookies [clear_cookie loggedOutCookieName] unauthorized, unlocked e r s)"
  by (simp add: basicAuth_def host_locked_def unlocked_def case_prod_unfold)

lemma basicAuth_session:
  assumes "\<not> host_locked e r s" and "find_cookie loggedOutCookieName r = None"
    and "find_cookie sessionCookieName r = Some v"
  shows "basicAuth nx e r s =
    (if fst (valid_session v (now e) (store s)) then nx e r (checked v e r s)
     else login nx [clear_cookie sessionCookieName] e r (checked v e r s))"
  using assms
  by (simp add: basicAuth_def host_locked_def unlocked_def checked_def case_prod_unfold Let_def)

lemma basicAuth_login:
  assumes "\<not> host_locked e r s" and "find_cookie loggedOutCookieName r = None"
    and "find_cookie sessionCookieName r = None"
  shows "basicAuth nx e r s = login nx [] e r (unlocked e r s)"
  using assms by (simp add: basicAuth_def host_locked_def unlocked_def case_prod_unfold Let_def)

lemma checked_simps [simp]:
  "holder (unlocked e r s) = holder s" "store (unlocked e r s) = store s"
  "auth.more (unlocked e r s) = auth.more s"
  "holder (checked v e r s) = holder s" "auth.more (checked v e r s) = auth.more s"
  "tracker (checked v e r s) = tracker (unlocked e r s)"
  "credentials_ok r (unlocked e r s) = credentials_ok r s"
  "credentials_ok r (checked v e r s) = credentials_ok r s"
  by (simp_all add: unlocked_def checked_def credentials_ok_def)

text \<open>Every request without a live session ends in \<open>login\<close>, with some cookies to be cleared.\<close>

lemma basicAuth_no_session:
  assumes "\<not> host_locked e r s" and "find_cookie loggedOutCookieName r = None" and "\<not> session_ok e r s"
  shows "\<exists>cs s'. basicAuth nx e r s = login nx cs e r s' \<and> holder s' = holder s
    \<and> tracker s' = tracker (unlocked e r s) \<and> auth.more s' = auth.more s
    \<and> credentials_ok r s' = credentials_ok r s
    \<and> (store s' = store s \<or> (\<exists>v. store s' = snd (valid_session v (now e) (store s))))
    \<and> (\<forall>n'. basicAuth n' e r s = login n' cs e r s')"
proof (cases "find_cookie sessionCookieName r")
  case None
  have "basicAuth n e r s = login n [] e r (unlocked e r s)" for n :: "'a auth_scheme handler"
    by (rule basicAuth_login [OF assms(1,2) None])
  then show ?thesis by (intro exI [of _ "[]"] exI [of _ "unlocked e r s"]) auto
next
  case (Some v)
  have "basicAuth n e r s = login n [clear_cookie sessionCookieName] e r (checked v e r s)"
    for n :: "'a auth_scheme handler"
    using basicAuth_session [OF assms(1,2) Some] assms(3) Some by (simp add: session_ok_def)
  moreover have "store (checked v e r s) = snd (valid_session v (now e) (store s))"
    by (simp add: checked_def)
  ultimately show ?thesis
    by (intro exI [of _ "[clear_cookie sessionCookieName]"] exI [of _ "checked v e r s"]) auto
qed

lemma status_simps [simp]:
  "resp_status (http_error m c) = c" "resp_status (with_cookies cs x) = resp_status x"
  "resp_status unauthorized = 401" "resp_status (with_challenge x) = resp_status x"
  by (simp_all add: http_error_def with_cookies_def unauthorized_def with_challenge_def)

text \<open>What the middleware does with a request, by whether it is authorised.\<close>

definition guarded :: "'a auth_scheme handler \<Rightarrow> 'a auth_scheme handler \<Rightarrow> env \<Rightarrow> request \<Rightarrow> 'a auth_scheme \<Rightarrow> bool" where
  "guarded nx other e r s \<longleftrightarrow>
     (if authorised e r s
      then \<exists>cs s'. basicAuth nx e r s = (with_cookies cs (fst (nx e r s')), snd (nx e r s'))
             \<and> holder s' = holder s \<and> auth.more s' = auth.more s
      else basicAuth nx e r s = basicAuth other e r s
             \<and> resp_status (fst (basicAuth nx e r s)) \<in> {401, 403, 500}
             \<and> holder (snd (basicAuth nx e r s)) = holder s
             \<and> auth.more (snd (basicAuth nx e r s)) = auth.more s)"

lemma guarded_by_credentials:
  fixes nx :: "'a auth_scheme handler"
  assumes unlocked: "\<not> host_locked e r s" and no_logout: "find_cookie loggedOutCookieName r = None"
    and no_session: "\<not> session_ok e r s"
  shows "guarded nx other e r s"
proof -
  obtain cs s' where b: "\<And>n. basicAuth n e r s = login n cs e r s'"
    and s': "holder s' = holder s" "auth.more s' = auth.more s" "credentials_ok r s' = credentials_ok r s"
    using basicAuth_no_session [OF unlocked no_logout no_session, of nx] by metis
  show ?thesis
  proof (cases "credentials_ok r s")
    case False
    then show ?thesis using no_session s' by (simp add: guarded_def authorised_def b login_fail)
  next
    case cred: True
    show ?thesis
    proof (cases "randomBytes e")
      case None
      with cred no_session s' show ?thesis by (simp add: guarded_def authorised_def b login_no_token)
    next
      case (Some bs)
      let ?s = "s'\<lparr>tracker := recordSuccess (remoteAddr r) (tracker s'),
                   store := snd (create (Some bs) (now e) (store s'))\<rparr>"
      have "basicAuth nx e r s =
          (with_cookies (cs @ [session_cookie (hex_encode bs)]) (fst (nx e r ?s)), snd (nx e r ?s))"
        using cred s'(3) Some by (simp add: b login_pass case_prod_unfold Let_def)
      moreover have "authorised e r s"
        using unlocked no_logout cred Some by (simp add: authorised_def)
      ultimately show ?thesis
        using s' by (auto simp: guarded_def intro!: exI [of _ "cs @ [session_cookie (hex_encode bs)]"] exI [of _ ?s])
    qed
  qed
qed

lemma guard_outcome: "guarded nx other e r s"
proof (cases "host_locked e r s \<or> find_cookie loggedOutCookieName r \<noteq> None")
  case True
  then show ?thesis
    by (cases "host_locked e r s")
      (auto simp: guarded_def authorised_def basicAuth_locked basicAuth_logged_out)
next
  case open_host: False
  show ?thesis
  proof (cases "session_ok e r s")
    case True
    then obtain v where v: "find_cookie sessionCookieName r = Some v"
      "fst (valid_session v (now e) (store s))" by (auto simp: session_ok_def)
    have "basicAuth nx e r s = nx e r (checked v e r s)"
      using basicAuth_session [of e r s v nx] open_host v by simp
    moreover have "with_cookies [] x = x" for x by (simp add: with_cookies_def)
    ultimately show ?thesis
      using open_host True
      by (auto simp: guarded_def authorised_def intro!: exI [of _ "[]"] exI [of _ "checked v e r s"])
  next
    case False
    then show ?thesis using open_host by (intro guarded_by_credentials) simp_all
  qed
qed

lemma guard_denied:
  assumes "\<not> authorised e r s"
  shows "resp_status (fst (basicAuth nx e r s)) \<in> {401, 403, 500}"
    "holder (snd (basicAuth nx e r s)) = holder s" "auth.more (snd (basicAuth nx e r s)) = auth.more s"
  using guard_outcome [of nx nx e r s] assms by (simp_all add: guarded_def)

lemma guard_passes:
  assumes "authorised e r s"
  obtains cs s' where "basicAuth nx e r s = (with_cookies cs (fst (nx e r s')), snd (nx e r s'))"
    "holder s' = holder s" "auth.more s' = auth.more s"
  using guard_outcome [of nx nx e r s] assms by (auto simp: guarded_def)

section \<open>Sequences of requests\<close>

fun serve :: "'a handler \<Rightarrow> (env \<times> request) list \<Rightarrow> 'a \<Rightarrow> response list \<times> 'a" where
  "serve h [] s = ([], s)"
| "serve h ((e, r) # reqs) s =
     (let (resp, s1) = h e r s; (resps, s2) = serve h reqs s1 in (resp # resps, s2))"

text \<open>A handler behind the middleware that leaves the failed logins alone.\<close>

definition keeps_tracker :: "'a auth_scheme handler \<Rightarrow> bool" where
  "keeps_tracker nx \<longleftrightarrow> (\<forall>e r s. tracker (snd (nx e r s)) = tracker s)"

text \<open>The middleware is a client of the lockout table.\<close>

lemma basicAuth_tracker:
  assumes "keeps_tracker nx"
  shows "\<exists>outcome. tracker (snd (basicAuth nx e r s)) =
    lockout.attempt (remoteAddr r) (now e) outcome (tracker s)"
proof (cases "host_locked e r s")
  case True
  then show ?thesis
    by (simp add: basicAuth_locked lockout.attempt_def host_locked_def unlocked_def case_prod_unfold)
next
  case False
  then have attempt: "lockout.attempt (remoteAddr r) (now e) out (tracker s) =
      (case out of None \<Rightarrow> tracker (unlocked e r s)
       | Some True \<Rightarrow> recordSuccess (remoteAddr r) (tracker (unlocked e r s))
       | Some False \<Rightarrow> recordFailure (remoteAddr r) (now e) (tracker (unlocked e r s)))" for out
    by (simp add: lockout.attempt_def host_locked_def unlocked_def case_prod_unfold Let_def
      split: option.split bool.split)
  have log: "\<exists>out. tracker (snd (login nx cs e r s')) =
      lockout.attempt (remoteAddr r) (now e) out (tracker s)"
    if "tracker s' = tracker (unlocked e r s)" for cs s'
  proof (cases "credentials_ok r s'")
    case True
    then have "tracker (snd (login nx cs e r s')) = recordSuccess (remoteAddr r) (tracker s')"
      using assms by (cases "randomBytes e")
        (simp_all add: login_pass login_no_token case_prod_unfold Let_def keeps_tracker_def)
    then show ?thesis using that by (intro exI [of _ "Some True"]) (simp add: attempt)
  next
    case False
    then show ?thesis
      using that by (intro exI [of _ "Some False"]) (simp add: attempt login_fail)
  qed
  show ?thesis
  proof (cases "find_cookie loggedOutCookieName r")
    case (Some x)
    then have "tracker (snd (basicAuth nx e r s)) = tracker (unlocked e r s)"
      using False by (simp add: basicAuth_logged_out)
    then show ?thesis by (intro exI [of _ None]) (simp add: attempt)
  next
    case None
    show ?thesis
    proof (cases "session_ok e r s")
      case True
      then obtain v where v: "find_cookie sessionCookieName r = Some v"
        "fst (valid_session v (now e) (store s))" by (auto simp: session_ok_def)
      have "tracker (snd (basicAuth nx e r s)) = tracker (unlocked e r s)"
        using basicAuth_session [OF False None v(1)] v(2) assms by (simp add: keeps_tracker_def)
      then show ?thesis by (intro exI [of _ None]) (simp add: attempt)
    next
      case nos: False
      then show ?thesis using basicAuth_no_session [OF False None nos, of nx] log by metis
    qed
  qed
qed

lemma serve_length [simp]: "length (fst (serve h reqs s)) = length reqs"
  by (induction reqs arbitrary: s) (auto simp: case_prod_unfold Let_def)

lemma serve_locked:
  assumes "keeps_tracker nx" and "locked_until (tracker s) h = Some u"
    and "\<forall>(e, r) \<in> set reqs. now e \<le> u"
  shows "locked_until (tracker (snd (serve (basicAuth nx) reqs s))) h = Some u
    \<and> (\<forall>i < length reqs. stripPort (remoteAddr (snd (reqs ! i))) = h \<longrightarrow>
         resp_status (fst (serve (basicAuth nx) reqs s) ! i) = 403)"
  using assms(2,3)
proof (induction reqs arbitrary: s)
  case Nil
  then show ?case by simp
next
  case (Cons er reqs)
  obtain e r where er: "er = (e, r)" by (cases er)
  let ?s1 = "snd (basicAuth nx e r s)"
  have le: "now e \<le> u" using Cons.prems(2) er by simp
  have "locked_until (tracker ?s1) h = Some u"
    using basicAuth_tracker [OF assms(1), of e r s] lockout.attempt_locked [OF Cons.prems(1) le]
    by metis
  then have IH: "locked_until (tracker (snd (serve (basicAuth nx) reqs ?s1))) h = Some u"
    "\<forall>i < length reqs. stripPort (remoteAddr (snd (reqs ! i))) = h \<longrightarrow>
       resp_status (fst (serve (basicAuth nx) reqs ?s1) ! i) = 403"
    using Cons.IH [of ?s1] Cons.prems(2) by auto
  have "resp_status (fst (basicAuth nx e r s)) = 403" if "stripPort (remoteAddr r) = h"
  proof -
    have "host_locked e r s"
      using lockout.locked_iff [of "remoteAddr r" "now e" "tracker s"] Cons.prems(1) le that
      by (simp add: host_locked_def)
    then show ?thesis by (simp add: basicAuth_locked)
  qed
  then show ?case
    using IH by (auto simp: er case_prod_unfold Let_def nth_Cons split: nat.split)
qed

section \<open>Concrete servers for the witnesses\<close>

definition demo_server :: auth where
  "demo_server =
     \<lparr>holder = newConfigHolder defaults ''c'', store = newSessionStore 30, tracker = newLoginTracker\<rparr>"

definition demo_handler :: "auth handler" where
  "demo_handler e r s =
     (\<lparr>resp_status = 200, setCookies = [], wwwAuthenticate = False, resp_body = Text []\<rparr>, s)"

definition demo_env :: "instant \<Rightarrow> env" where
  "demo_env t = \<lparr>now = t, randomBytes = Some ''r''\<rparr>"

definition demo_request :: "string \<Rightarrow> (string \<times> string) list \<Rightarrow> request" where
  "demo_request auth cs =
     \<lparr>req_method = ''GET'', req_path = ''/'', remoteAddr = ''h:1'', cookies = cs,
      authorization = auth, query_level = [], req_body = []\<rparr>"

definition good_auth :: string where
  "good_auth = ''Basic '' @ b64_encode ''admin:changeme''"

lemmas demo_defs = demo_server_def demo_handler_def demo_env_def demo_request_def newConfigHolder_def
  newSessionStore_def newLoginTracker_def

lemma demo_keeps: "keeps_tracker demo_handler"
  by (simp add: keeps_tracker_def demo_handler_def)

lemma demo_locked: "ips (tracker s) h = None \<Longrightarrow> stripPort (remoteAddr r) = h \<Longrightarrow> \<not> host_locked e r s"
  by (simp add: host_locked_def isLocked_def)

lemma demo_no_cookie: "find_cookie n (demo_request a []) = None"
  by (simp add: find_cookie_def demo_request_def)

lemma demo_credentials: "credentials_ok (demo_request good_auth cs) demo_server"
proof -
  have "map ascii_lower ''Basic '' = ''basic ''" by code_simp
  then show ?thesis
    by (simp add: credentials_ok_def basic_auth_header_def demo_defs good_auth_def defaults_def
      Let_def del: b64_encode.simps)
qed

lemma demo_bare: "basic_auth_header (demo_request [] cs) = None"
  by (simp add: basic_auth_header_def demo_request_def)

section \<open>Properties\<close>

text \<open>
  C1: the access control is complete: a request that carries neither a live session nor the
  configured credentials, that comes from a host that is locked out, or that carries the cookie
  of a logout never reaches the handler (whatever handler stands behind the middleware, the
  outcome is the same) and is answered with 401, 403 or 500; every other request is answered by
  the handler, with the configuration untouched.
\<close>

theorem handler_needs_authority:
  fixes nx :: "'a auth_scheme handler"
  shows "if authorised e r s
    then \<exists>cs s'. basicAuth nx e r s = (with_cookies cs (fst (nx e r s')), snd (nx e r s'))
           \<and> holder s' = holder s \<and> auth.more s' = auth.more s
    else basicAuth nx e r s = basicAuth other e r s
           \<and> resp_status (fst (basicAuth nx e r s)) \<in> {401, 403, 500}
           \<and> holder (snd (basicAuth nx e r s)) = holder s
           \<and> auth.more (snd (basicAuth nx e r s)) = auth.more s"
  by (rule guard_outcome [unfolded guarded_def])

text \<open>
  C3: three failures lock a host out. Three requests of a host without recorded failures, within
  five minutes and without valid credentials or a session, are refused, and for 15 minutes after
  the third every request of that host is refused with 403, from whichever port, with whatever
  credentials or session, and whatever requests of other hosts come in between.
\<close>

theorem three_failures_lock_out:
  fixes s :: "'a auth_scheme"
  assumes "keeps_tracker nx" and "ips (tracker s) h = None"
    and "\<forall>r \<in> {r1, r2, r3}. stripPort (remoteAddr r) = h \<and> \<not> credentials_ok r s
           \<and> find_cookie loggedOutCookieName r = None \<and> find_cookie sessionCookieName r = None"
    and "now e1 \<le> now e2" and "now e2 \<le> now e3" and "now e3 < now e1 + 5 * minute"
    and "\<forall>(e, r) \<in> set reqs. now e \<le> now e3 + 15 * minute"
  shows "let (resps, s') = serve (basicAuth nx) [(e1, r1), (e2, r2), (e3, r3)] s
    in map resp_status resps = [401, 401, 401]
     \<and> (\<forall>i < length reqs. stripPort (remoteAddr (snd (reqs ! i))) = h \<longrightarrow>
          resp_status (fst (serve (basicAuth nx) reqs s') ! i) = 403)"
proof -
  have fail: "basicAuth nx e r s' =
      (with_cookies [] unauthorized, s'\<lparr>tracker := recordFailure (remoteAddr r) (now e) (tracker s')\<rparr>)"
    if "r \<in> {r1, r2, r3}" "fst (isLocked (remoteAddr r) (now e) (tracker s')) = False"
      "snd (isLocked (remoteAddr r) (now e) (tracker s')) = tracker s'" "holder s' = holder s" for e r s'
  proof -
    have r: "\<not> credentials_ok r s" "find_cookie loggedOutCookieName r = None"
      "find_cookie sessionCookieName r = None" using bspec [OF assms(3) that(1)] by simp_all
    have "unlocked e r s' = s'" using that(3) by (simp add: unlocked_def)
    moreover have "\<not> credentials_ok r s'" using r(1) that(4) by (simp add: credentials_ok_def)
    ultimately show ?thesis
      using basicAuth_login [of e r s' nx] r that(2) by (simp add: host_locked_def login_fail)
  qed
  have h: "stripPort (remoteAddr r1) = h" "stripPort (remoteAddr r2) = h" "stripPort (remoteAddr r3) = h"
    using assms(3) by auto
  define s1 where "s1 = s\<lparr>tracker := recordFailure (remoteAddr r1) (now e1) (tracker s)\<rparr>"
  define s2 where "s2 = s1\<lparr>tracker := recordFailure (remoteAddr r2) (now e2) (tracker s1)\<rparr>"
  define s3 where "s3 = s2\<lparr>tracker := recordFailure (remoteAddr r3) (now e3) (tracker s2)\<rparr>"
  note ops = recordFailure_def Let_def maxFailedAttempts_def failureWindow_def
  have 1: "ips (tracker s1) h = Some \<lparr>attempts = [now e1], lockedAt = zero_time\<rparr>"
    using assms(2) h by (simp add: s1_def ops)
  have 2: "ips (tracker s2) h = Some \<lparr>attempts = [now e1, now e2], lockedAt = zero_time\<rparr>"
    using 1 h assms(4-6) by (simp add: s2_def ops)
  have 3: "ips (tracker s3) h = Some \<lparr>attempts = [now e1, now e2, now e3], lockedAt = now e3\<rparr>"
    using 2 h assms(4-6) by (simp add: s3_def ops)
  have "basicAuth nx e1 r1 s = (with_cookies [] unauthorized, s1)"
    using fail [of r1 e1 s] assms(2) h by (simp add: isLocked_def s1_def)
  moreover have "basicAuth nx e2 r2 s1 = (with_cookies [] unauthorized, s2)"
    using fail [of r2 e2 s1] 1 h by (simp add: isLocked_def s2_def maxFailedAttempts_def) (simp add: s1_def)
  moreover have "basicAuth nx e3 r3 s2 = (with_cookies [] unauthorized, s3)"
    using fail [of r3 e3 s2] 2 h
    by (simp add: isLocked_def s3_def maxFailedAttempts_def) (simp add: s1_def s2_def)
  moreover have "locked_until (tracker s3) h = Some (now e3 + 15 * minute)"
    using 3 by (simp add: locked_until_def maxFailedAttempts_def lockoutDuration_def)
  ultimately show ?thesis
    using serve_locked [OF assms(1), of s3 h "now e3 + 15 * minute" reqs] assms(7) by simp
qed

theorem three_failures_lock_out_witness:
  "let (resps, s') = serve (basicAuth demo_handler)
       [(demo_env 0, demo_request [] []), (demo_env 1, demo_request [] []), (demo_env 2, demo_request [] [])]
       demo_server
   in resp_status (fst (serve (basicAuth demo_handler) [(demo_env 3, demo_request good_auth [])] s') ! 0) = 403"
proof -
  let ?r = "demo_request [] []" and ?req = "(demo_env 3, demo_request good_auth [])"
  have host: "stripPort ''h:1'' = ''h''" by code_simp
  have "\<not> credentials_ok ?r demo_server" using demo_bare by (simp add: credentials_ok_def)
  moreover have "find_cookie loggedOutCookieName ?r = None" "find_cookie sessionCookieName ?r = None"
    by (rule demo_no_cookie)+
  moreover have "remoteAddr ?r = ''h:1''" "remoteAddr (demo_request good_auth []) = ''h:1''"
    by (simp_all add: demo_request_def)
  moreover have "ips (tracker demo_server) ''h'' = None" by (simp add: demo_defs)
  ultimately show ?thesis
    using three_failures_lock_out [OF demo_keeps, of demo_server "''h''" ?r ?r ?r "demo_env 0"
      "demo_env 1" "demo_env 2" "[?req]"] host
    by (simp add: demo_env_def minute_def second_def case_prod_unfold Let_def)
qed

text \<open>
  C10: the tracker of failed logins implements its specification, a history of the failures of
  every host: whatever failures, successes and queries come in the order of time, a host is
  locked exactly if its last failure is at most 15 minutes ago and the five minutes before that
  failure hold three; forgetting old attempts and expired locks is not observable.
\<close>

theorem tracker_refines_history:
  assumes "sorted_events t0 evs"
  shows "fst (isLocked a t (fold track evs newLoginTracker)) =
    spec_locked (stripPort a) t (fold spec_track evs (\<lambda>_. []))"
proof -
  have "tracks t0 newLoginTracker (\<lambda>_. [])"
    by (simp add: tracks_def implements_def newLoginTracker_def)
  from tracks_run [OF this assms] obtain t' where
    "tracks t' (fold track evs newLoginTracker) (fold spec_track evs (\<lambda>_. []))" by blast
  then show ?thesis using isLocked_spec by (metis tracks_def)
qed

theorem tracker_refines_history_witness:
  "fst (isLocked ''h:9'' 5 (fold track [Failure ''h:1'' 0, Failure ''h:2'' 1, Failure ''h:3'' 2] newLoginTracker))
     = spec_locked ''h'' 5 (fold spec_track [Failure ''h:1'' 0, Failure ''h:2'' 1, Failure ''h:3'' 2] (\<lambda>_. []))"
proof -
  have "stripPort ''h:9'' = ''h''" by code_simp
  then show ?thesis
    using tracker_refines_history [of 0 "[Failure ''h:1'' 0, Failure ''h:2'' 1, Failure ''h:3'' 2]" "''h:9''" 5]
    by simp
qed

text \<open>
  C11: the table of sessions implements a table of expiry times: after any creations, checks,
  removals and changes of the timeout in the order of time, a token is accepted exactly if it
  was created, was not removed since, and the timeout in force at its creation has not passed;
  the lazy sweeps lose no live session and keep no dead one alive.
\<close>

theorem sessions_refine_expiry:
  assumes "sorted_ops t0 cs = Some t1" and "t1 \<le> t"
  shows "fst (valid_session k t (fold do_session cs (newSessionStore m))) \<longleftrightarrow>
    (\<exists>u. expires (fold spec_session cs (new_table m)) k = Some u \<and> t \<le> u)"
proof -
  have "same_live t0 (newSessionStore m) (new_table m)"
    by (simp add: same_live_def newSessionStore_def new_table_def)
  from same_live_run [OF this assms(1)] show ?thesis
    using valid_session_live assms(2) by blast
qed

theorem sessions_refine_expiry_witness:
  "fst (valid_session (hex_encode ''r'') 60 (fold do_session [Create ''r'' 0, Create ''q'' 5] (newSessionStore 1)))"
proof -
  have "hex_encode ''r'' \<noteq> hex_encode ''q''" by code_simp
  moreover have "minutes 1 = minute" by (simp add: minutes_small)
  ultimately show ?thesis
    using sessions_refine_expiry [of 0 "[Create ''r'' 0, Create ''q'' 5]" 5 60 "hex_encode ''r''" 1]
    by (simp add: new_table_def minute_def second_def)
qed

text \<open>
  A login pays: correct credentials from an unlocked host are answered with a session cookie,
  and a later request that presents this cookie is let through without credentials, from any
  unlocked host, until the session timeout has passed.
\<close>

theorem login_then_session:
  fixes s :: "'a auth_scheme"
  assumes "\<not> host_locked e r s" and "find_cookie loggedOutCookieName r = None"
    and "\<not> session_ok e r s" and "credentials_ok r s" and "randomBytes e = Some b"
    and "\<And>e r s. store (snd (nx e r s)) = store s"
    and "now e' \<le> now e + timeout (store s)"
    and "find_cookie sessionCookieName r' = Some (hex_encode b)"
    and "find_cookie loggedOutCookieName r' = None"
    and "\<not> host_locked e' r' (snd (basicAuth nx e r s))"
  shows "session_cookie (hex_encode b) \<in> set (setCookies (fst (basicAuth nx e r s)))
    \<and> authorised e' r' (snd (basicAuth nx e r s))"
proof -
  obtain cs s' where b: "basicAuth nx e r s = login nx cs e r s'"
    and s': "credentials_ok r s' = credentials_ok r s"
      "store s' = store s \<or> (\<exists>v. store s' = snd (valid_session v (now e) (store s)))"
    using basicAuth_no_session [OF assms(1-3), of nx] by metis
  have timeout: "timeout (store s') = timeout (store s)"
    using s'(2) by (auto simp: valid_session_def split: option.splits)
  have login: "basicAuth nx e r s =
      (let (resp, t) = nx e r (s'\<lparr>tracker := recordSuccess (remoteAddr r) (tracker s'),
                               store := snd (create (Some b) (now e) (store s'))\<rparr>)
       in (with_cookies (cs @ [session_cookie (hex_encode b)]) resp, t))"
    using login_pass [of r s' e b nx cs] s'(1) assms(4,5) b by simp
  then have "store (snd (basicAuth nx e r s)) = snd (create (Some b) (now e) (store s'))"
    using assms(6) by (simp add: case_prod_unfold Let_def)
  then have "fst (valid_session (hex_encode b) (now e') (store (snd (basicAuth nx e r s))))"
    using assms(7) timeout by (simp add: valid_session_def create_def Let_def)
  then have "authorised e' r' (snd (basicAuth nx e r s))"
    using assms(8-10) by (simp add: authorised_def session_ok_def)
  moreover have "session_cookie (hex_encode b) \<in> set (setCookies (fst (basicAuth nx e r s)))"
    by (simp add: login case_prod_unfold Let_def with_cookies_def)
  ultimately show ?thesis by simp
qed

theorem login_then_session_witness:
  "authorised (demo_env 60) (demo_request [] [(sessionCookieName, hex_encode ''r'')])
     (snd (basicAuth demo_handler (demo_env 0) (demo_request good_auth []) demo_server))"
proof -
  let ?e = "demo_env 0" and ?r = "demo_request good_auth []"
  let ?r' = "demo_request [] [(sessionCookieName, hex_encode ''r'')]"
  have free: "\<not> host_locked ?e ?r demo_server"
    by (rule demo_locked [where h = "stripPort (remoteAddr ?r)"]) (simp_all add: demo_defs)
  have none: "find_cookie loggedOutCookieName ?r = None" "\<not> session_ok ?e ?r demo_server"
    using demo_no_cookie [of sessionCookieName] by (simp_all add: demo_no_cookie session_ok_def)
  have "basicAuth demo_handler ?e ?r demo_server = login demo_handler [] ?e ?r (unlocked ?e ?r demo_server)"
    using basicAuth_login [OF free] demo_no_cookie by blast
  then have "tracker (snd (basicAuth demo_handler ?e ?r demo_server)) =
      recordSuccess (remoteAddr ?r) (tracker (unlocked ?e ?r demo_server))"
    using login_pass [of ?r "unlocked ?e ?r demo_server" ?e "''r''" demo_handler "[]"] demo_credentials
    by (simp add: demo_env_def demo_handler_def)
  then have free': "\<not> host_locked (demo_env 60) ?r' (snd (basicAuth demo_handler ?e ?r demo_server))"
    by (intro demo_locked [where h = "stripPort (remoteAddr ?r')"])
      (simp_all add: recordSuccess_def demo_request_def)
  have "find_cookie sessionCookieName ?r' = Some (hex_encode ''r'')"
    "find_cookie loggedOutCookieName ?r' = None"
    by (simp_all add: find_cookie_def demo_request_def sessionCookieName_def loggedOutCookieName_def)
  moreover have "randomBytes ?e = Some ''r''" "now (demo_env 60) \<le> now ?e + timeout (store demo_server)"
    by (simp_all add: demo_defs minutes_small minute_def second_def)
  moreover have "store (snd (demo_handler e r s)) = store s" for e r s by (simp add: demo_handler_def)
  ultimately show ?thesis
    using login_then_session [OF free none demo_credentials _ _ _ _ _ free'] by blast
qed

text \<open>
  The host that is counted does not depend on the port: for the addresses of the server,
  \<open>host:port\<close> and \<open>[host]:port\<close> with an IPv6 host, \<open>stripPort\<close> answers with the host.
\<close>

theorem stripPort_host:
  assumes "set port \<inter> {CHR '':'', CHR ''['', CHR '']''} = {}"
    and "set host \<inter> {CHR ''['', CHR '']''} = {}"
  shows "(CHR '':'' \<notin> set host \<longrightarrow> stripPort (host @ '':'' @ port) = host)
    \<and> stripPort (''['' @ host @ '']:'' @ port) = host"
proof -
  have port: "CHR '':'' \<notin> set port" "CHR ''['' \<notin> set port" "CHR '']'' \<notin> set port"
    and host: "CHR ''['' \<notin> set host" "CHR '']'' \<notin> set host"
    using assms by auto
  have "stripPort (host @ '':'' @ port) = host" if h: "CHR '':'' \<notin> set host"
  proof -
    have "last_index_byte (host @ CHR '':'' # port) CHR '':'' = Some (length host)"
      by (rule last_index_byte_append [OF port(1)])
    moreover have "\<not> has_prefix (host @ CHR '':'' # port) ''[''"
      using host(1) by (cases host) (auto simp: has_prefix_def)
    ultimately show ?thesis
      using port host h by (simp add: stripPort_def split_host_port_def Let_def)
  qed
  moreover have "stripPort (''['' @ host @ '']:'' @ port) = host"
  proof -
    let ?a = "CHR ''['' # host @ CHR '']'' # CHR '':'' # port"
    have "last_index_byte ?a CHR '':'' = Some (Suc (Suc (length host)))"
      using last_index_byte_append [OF port(1), of "CHR ''['' # host @ [CHR '']'']"] by simp
    moreover have "index_byte ?a CHR '']'' = Some (Suc (length host))"
      using index_byte_append [of "CHR '']''" "CHR ''['' # host" "CHR '':'' # port"] host(2) by simp
    moreover have "has_prefix ?a ''[''" by (simp add: has_prefix_def)
    ultimately show ?thesis
      using port host by (simp add: stripPort_def split_host_port_def Let_def)
  qed
  ultimately show ?thesis by simp
qed

theorem stripPort_host_witness:
  "stripPort ''10.0.0.7:5123'' = ''10.0.0.7'' \<and> stripPort ''[::1]:80'' = ''::1''"
  using stripPort_host [of "''5123''" "''10.0.0.7''"] stripPort_host [of "''80''" "''::1''"] by simp

text \<open>
  Changing the log level is all or nothing: on a disk that works, the level is changed in
  memory and the file loads to exactly the new configuration; where the file cannot be saved,
  the configuration in memory is the one before.
\<close>

theorem setLogLevel_all_or_nothing:
  assumes "valid_config (ch_cfg ch)" and "int_fields_ok (ch_cfg ch)"
    and "valid_utf8 (Username (ch_cfg ch))" and "known_level level"
  shows "if fst (Save ((ch_cfg ch)\<lparr>LogLevel := level\<rparr>) (ch_path ch) w)
    then fst (setLogLevel level ch w)
      \<and> fst (snd (setLogLevel level ch w)) = ch\<lparr>ch_cfg := (ch_cfg ch)\<lparr>LogLevel := level\<rparr>\<rparr>
      \<and> (disk_ok (ch_path ch) w \<longrightarrow>
           fst (Load (ch_path ch) (snd (snd (setLogLevel level ch w)))) =
             Inr ((ch_cfg ch)\<lparr>LogLevel := level\<rparr>))
    else \<not> fst (setLogLevel level ch w) \<and> fst (snd (setLogLevel level ch w)) = ch"
proof -
  let ?c = "(ch_cfg ch)\<lparr>LogLevel := level\<rparr>"
  have "valid_config ?c" and "int_fields_ok ?c" and "valid_utf8 (Username ?c)"
    using assms by (simp_all add: valid_config_def int_fields_ok_def)
  then have "disk_ok (ch_path ch) w \<Longrightarrow> fst (Load (ch_path ch) (snd (Save ?c (ch_path ch) w))) = Inr ?c"
    using Load_Save by simp
  then show ?thesis
    by (cases "Save ?c (ch_path ch) w") (auto simp: setLogLevel_def Let_def split: bool.split)
qed

theorem setLogLevel_all_or_nothing_witness:
  "fst (Load ''c'' (snd (snd (setLogLevel ''debug'' (newConfigHolder defaults ''c'') empty_disk)))) =
     Inr (defaults\<lparr>LogLevel := ''debug''\<rparr>)"
proof -
  have "fst (Save (defaults\<lparr>LogLevel := ''debug''\<rparr>) ''c'' empty_disk)"
    by (simp add: Save_def)
  moreover have "known_level ''debug''" by (simp add: known_level_def)
  ultimately show ?thesis
    using setLogLevel_all_or_nothing [of "newConfigHolder defaults ''c''" "''debug''" empty_disk]
      defaults_int_valid
    by (simp add: newConfigHolder_def)
qed

text \<open>
  A reload keeps the server usable: it either installs a well-formed configuration, the one
  that \<open>Load\<close> returned, or reports the error and changes neither the configuration in memory nor
  the disk. A configuration file that has disappeared is not an error: the server goes on with
  the default credentials.
\<close>

theorem reload_installs_or_keeps:
  "(case reload ch w of
      (Inl e, ch', w') \<Rightarrow> ch' = ch \<and> w' = w \<and> fst (Load (ch_path ch) w) = Inl e
    | (Inr c, ch', w') \<Rightarrow> ch' = ch\<lparr>ch_cfg := c\<rparr> \<and> valid_config c \<and> Load (ch_path ch) w = (Inr c, w'))
   \<and> (files w (ch_path ch) = None \<longrightarrow> ch_cfg (fst (snd (reload ch w))) = defaults)"
proof -
  have err: "Load p w = (Inl e, w') \<Longrightarrow> w' = w" for p e w'
    by (auto simp: Load_def split: read_result.splits option.splits)
  have "files w (ch_path ch) = None \<Longrightarrow> fst (Load (ch_path ch) w) = Inr defaults"
    by (simp add: Load_def os_ReadFile_def)
  then show ?thesis
    by (cases "Load (ch_path ch) w")
      (auto simp: reload_def split: sum.split dest: err Load_valid_config)
qed

theorem reload_installs_or_keeps_witness:
  "ch_cfg (fst (snd (reload (newConfigHolder (defaults\<lparr>Username := ''bob''\<rparr>) ''c'') empty_disk))) = defaults"
proof -
  have "files empty_disk ''c'' = None" by (simp add: empty_disk_def)
  then show ?thesis
    using reload_installs_or_keeps [of "newConfigHolder (defaults\<lparr>Username := ''bob''\<rparr>) ''c''" empty_disk]
    by (simp add: newConfigHolder_def)
qed

text \<open>
  The session timeout is not bounded above, and its conversion to a duration wraps: with a
  configuration that \<open>Load\<close> accepts, every session has expired in the moment of its creation, so
  that nobody can work with the dashboard.
\<close>

theorem huge_timeout_expires_at_once:
  "\<exists>c. check_config c = Inr c \<and>
     \<not> fst (valid_session (hex_encode b) t
         (snd (create (Some b) t (newSessionStore (SessionTimeoutMinutes c)))))"
proof -
  let ?c = "defaults\<lparr>SessionTimeoutMinutes := 153722868\<rparr>"
  have "valid_config ?c" using defaults_valid by (simp add: valid_config_def)
  then have "check_config ?c = Inr ?c" by (rule check_config_id)
  moreover have "\<not> fst (valid_session (hex_encode b) t
         (snd (create (Some b) t (newSessionStore (SessionTimeoutMinutes ?c)))))"
    using minutes_wraps by (simp add: valid_session_def create_def newSessionStore_def Let_def)
  ultimately show ?thesis by blast
qed

end
