(* ===== verification/Slots.thy ===== *)
theory Slots
  imports Scheduler
begin

text \<open>
  The abstract specification of an activity of the scheduler. The four activities (restart and
  lock, schedule and one-shot) follow one protocol of a cancel function, a generation counter
  and goroutines that compare their generation before they clean up. A \<open>slot\<close> is what one
  activity is about; \<open>slot_step\<close> is the protocol, with its invariant proved once; and
  \<open>slot_view k\<close> reads slot \<open>k\<close> out of the state of the system. The simulation lemma says that
  every step of the system is a step of the protocol in each of its four slots.
\<close>

section \<open>The protocol\<close>

datatype phase = Active | Clearing | Over

record proc =
  p_gen :: "64 word"
  p_cancelled :: bool
  p_phase :: phase

text \<open>\<open>s_procs ! i\<close> is \<open>None\<close> where goroutine \<open>i\<close> belongs to another activity.\<close>

record slot =
  s_cancel :: "nat option"
  s_gen :: "64 word"
  s_procs :: "proc option list"

definition start_slot :: "slot \<Rightarrow> slot" where
  "start_slot v =
     \<lparr>s_cancel = Some (length (s_procs v)), s_gen = s_gen v + 1,
      s_procs = s_procs v @ [Some \<lparr>p_gen = s_gen v + 1, p_cancelled = False, p_phase = Active\<rparr>]\<rparr>"

definition other_slot :: "slot \<Rightarrow> slot" where
  "other_slot v = v\<lparr>s_procs := s_procs v @ [None]\<rparr>"

definition put_proc :: "nat \<Rightarrow> proc \<Rightarrow> slot \<Rightarrow> slot" where
  "put_proc i p v = v\<lparr>s_procs := (s_procs v)[i := Some p]\<rparr>"

definition has_proc :: "slot \<Rightarrow> nat \<Rightarrow> proc \<Rightarrow> bool" where
  "has_proc v i p \<longleftrightarrow> i < length (s_procs v) \<and> s_procs v ! i = Some p"

inductive slot_step :: "slot \<Rightarrow> slot \<Rightarrow> bool" where
  stay: "slot_step v v"
| other: "slot_step v (other_slot v)"
| start: "s_cancel v = None \<Longrightarrow> slot_step v (start_slot v)"
| stop: "s_cancel v = Some i \<Longrightarrow> has_proc v i p \<Longrightarrow>
    slot_step v (put_proc i (p\<lparr>p_cancelled := True\<rparr>) v\<lparr>s_cancel := None\<rparr>)"
| cancel_self: "has_proc v i p \<Longrightarrow> p_phase p = Active \<Longrightarrow>
    slot_step v (put_proc i (p\<lparr>p_cancelled := True\<rparr>) v)"
| match: "has_proc v i p \<Longrightarrow> p_phase p = Active \<Longrightarrow> p_gen p = s_gen v \<Longrightarrow>
    slot_step v (put_proc i (p\<lparr>p_phase := Clearing\<rparr>) v\<lparr>s_cancel := None\<rparr>)"
| miss: "has_proc v i p \<Longrightarrow> p_phase p = Active \<Longrightarrow> p_gen p \<noteq> s_gen v \<Longrightarrow>
    slot_step v (put_proc i (p\<lparr>p_phase := Over\<rparr>) v)"
| cleared: "has_proc v i p \<Longrightarrow> p_phase p = Clearing \<Longrightarrow>
    slot_step v (put_proc i (p\<lparr>p_phase := Over\<rparr>) v)"

text \<open>
  The invariant: generations are never reused, the cancel function belongs to the goroutine of
  the current generation, and a goroutine that is active and not cancelled is that one.
\<close>

definition slot_inv :: "slot \<Rightarrow> bool" where
  "slot_inv v \<longleftrightarrow>
     unat (s_gen v) \<le> length (s_procs v)
     \<and> (\<forall>i p. has_proc v i p \<longrightarrow> unat (p_gen p) \<le> unat (s_gen v))
     \<and> (\<forall>i j p q. has_proc v i p \<and> has_proc v j q \<and> p_gen p = s_gen v \<and> p_gen q = s_gen v \<longrightarrow> i = j)
     \<and> (\<forall>i. s_cancel v = Some i \<longrightarrow>
          (\<exists>p. has_proc v i p \<and> p_gen p = s_gen v \<and> p_phase p = Active))
     \<and> (\<forall>i p. has_proc v i p \<and> p_phase p = Active \<and> \<not> p_cancelled p \<longrightarrow> s_cancel v = Some i)"

lemma has_proc_unique: "has_proc v i p \<Longrightarrow> has_proc v i q \<Longrightarrow> p = q"
  by (simp add: has_proc_def)

lemma has_proc_other [simp]: "has_proc (other_slot v) i p \<longleftrightarrow> has_proc v i p"
  by (auto simp: has_proc_def other_slot_def nth_append)

lemma has_proc_start:
  "has_proc (start_slot v) i p \<longleftrightarrow>
     has_proc v i p
     \<or> (i = length (s_procs v) \<and> p = \<lparr>p_gen = s_gen v + 1, p_cancelled = False, p_phase = Active\<rparr>)"
  by (auto simp: has_proc_def start_slot_def nth_append less_Suc_eq)

lemma has_proc_put:
  "has_proc (put_proc i q v) j r \<longleftrightarrow>
     (if j = i then i < length (s_procs v) \<and> r = q else has_proc v j r)"
  by (auto simp: has_proc_def put_proc_def nth_list_update)

lemma has_proc_cancel [simp]: "has_proc (v\<lparr>s_cancel := c\<rparr>) i p = has_proc v i p"
  by (simp add: has_proc_def)

lemma slot_cancel_fields [simp]:
  "s_gen (v\<lparr>s_cancel := c\<rparr>) = s_gen v" "s_procs (v\<lparr>s_cancel := c\<rparr>) = s_procs v"
  by simp_all

lemma slot_fields [simp]:
  "s_gen (put_proc i p v) = s_gen v" "s_cancel (put_proc i p v) = s_cancel v"
  "length (s_procs (put_proc i p v)) = length (s_procs v)"
  "s_gen (other_slot v) = s_gen v" "s_cancel (other_slot v) = s_cancel v"
  "length (s_procs (other_slot v)) = Suc (length (s_procs v))"
  "s_gen (start_slot v) = s_gen v + 1" "s_cancel (start_slot v) = Some (length (s_procs v))"
  "length (s_procs (start_slot v)) = Suc (length (s_procs v))"
  by (simp_all add: put_proc_def other_slot_def start_slot_def)

lemma put_proc_cancel: "put_proc i p v\<lparr>s_cancel := s_cancel v\<rparr> = put_proc i p v"
  by (simp add: put_proc_def)

lemma unat_succ:
  fixes g :: "64 word"
  assumes "unat g \<le> n" and "Suc n < 2 ^ 64"
  shows "unat (g + 1) = Suc (unat g)"
proof -
  have "unat g + 1 < 2 ^ 64" using assms by simp
  then show ?thesis by (simp add: unat_word_ariths)
qed

lemma slot_inv_start:
  assumes inv: "slot_inv v" and free: "s_cancel v = None"
    and bound: "Suc (length (s_procs v)) < 2 ^ 64"
  shows "slot_inv (start_slot v)"
proof -
  have g: "unat (s_gen v + 1) = Suc (unat (s_gen v))"
    using inv bound by (intro unat_succ) (auto simp: slot_inv_def)
  then have "p_gen p \<noteq> s_gen v + 1" if "has_proc v i p" for i p
    using inv that by (auto simp: slot_inv_def) (metis Suc_n_not_le_n)
  with inv free g show ?thesis
    by (auto simp: slot_inv_def has_proc_start le_Suc_eq)
qed

text \<open>The four clauses of the invariant about goroutines, as rules.\<close>

lemma slot_invD:
  assumes "slot_inv v"
  shows slot_gen_le: "has_proc v i p \<Longrightarrow> unat (p_gen p) \<le> unat (s_gen v)"
    and slot_current: "has_proc v i p \<Longrightarrow> has_proc v j q \<Longrightarrow> p_gen p = s_gen v \<Longrightarrow>
      p_gen q = s_gen v \<Longrightarrow> i = j"
    and slot_cancelE: "s_cancel v = Some i \<Longrightarrow>
      \<exists>p. has_proc v i p \<and> p_gen p = s_gen v \<and> p_phase p = Active"
    and slot_live: "has_proc v i p \<Longrightarrow> p_phase p = Active \<Longrightarrow> \<not> p_cancelled p \<Longrightarrow> s_cancel v = Some i"
  using assms unfolding slot_inv_def by blast+

text \<open>
  A goroutine \<open>i\<close> moves within its generation. It does not become live again; the cancel
  function stays, provided that it is not left with a goroutine that has ended, or it is
  dropped together with the only goroutine it can belong to.
\<close>

lemma slot_inv_put:
  assumes inv: "slot_inv v" and p: "has_proc v i p" and gen: "p_gen q = p_gen p"
    and live: "p_phase q = Active \<and> \<not> p_cancelled q \<Longrightarrow> p_phase p = Active \<and> \<not> p_cancelled p"
    and keep: "c = s_cancel v \<and> (c = Some i \<longrightarrow> p_phase q = Active)
      \<or> c = None \<and> (p_gen p = s_gen v \<or> s_cancel v = Some i) \<and> \<not> (p_phase q = Active \<and> \<not> p_cancelled q)"
  shows "slot_inv (put_proc i q v\<lparr>s_cancel := c\<rparr>)"
proof -
  let ?v = "put_proc i q v"
  have i: "i < length (s_procs v)" using p by (simp add: has_proc_def)
  have has: "has_proc ?v j r \<longleftrightarrow> (if j = i then r = q else has_proc v j r)" for j r
    using i by (simp add: has_proc_put)
  have "unat (s_gen v) \<le> length (s_procs v)" using inv by (simp add: slot_inv_def)
  moreover have "unat (p_gen r) \<le> unat (s_gen v)" if "has_proc ?v j r" for j r
    using that slot_gen_le [OF inv] p gen by (auto simp: has split: if_splits)
  moreover have "j = k" if "has_proc ?v j r" "has_proc ?v k t" "p_gen r = s_gen v" "p_gen t = s_gen v"
    for j k r t
    using that slot_current [OF inv] p gen by (auto simp: has split: if_splits)
  moreover have "\<exists>r. has_proc ?v j r \<and> p_gen r = s_gen v \<and> p_phase r = Active" if "c = Some j" for j
  proof (cases "j = i")
    case True
    with that keep slot_cancelE [OF inv, of i] has_proc_unique [OF p] gen show ?thesis
      by (auto simp: has)
  next
    case False
    with that keep slot_cancelE [OF inv, of j] show ?thesis by (auto simp: has)
  qed
  moreover have "c = Some j" if "has_proc ?v j r" "p_phase r = Active" "\<not> p_cancelled r" for j r
  proof (cases "j = i")
    case True
    with that keep live slot_live [OF inv p] show ?thesis by (auto simp: has)
  next
    case False
    with that have j: "s_cancel v = Some j" using slot_live [OF inv] by (auto simp: has)
    with False slot_cancelE [OF inv j] slot_current [OF inv _ p] have "p_gen p \<noteq> s_gen v"
      by blast
    with j False keep show ?thesis by auto
  qed
  ultimately show ?thesis by (simp add: slot_inv_def) blast
qed

lemma slot_inv_step:
  assumes "slot_step v v'" and inv: "slot_inv v" and "length (s_procs v') < 2 ^ 64"
  shows "slot_inv v'"
  using assms(1)
proof cases
  case stay
  with inv show ?thesis by simp
next
  case other
  with inv show ?thesis by (auto simp: slot_inv_def)
next
  case start
  with inv assms(3) show ?thesis by (auto intro: slot_inv_start)
next
  case (stop i p)
  then show ?thesis using slot_inv_put [OF inv, of i p "p\<lparr>p_cancelled := True\<rparr>" None] by simp
next
  case (cancel_self i p)
  have "slot_inv (put_proc i (p\<lparr>p_cancelled := True\<rparr>) v\<lparr>s_cancel := s_cancel v\<rparr>)"
    using cancel_self by (intro slot_inv_put [OF inv]) auto
  with cancel_self show ?thesis by (simp only: put_proc_cancel)
next
  case (match i p)
  then show ?thesis using slot_inv_put [OF inv, of i p "p\<lparr>p_phase := Clearing\<rparr>" None] by simp
next
  case (miss i p)
  have "s_cancel v \<noteq> Some i" using miss slot_cancelE [OF inv] has_proc_unique by blast
  with miss have "slot_inv (put_proc i (p\<lparr>p_phase := Over\<rparr>) v\<lparr>s_cancel := s_cancel v\<rparr>)"
    by (intro slot_inv_put [OF inv]) auto
  with miss show ?thesis by (simp only: put_proc_cancel)
next
  case (cleared i p)
  have "s_cancel v \<noteq> Some i"
  proof
    assume "s_cancel v = Some i"
    then obtain q where q: "has_proc v i q" "p_phase q = Active"
      using slot_cancelE [OF inv] by blast
    have "q = p" by (rule has_proc_unique [OF q(1) cleared(2)])
    with q(2) cleared(3) show False by simp
  qed
  with cleared have "slot_inv (put_proc i (p\<lparr>p_phase := Over\<rparr>) v\<lparr>s_cancel := s_cancel v\<rparr>)"
    by (intro slot_inv_put [OF inv]) auto
  with cleared show ?thesis by (simp only: put_proc_cancel)
qed

section \<open>The slots of the scheduler\<close>

fun cancel_of :: "kind \<Rightarrow> Scheduler \<Rightarrow> nat option" where
  "cancel_of RestartLoop sc = restartScheduleCancel sc"
| "cancel_of LockLoop sc = lockScheduleCancel sc"
| "cancel_of RestartShot sc = restartOnceCancel sc"
| "cancel_of LockShot sc = lockOnceCancel sc"
| "cancel_of Resetter sc = None"

fun gen_of :: "kind \<Rightarrow> Scheduler \<Rightarrow> 64 word" where
  "gen_of RestartLoop sc = restartScheduleGen sc"
| "gen_of LockLoop sc = lockScheduleGen sc"
| "gen_of RestartShot sc = restartOnceGen sc"
| "gen_of LockShot sc = lockOnceGen sc"
| "gen_of Resetter sc = 0"

fun phase_of :: "'w pc \<Rightarrow> phase" where
  "phase_of DeferClear = Clearing"
| "phase_of DeferNotify = Clearing"
| "phase_of (DeferCall q) = Clearing"
| "phase_of OnceClear = Clearing"
| "phase_of Finished = Over"
| "phase_of _ = Active"

definition proc_of :: "kind \<Rightarrow> 'w goroutine \<Rightarrow> proc option" where
  "proc_of k g =
     (if kind g = k
      then Some \<lparr>p_gen = gen g, p_cancelled = ctxCancelled g, p_phase = phase_of (pc g)\<rparr> else None)"

definition view :: "kind \<Rightarrow> Scheduler \<Rightarrow> 'w goroutine list \<Rightarrow> slot" where
  "view k sc gs = \<lparr>s_cancel = cancel_of k sc, s_gen = gen_of k sc, s_procs = map (proc_of k) gs\<rparr>"

definition slot_view :: "kind \<Rightarrow> 'w sys \<Rightarrow> slot" where
  "slot_view k s = view k (sched s) (gos s)"

definition same_slot :: "kind \<Rightarrow> Scheduler \<Rightarrow> Scheduler \<Rightarrow> bool" where
  "same_slot k sc sc' \<longleftrightarrow> cancel_of k sc' = cancel_of k sc \<and> gen_of k sc' = gen_of k sc"

definition cleared_slot :: "kind \<Rightarrow> Scheduler \<Rightarrow> Scheduler \<Rightarrow> bool" where
  "cleared_slot k sc sc' \<longleftrightarrow>
     cancel_of k sc' = None \<and> gen_of k sc' = gen_of k sc \<and> (\<forall>j. j \<noteq> k \<longrightarrow> same_slot j sc sc')"

lemma view_fields [simp]:
  "s_cancel (view k sc gs) = cancel_of k sc" "s_gen (view k sc gs) = gen_of k sc"
  "length (s_procs (view k sc gs)) = length gs"
  by (simp_all add: view_def)

lemma has_proc_view:
  "has_proc (view k sc gs) i p \<longleftrightarrow>
     i < length gs \<and> kind (gs ! i) = k
     \<and> p = \<lparr>p_gen = gen (gs ! i), p_cancelled = ctxCancelled (gs ! i), p_phase = phase_of (pc (gs ! i))\<rparr>"
  by (auto simp: has_proc_def view_def proc_of_def split: if_splits)

lemma same_slot_refl [simp]: "same_slot k sc sc"
  by (simp add: same_slot_def)

lemma view_same: "same_slot k sc sc' \<Longrightarrow> view k sc' gs = view k sc gs"
  by (simp add: view_def same_slot_def)

lemma view_start:
  assumes "cancel_of k sc' = Some (length gs)" and "gen_of k sc' = gen_of k sc + 1"
    and "g = gen_of k sc + 1" and "phase_of p = Active"
  shows "view k sc' (gs @ [new_go k g now p]) = start_slot (view k sc gs)"
  using assms by (simp add: view_def start_slot_def proc_of_def new_go_def)

lemma view_other:
  assumes "j \<noteq> k" and "same_slot k sc sc'"
  shows "view k sc' (gs @ [new_go j g now p]) = other_slot (view k sc gs)"
  using assms by (simp add: view_def other_slot_def proc_of_def new_go_def same_slot_def)

text \<open>Replacing a goroutine by one of the same kind and generation.\<close>

lemma view_put:
  assumes "i < length gs" and "kind g = k"
  shows "view k sc (gs[i := g]) =
    put_proc i \<lparr>p_gen = gen g, p_cancelled = ctxCancelled g, p_phase = phase_of (pc g)\<rparr> (view k sc gs)"
  using assms by (simp add: view_def put_proc_def proc_of_def map_update)

lemma view_put_other:
  assumes "kind g \<noteq> k" and "kind (gs ! i) \<noteq> k"
  shows "view k sc (gs[i := g]) = view k sc gs"
  using assms
  by (cases "i < length gs")
    (auto simp: view_def proc_of_def map_update list_update_same_conv list_update_beyond)

lemma view_clear:
  "cleared_slot k sc sc' \<Longrightarrow> view k sc' gs = view k sc gs\<lparr>s_cancel := None\<rparr>"
  by (simp add: view_def cleared_slot_def)

section \<open>The simulation\<close>

definition slots_inv :: "'w sys \<Rightarrow> bool" where
  "slots_inv s \<longleftrightarrow> length (gos s) < 2 ^ 64 \<longrightarrow> (\<forall>k. k \<noteq> Resetter \<longrightarrow> slot_inv (slot_view k s))"

lemma all_kinds:
  "(\<forall>j. P j) \<longleftrightarrow>
     P RestartLoop \<and> P LockLoop \<and> P RestartShot \<and> P LockShot \<and> P Resetter"
proof
  assume all: "P RestartLoop \<and> P LockLoop \<and> P RestartShot \<and> P LockShot \<and> P Resetter"
  show "\<forall>j. P j"
  proof
    fix j show "P j" using all by (cases j) auto
  qed
qed auto

lemma slot_frames:
  "same_slot k sc (sc\<lparr>restartInterval := r, lockInterval := l\<rparr>)"
  "k \<noteq> RestartLoop \<Longrightarrow> same_slot k sc (sc\<lparr>restartScheduleCancel := c, restartScheduleGen := g\<rparr>)"
  "k \<noteq> LockLoop \<Longrightarrow> same_slot k sc (sc\<lparr>lockScheduleCancel := c, lockScheduleGen := g\<rparr>)"
  "k \<noteq> RestartShot \<Longrightarrow> same_slot k sc (sc\<lparr>restartOnceCancel := c, restartOnceGen := g\<rparr>)"
  "k \<noteq> LockShot \<Longrightarrow> same_slot k sc (sc\<lparr>lockOnceCancel := c, lockOnceGen := g\<rparr>)"
  "cleared_slot RestartLoop sc (sc\<lparr>restartScheduleCancel := None\<rparr>)"
  "cleared_slot LockLoop sc (sc\<lparr>lockScheduleCancel := None\<rparr>)"
  "cleared_slot RestartShot sc (sc\<lparr>restartOnceCancel := None\<rparr>)"
  "cleared_slot LockShot sc (sc\<lparr>lockOnceCancel := None\<rparr>)"
proof -
  show "cleared_slot RestartLoop sc (sc\<lparr>restartScheduleCancel := None\<rparr>)"
    "cleared_slot LockLoop sc (sc\<lparr>lockScheduleCancel := None\<rparr>)"
    "cleared_slot RestartShot sc (sc\<lparr>restartOnceCancel := None\<rparr>)"
    "cleared_slot LockShot sc (sc\<lparr>lockOnceCancel := None\<rparr>)"
    by (simp_all add: cleared_slot_def same_slot_def all_kinds)
qed (cases k; simp add: same_slot_def)+

text \<open>The effect of a method on the slots: it starts or stops one of them, or changes none.\<close>

lemma view_start_op:
  assumes free: "cancel_of j (sched s) = None"
    and new: "cancel_of j sc' = Some (length (gos s))" "gen_of j sc' = gen_of j (sched s) + 1"
    and others: "\<And>k. k \<noteq> j \<Longrightarrow> same_slot k (sched s) sc'"
    and p: "phase_of p = Active"
  shows "slot_step (slot_view k s)
    (view k sc' (gos s @ [new_go j (gen_of j (sched s) + 1) now p]))"
proof (cases "k = j")
  case True
  then show ?thesis
    using slot_step.start [of "slot_view j s"] view_start [OF new refl p] free
    by (simp add: slot_view_def)
next
  case False
  then show ?thesis
    using view_other [of j k "sched s" sc' "gos s"] others slot_step.other [of "slot_view k s"]
    by (simp add: slot_view_def)
qed

lemma view_stop_op:
  assumes inv: "slot_inv (slot_view j s)" and owner: "cancel_of j (sched s) = Some i"
    and sc': "cleared_slot j (sched s) sc'"
  shows "slot_step (slot_view k s) (view k sc' (cancel_ctx i (gos s)))"
proof -
  let ?g = "gos s ! i"
  let ?p = "\<lparr>p_gen = gen ?g, p_cancelled = ctxCancelled ?g, p_phase = phase_of (pc ?g)\<rparr>"
  have has: "has_proc (slot_view j s) i ?p" and i: "i < length (gos s)" "kind ?g = j"
    using slot_cancelE [OF inv, of i] owner by (auto simp: slot_view_def has_proc_view)
  show ?thesis
  proof (cases "k = j")
    case True
    then have "view k sc' (cancel_ctx i (gos s)) =
        put_proc i (?p\<lparr>p_cancelled := True\<rparr>) (slot_view j s)\<lparr>s_cancel := None\<rparr>"
      using i by (simp add: cancel_ctx_def view_clear [OF sc'] view_put slot_view_def)
    then show ?thesis
      using slot_step.stop [OF _ has] owner True by (simp add: slot_view_def)
  next
    case False
    then have "view k sc' (cancel_ctx i (gos s)) = slot_view k s"
      using i sc' by (simp add: cancel_ctx_def view_put_other slot_view_def cleared_slot_def view_same)
    then show ?thesis by (simp add: stay)
  qed
qed

lemma view_plain_op:
  assumes "\<And>k. same_slot k (sched s) sc'" and "k \<noteq> Resetter" and "\<forall>g \<in> set gs. kind g = Resetter"
    and "length gs \<le> 1"
  shows "slot_step (slot_view k s) (view k sc' (gos s @ gs))"
proof (cases gs)
  case Nil
  then have "view k sc' (gos s @ gs) = slot_view k s"
    using view_same [OF assms(1), where gs = "gos s"] by (simp add: slot_view_def)
  then show ?thesis by (simp add: stay)
next
  case (Cons g gs')
  with assms have "view k sc' (gos s @ gs) = other_slot (slot_view k s)"
    by (auto simp: view_def other_slot_def proc_of_def same_slot_def slot_view_def)
  then show ?thesis by (simp add: slot_step.other)
qed

lemma slot_step_op:
  assumes inv: "\<And>j. j \<noteq> Resetter \<Longrightarrow> slot_inv (slot_view j s)" and k: "k \<noteq> Resetter"
  shows "slot_step (slot_view k s) (slot_view k (do_op c s))"
proof (cases c)
  case OpStop
  then show ?thesis by (simp add: Stop_def slot_view_def stay)
next
  case OpStartRestartSchedule
  then show ?thesis
    using view_start_op [of RestartLoop s "sched s\<lparr>restartScheduleCancel := Some (length (gos s)),
      restartScheduleGen := restartScheduleGen (sched s) + 1\<rparr>" LoopTop k "clock s"]
    by (auto simp: StartRestartSchedule_def Let_def slot_view_def stay slot_frames)
next
  case OpStopRestartSchedule
  then show ?thesis
    using view_stop_op [OF inv, of RestartLoop _ "sched s\<lparr>restartScheduleCancel := None\<rparr>" k]
    by (auto simp: StopRestartSchedule_def slot_view_def stay slot_frames split: option.splits)
next
  case OpRestartOnce
  then show ?thesis
    using view_start_op [of RestartShot s "sched s\<lparr>restartOnceCancel := Some (length (gos s)),
      restartOnceGen := restartOnceGen (sched s) + 1\<rparr>" OnceTimer k "clock s"]
    by (auto simp: RestartOnce_def Let_def slot_view_def stay slot_frames)
next
  case OpStartLockSchedule
  then show ?thesis
    using view_start_op [of LockLoop s "sched s\<lparr>lockScheduleCancel := Some (length (gos s)),
      lockScheduleGen := lockScheduleGen (sched s) + 1\<rparr>" LoopTop k "clock s"]
    by (auto simp: StartLockSchedule_def Let_def slot_view_def stay slot_frames)
next
  case OpStopLockSchedule
  then show ?thesis
    using view_stop_op [OF inv, of LockLoop _ "sched s\<lparr>lockScheduleCancel := None\<rparr>" k]
    by (auto simp: StopLockSchedule_def slot_view_def stay slot_frames split: option.splits)
next
  case OpLockOnce
  then show ?thesis
    using view_start_op [of LockShot s "sched s\<lparr>lockOnceCancel := Some (length (gos s)),
      lockOnceGen := lockOnceGen (sched s) + 1\<rparr>" OnceTimer k "clock s"]
    by (auto simp: LockOnce_def Let_def slot_view_def stay slot_frames)
next
  case (OpUpdateIntervals r l)
  then show ?thesis
    using view_same [of k "sched s" "sched s\<lparr>restartInterval := r, lockInterval := l\<rparr>" "gos s"]
    by (simp add: UpdateIntervals_def slot_view_def stay slot_frames)
next
  case OpCancelRestartOnce
  then show ?thesis
    using view_stop_op [OF inv, of RestartShot _ "sched s\<lparr>restartOnceCancel := None\<rparr>" k]
    by (auto simp: CancelRestartOnce_def slot_view_def stay slot_frames split: option.splits)
next
  case OpCancelLockOnce
  then show ?thesis
    using view_stop_op [OF inv, of LockShot _ "sched s\<lparr>lockOnceCancel := None\<rparr>" k]
    by (auto simp: CancelLockOnce_def slot_view_def stay slot_frames split: option.splits)
next
  case OpStateReset
  then show ?thesis
    using k view_plain_op [of s "sched s" k "[new_go Resetter 0 (clock s) DeferNotify]"]
    by (simp add: StateReset_def Let_def case_prod_unfold slot_view_def stay new_go_def)
next
  case OpDisconnect
  then show ?thesis by (simp add: Disconnect_def slot_view_def stay)
qed

text \<open>
  What a step of a goroutine of kind \<open>k\<close> does to its slot: the five ways in which the protocol
  lets a goroutine move.
\<close>

definition moves :: "kind \<Rightarrow> nat \<Rightarrow> 'w sys \<Rightarrow> 'w pc \<Rightarrow> 'w sys \<Rightarrow> 'w pc \<Rightarrow> bool" where
  "moves k i s p s' p' \<longleftrightarrow>
     (sched s' = sched s \<and> gos s' = gos s \<and> phase_of p' = phase_of p)
     \<or> (cleared_slot k (sched s) (sched s') \<and> gos s' = gos s \<and> gen (gos s ! i) = gen_of k (sched s)
          \<and> phase_of p = Active \<and> phase_of p' = Clearing)
     \<or> (sched s' = sched s \<and> gos s' = gos s \<and> gen (gos s ! i) \<noteq> gen_of k (sched s)
          \<and> phase_of p = Active \<and> phase_of p' = Over)
     \<or> (sched s' = sched s \<and> gos s' = gos s \<and> phase_of p = Clearing \<and> phase_of p' = Over)
     \<or> (sched s' = sched s \<and> gos s' = cancel_ctx i (gos s) \<and> phase_of p = Active \<and> phase_of p' = Active)"

lemma body_moves: "body k c i s p = Some (s', p') \<Longrightarrow> moves k i s p s' p'"
proof (cases k)
  case RestartLoop
  moreover assume "body k c i s p = Some (s', p')"
  ultimately show ?thesis
    by (cases p) (auto simp: restart_loop_def goes_def moves_def slot_frames log_exec_def Let_def
      case_prod_unfold split: choice.splits if_splits)
next
  case LockLoop
  moreover assume "body k c i s p = Some (s', p')"
  ultimately show ?thesis
    by (cases p) (auto simp: lock_loop_def goes_def moves_def slot_frames log_exec_def Let_def
      case_prod_unfold split: choice.splits if_splits)
next
  case RestartShot
  moreover assume "body k c i s p = Some (s', p')"
  ultimately show ?thesis
    by (cases p) (auto simp: restart_shot_def goes_def moves_def slot_frames log_exec_def
      split: if_splits)
next
  case LockShot
  moreover assume "body k c i s p = Some (s', p')"
  ultimately show ?thesis
    by (cases p) (auto simp: lock_shot_def goes_def moves_def slot_frames log_exec_def
      split: if_splits)
next
  case Resetter
  moreover assume "body k c i s p = Some (s', p')"
  ultimately show ?thesis
    by (cases p) (auto simp: resetter_def goes_def moves_def split: if_splits)
qed

lemma go_stepE:
  assumes "go_step c i s = Some t"
  obtains s' p where "i < length (gos s)" "body (kind (gos s ! i)) c i s (pc (gos s ! i)) = Some (s', p)"
    "moves (kind (gos s ! i)) i s (pc (gos s ! i)) s' p" "t = set_pc i p s'"
proof -
  let ?b = "body (kind (gos s ! i)) c i s (pc (gos s ! i))"
  have i: "i < length (gos s)" using assms by (simp add: go_step_def split: if_splits)
  from assms i obtain x where x: "?b = Some x" and t: "t = set_pc i (snd x) (fst x)"
    by (cases ?b) (simp_all add: go_step_def case_prod_unfold)
  have b: "?b = Some (fst x, snd x)" using x by simp
  show thesis by (rule that [OF i b body_moves [OF b] t])
qed

lemma put_proc_drop: "put_proc i p (v\<lparr>s_cancel := c\<rparr>) = put_proc i p v\<lparr>s_cancel := c\<rparr>"
  by (simp add: put_proc_def)

lemma put_proc_self: "has_proc v i p \<Longrightarrow> put_proc i p v = v"
proof -
  assume "has_proc v i p"
  then have "(s_procs v)[i := Some p] = s_procs v" by (auto simp: has_proc_def list_update_same_conv)
  then show "put_proc i p v = v" by (simp add: put_proc_def)
qed

lemma slot_step_go:
  assumes "go_step c i s = Some t"
  shows "slot_step (slot_view k s) (slot_view k t)"
proof -
  let ?g = "gos s ! i"
  let ?p = "\<lparr>p_gen = gen ?g, p_cancelled = ctxCancelled ?g, p_phase = phase_of (pc ?g)\<rparr>"
  obtain s' p where i: "i < length (gos s)" and m: "moves (kind ?g) i s (pc ?g) s' p"
    and t: "t = set_pc i p s'"
    using go_stepE [OF assms] by metis
  show ?thesis
  proof (cases "kind ?g = k")
    case True
    then have has: "has_proc (slot_view k s) i ?p"
      using i by (simp add: slot_view_def has_proc_view)
    note put = slot_view_def set_pc_def view_put [OF i] view_clear [of k "sched s" "sched s'"] cancel_ctx_def put_proc_drop
    from m True i have "slot_view k t =
          put_proc i ?p (slot_view k s)
        \<or> gen ?g = s_gen (slot_view k s) \<and> phase_of (pc ?g) = Active
          \<and> slot_view k t = put_proc i (?p\<lparr>p_phase := Clearing\<rparr>) (slot_view k s)\<lparr>s_cancel := None\<rparr>
        \<or> gen ?g \<noteq> s_gen (slot_view k s) \<and> phase_of (pc ?g) = Active
          \<and> slot_view k t = put_proc i (?p\<lparr>p_phase := Over\<rparr>) (slot_view k s)
        \<or> phase_of (pc ?g) = Clearing
          \<and> slot_view k t = put_proc i (?p\<lparr>p_phase := Over\<rparr>) (slot_view k s)
        \<or> phase_of (pc ?g) = Active
          \<and> slot_view k t = put_proc i (?p\<lparr>p_cancelled := True\<rparr>) (slot_view k s)"
      unfolding moves_def t by (elim disjE) (simp_all add: put)
    then show ?thesis
      using put_proc_self [OF has] slot_step.stay slot_step.match [OF has] slot_step.miss [OF has]
        slot_step.cleared [OF has] slot_step.cancel_self [OF has]
      by auto
  next
    case False
    then have "slot_view k t = slot_view k s"
      using m i unfolding moves_def t
      by (elim disjE) (auto simp: slot_view_def set_pc_def view_put_other cancel_ctx_def view_same
        cleared_slot_def)
    then show ?thesis by (simp add: stay)
  qed
qed

theorem slot_simulation:
  assumes "sys_step s l t" and "\<And>j. j \<noteq> Resetter \<Longrightarrow> slot_inv (slot_view j s)" and "k \<noteq> Resetter"
  shows "slot_step (slot_view k s) (slot_view k t)"
  using assms(1)
proof cases
  case (call_step c)
  then show ?thesis using slot_step_op [OF assms(2) assms(3)] by simp
next
  case (go_step c i)
  then show ?thesis using slot_step_go by blast
next
  case (tick_step d)
  then show ?thesis by (simp add: slot_view_def stay)
qed

lemma gos_grow: "sys_step s l t \<Longrightarrow> length (gos s) \<le> length (gos t)"
proof (induction rule: sys_step.induct)
  case (call_step s c)
  then show ?case
    by (cases c) (simp_all add: start_ops stop_ops other_ops cancel_ctx_def Let_def case_prod_unfold
      split: option.splits)
next
  case (go_step c i s t)
  then show ?case
    by (elim go_stepE) (auto simp: moves_def set_pc_def cancel_ctx_def)
next
  case (tick_step d s)
  then show ?case by simp
qed

lemma slots_inv_init: "is_init s \<Longrightarrow> slots_inv s"
  by (auto simp: is_init_def init_sys_def slots_inv_def slot_inv_def slot_view_def view_def
    has_proc_def NewScheduler_def NewWithExec_def all_kinds)

lemma slots_inv_step:
  assumes "slots_inv s" and "sys_step s l t"
  shows "slots_inv t"
  unfolding slots_inv_def
proof (intro impI allI)
  fix k assume len: "length (gos t) < 2 ^ 64" and k: "k \<noteq> Resetter"
  with assms gos_grow have inv: "\<And>j. j \<noteq> Resetter \<Longrightarrow> slot_inv (slot_view j s)"
    by (meson le_less_trans slots_inv_def)
  have "length (s_procs (slot_view k t)) = length (gos t)"
    by (simp add: slot_view_def)
  with slot_inv_step [OF slot_simulation [OF assms(2) inv k] inv [OF k]] len
  show "slot_inv (slot_view k t)" by simp
qed

interpretation slots: inductive_invariant is_init sys_step slots_inv
  by unfold_locales (auto intro: slots_inv_init slots_inv_step)

end
