(* ===== verification/Runs.thy ===== *)
theory Runs
  imports Slots
begin

text \<open>
  What holds along every run of the scheduler. A \<open>goroutine_invariant\<close> is a property of one
  goroutine, of its clock and of the actions that it has logged; it is proved once for the
  steps of a single body and holds in every reachable state. The theory interprets it for the
  delay of a one-shot and for the pace of a schedule.
\<close>

section \<open>What a step leaves alone\<close>

definition times :: "nat \<Rightarrow> entry list \<Rightarrow> instant list" where
  "times i es = map entryTime (filter (\<lambda>e. entryIndex e = i) es)"

lemma times_append [simp]: "times i (es @ fs) = times i es @ times i fs"
  by (simp add: times_def)

lemma times_Nil [simp]: "times i [] = []"
  by (simp add: times_def)

lemma times_single [simp]: "times i [e] = (if entryIndex e = i then [entryTime e] else [])"
  by (simp add: times_def)

fun action_of :: "kind \<Rightarrow> ExecFuncs \<Rightarrow> os_action" where
  "action_of RestartLoop ex = Restart ex"
| "action_of RestartShot ex = Restart ex"
| "action_of _ ex = LockScreen ex"

fun start_pc :: "kind \<Rightarrow> 'w pc" where
  "start_pc RestartLoop = LoopTop"
| "start_pc LockLoop = LoopTop"
| "start_pc RestartShot = OnceTimer"
| "start_pc LockShot = OnceTimer"
| "start_pc Resetter = DeferNotify"

text \<open>The one point of the code of a goroutine where an action is executed.\<close>

fun at_exec :: "'w pc \<Rightarrow> bool" where
  "at_exec LoopExec = True"
| "at_exec OnceExec = True"
| "at_exec _ = False"

definition new_entry :: "kind \<Rightarrow> nat \<Rightarrow> 'w sys \<Rightarrow> entry" where
  "new_entry k i s =
     \<lparr>entryKind = k, entryIndex = i, entryAction = action_of k (exec (sched s)), entryTime = clock s\<rparr>"

lemmas bodies = restart_loop_def lock_loop_def restart_shot_def lock_shot_def resetter_def

lemma body_frame:
  assumes "body k c i s p = Some (s', p')"
  shows "clock s' = clock s" "rootDone s' = rootDone s" "dryRun (st s') = dryRun (st s)"
    "exec (sched s') = exec (sched s)"
    "restartInterval (sched s') = restartInterval (sched s)"
    "lockInterval (sched s') = lockInterval (sched s)"
    "onChange (st s') = onChange (st s)"
    "execLog s' = execLog s @ (if at_exec p then [new_entry k i s] else [])"
proof -
  note defs = goes_def log_exec_def new_entry_def setRestartSchedule_locked_def
    setLockSchedule_locked_def SetRestartOnce_def SetLockOnce_def Let_def
  have "clock s' = clock s \<and> rootDone s' = rootDone s \<and> dryRun (st s') = dryRun (st s)
    \<and> exec (sched s') = exec (sched s) \<and> restartInterval (sched s') = restartInterval (sched s)
    \<and> lockInterval (sched s') = lockInterval (sched s) \<and> onChange (st s') = onChange (st s)
    \<and> execLog s' = execLog s @ (if at_exec p then [new_entry k i s] else [])"
  proof (cases k)
    case RestartLoop
    with assms show ?thesis
      by (cases p) (auto simp: restart_loop_def defs split: choice.splits if_splits)
  next
    case LockLoop
    with assms show ?thesis
      by (cases p) (auto simp: lock_loop_def defs split: choice.splits if_splits)
  next
    case RestartShot
    with assms show ?thesis
      by (cases p) (auto simp: restart_shot_def defs split: if_splits)
  next
    case LockShot
    with assms show ?thesis
      by (cases p) (auto simp: lock_shot_def defs split: if_splits)
  next
    case Resetter
    with assms show ?thesis
      by (cases p) (auto simp: resetter_def defs split: if_splits)
  qed
  then show "clock s' = clock s" "rootDone s' = rootDone s" "dryRun (st s') = dryRun (st s)"
    "exec (sched s') = exec (sched s)"
    "restartInterval (sched s') = restartInterval (sched s)"
    "lockInterval (sched s') = lockInterval (sched s)"
    "onChange (st s') = onChange (st s)"
    "execLog s' = execLog s @ (if at_exec p then [new_entry k i s] else [])"
    by blast+
qed

text \<open>Kind, generation, birth and position of a goroutine: what only its own steps change.\<close>

definition static :: "'w goroutine \<Rightarrow> kind \<times> 64 word \<times> instant" where
  "static g = (kind g, gen g, born g)"

lemma nth_cancel_ctx:
  "j < length gs \<Longrightarrow>
     static (cancel_ctx i gs ! j) = static (gs ! j) \<and> pc (cancel_ctx i gs ! j) = pc (gs ! j)"
  by (simp add: cancel_ctx_def nth_list_update static_def)

lemma length_cancel_ctx [simp]: "length (cancel_ctx i gs) = length gs"
  by (simp add: cancel_ctx_def)

text \<open>A method keeps the existing goroutines and may append one that is about to start.\<close>

lemma op_gos:
  fixes s :: "'w sys"
  shows "(length (gos (do_op c s)) = length (gos s)
     \<or> (\<exists>k g. length (gos (do_op c s)) = Suc (length (gos s))
          \<and> gos (do_op c s) ! length (gos s) = new_go k g (clock s) (start_pc k)))
   \<and> (\<forall>j < length (gos s). static (gos (do_op c s) ! j) = static (gos s ! j)
        \<and> pc (gos (do_op c s) ! j) = pc (gos s ! j))"
proof -
  have new: "\<exists>k' g'. new_go k g (clock s) p = (new_go k' g' (clock s) (start_pc k') :: 'w goroutine)"
    if "p = start_pc k" for k g p using that by blast
  show ?thesis
    by (cases c) (simp_all add: start_ops stop_ops other_ops Let_def case_prod_unfold nth_append
      nth_cancel_ctx new split: option.splits)
qed

lemma op_frame:
  "clock (do_op c s) = clock s" "execLog (do_op c s) = execLog s"
  "exec (sched (do_op c s)) = exec (sched s)" "dryRun (st (do_op c s)) = dryRun (st s)"
  by (cases c; simp add: start_ops stop_ops other_ops Let_def case_prod_unfold reset_locked_def
    SetRestartOnce_def SetLockOnce_def split: option.splits)+

lemma go_gos:
  assumes "go_step c i s = Some t"
  obtains s' p where "i < length (gos s)" "body (kind (gos s ! i)) c i s (pc (gos s ! i)) = Some (s', p)"
    "length (gos t) = length (gos s)" "static (gos t ! i) = static (gos s ! i)" "pc (gos t ! i) = p"
    "\<And>j. j \<noteq> i \<Longrightarrow> gos t ! j = gos s ! j"
    "sched t = sched s'" "st t = st s'" "clock t = clock s'" "execLog t = execLog s'"
proof -
  obtain s' p where i: "i < length (gos s)" and b: "body (kind (gos s ! i)) c i s (pc (gos s ! i)) = Some (s', p)"
    and m: "moves (kind (gos s ! i)) i s (pc (gos s ! i)) s' p" and t: "t = set_pc i p s'"
    using go_stepE [OF assms] by metis
  from m have "gos s' = gos s \<or> gos s' = cancel_ctx i (gos s)" by (auto simp: moves_def)
  then show thesis
    using i t by (intro that [OF i b]) (auto simp: set_pc_def static_def cancel_ctx_def)
qed

section \<open>Invariants of a single goroutine\<close>

text \<open>
  \<open>P now k b p ts\<close>: at time \<open>now\<close> a goroutine of kind \<open>k\<close>, born at \<open>b\<close>, stands at \<open>p\<close> and has
  executed its action at the times \<open>ts\<close>. \<open>Q\<close> is what the steps may rely on in the rest of the
  system.
\<close>

locale goroutine_invariant =
  fixes step :: "'w sys \<Rightarrow> label \<Rightarrow> 'w sys \<Rightarrow> bool"
    and Q :: "'w sys \<Rightarrow> bool"
    and P :: "instant \<Rightarrow> kind \<Rightarrow> instant \<Rightarrow> 'w pc \<Rightarrow> instant list \<Rightarrow> bool"
  assumes step_sys: "step s l t \<Longrightarrow> sys_step s l t"
    and step_Q: "Q s \<Longrightarrow> step s l t \<Longrightarrow> Q t"
    and P_new: "P now k now (start_pc k) []"
    and P_tick: "P now k b p ts \<Longrightarrow> now \<le> now' \<Longrightarrow> P now' k b p ts"
    and P_body: "Q s \<Longrightarrow> body k c i s p = Some (s', p') \<Longrightarrow> P (clock s) k b p ts \<Longrightarrow>
      P (clock s) k b p' (ts @ (if at_exec p then [clock s] else []))"
begin

definition all_good :: "'w sys \<Rightarrow> bool" where
  "all_good s \<longleftrightarrow> Q s
     \<and> (\<forall>i < length (gos s). P (clock s) (kind (gos s ! i)) (born (gos s ! i)) (pc (gos s ! i))
          (times i (execLog s)))
     \<and> (\<forall>e \<in> set (execLog s). entryIndex e < length (gos s))"

lemma new_times: "all_good s \<Longrightarrow> times (length (gos s)) (execLog s) = []"
  by (auto simp: all_good_def times_def filter_empty_conv)

lemma all_good_op:
  assumes good: "all_good s" and Q: "Q (do_op c s)"
  shows "all_good (do_op c s)"
proof -
  let ?t = "do_op c s"
  have old: "static (gos ?t ! j) = static (gos s ! j) \<and> pc (gos ?t ! j) = pc (gos s ! j)"
    if "j < length (gos s)" for j using op_gos [where s = s] that by blast
  have "P (clock s) (kind (gos ?t ! j)) (born (gos ?t ! j)) (pc (gos ?t ! j)) (times j (execLog s))"
    if "j < length (gos ?t)" for j
  proof (cases "j < length (gos s)")
    case True
    with old good show ?thesis by (auto simp: all_good_def static_def)
  next
    case False
    then have j: "j = length (gos s)" using op_gos [where s = s and c = c] that by auto
    with that obtain k g where "gos ?t ! j = new_go k g (clock s) (start_pc k)"
      using op_gos [where s = s and c = c] by auto
    then show ?thesis using new_times [OF good] P_new j by (simp add: new_go_def)
  qed
  moreover have "length (gos s) \<le> length (gos ?t)" using op_gos [where s = s and c = c] by auto
  ultimately show ?thesis using Q good by (auto simp: all_good_def op_frame)
qed

lemma all_good_go:
  assumes good: "all_good s" and step: "go_step c i s = Some t" and Q: "Q t"
  shows "all_good t"
proof -
  obtain s' p where i: "i < length (gos s)"
    and b: "body (kind (gos s ! i)) c i s (pc (gos s ! i)) = Some (s', p)"
    and same: "length (gos t) = length (gos s)" "static (gos t ! i) = static (gos s ! i)"
      "pc (gos t ! i) = p" "\<And>j. j \<noteq> i \<Longrightarrow> gos t ! j = gos s ! j"
      "clock t = clock s'" "execLog t = execLog s'"
    using go_gos [OF step] by metis
  let ?P = "\<lambda>s j. P (clock s) (kind (gos s ! j)) (born (gos s ! j)) (pc (gos s ! j)) (times j (execLog s))"
  have "?P t j" if "j < length (gos t)" for j
  proof (cases "j = i")
    case True
    have "Q s" and "?P s i" using good i by (simp_all add: all_good_def)
    then have "P (clock s) (kind (gos s ! i)) (born (gos s ! i)) p
        (times i (execLog s) @ (if at_exec (pc (gos s ! i)) then [clock s] else []))"
      using P_body [OF _ b] by blast
    moreover have "times i (execLog t) =
        times i (execLog s) @ (if at_exec (pc (gos s ! i)) then [clock s] else [])"
      using same body_frame [OF b] by (simp add: new_entry_def)
    ultimately show ?thesis using same True body_frame [OF b] by (simp add: static_def)
  next
    case False
    then have "?P s j" using good that same(1) by (simp add: all_good_def)
    then show ?thesis using same False body_frame [OF b] by (simp add: new_entry_def)
  qed
  moreover have "\<forall>e \<in> set (execLog t). entryIndex e < length (gos t)"
    using good i same body_frame [OF b] by (auto simp: all_good_def new_entry_def)
  ultimately show ?thesis using Q by (simp add: all_good_def)
qed

lemma all_good_step: "all_good s \<Longrightarrow> step s l t \<Longrightarrow> all_good t"
proof -
  assume good: "all_good s" and step: "step s l t"
  have Q: "Q t" using good step step_Q by (auto simp: all_good_def)
  from step_sys [OF step] show "all_good t"
  proof cases
    case (call_step c)
    then show ?thesis using good Q all_good_op by simp
  next
    case (go_step c i)
    then show ?thesis using good Q all_good_go by blast
  next
    case (tick_step d)
    then show ?thesis using good Q by (auto simp: all_good_def intro: P_tick)
  qed
qed

lemma reach_good:
  assumes "\<And>s. init s \<Longrightarrow> is_init s \<and> Q s"
  shows "reach init step s \<Longrightarrow> all_good s"
proof (induction rule: reach.induct)
  case (reach_init s)
  then show ?case using assms by (fastforce simp: all_good_def is_init_def init_sys_def)
next
  case (reach_step s l t)
  then show ?case using all_good_step by blast
qed

end

section \<open>The delay of a one-shot\<close>

text \<open>The time a goroutine waits for, where it stands at its \<open>select\<close>.\<close>

fun deadline :: "'w pc \<Rightarrow> instant option" where
  "deadline (LoopSelect t) = Some t"
| "deadline (OnceSelect t) = Some t"
| "deadline _ = None"

definition is_shot :: "kind \<Rightarrow> bool" where
  "is_shot k \<longleftrightarrow> k = RestartShot \<or> k = LockShot"

definition is_loop :: "kind \<Rightarrow> bool" where
  "is_loop k \<longleftrightarrow> k = RestartLoop \<or> k = LockLoop"

fun shot_at :: "instant \<Rightarrow> instant \<Rightarrow> 'w pc \<Rightarrow> instant list \<Rightarrow> bool" where
  "shot_at now b OnceTimer ts \<longleftrightarrow> ts = []"
| "shot_at now b (OnceSelect t) ts \<longleftrightarrow> ts = [] \<and> b + onceDelay \<le> t"
| "shot_at now b OnceExec ts \<longleftrightarrow> ts = [] \<and> b + onceDelay \<le> now"
| "shot_at now b p ts \<longleftrightarrow> length ts \<le> 1 \<and> (\<forall>t \<in> set ts. b + onceDelay \<le> t)"

definition shot_inv :: "instant \<Rightarrow> kind \<Rightarrow> instant \<Rightarrow> 'w pc \<Rightarrow> instant list \<Rightarrow> bool" where
  "shot_inv now k b p ts \<longleftrightarrow> b \<le> now \<and> (is_shot k \<longrightarrow> shot_at now b p ts)"

lemma shot_tick: "shot_at now b p ts \<Longrightarrow> now \<le> now' \<Longrightarrow> shot_at now' b p ts"
  by (cases p) auto

interpretation shots: goroutine_invariant "sys_step :: 'w sys \<Rightarrow> label \<Rightarrow> 'w sys \<Rightarrow> bool" "\<lambda>_. True" shot_inv
proof unfold_locales
  fix now k
  show "shot_inv now k now (start_pc k :: 'w pc) []"
    by (cases k) (simp_all add: shot_inv_def is_shot_def)
next
  fix now now' b k ts and p :: "'w pc"
  show "shot_inv now k b p ts \<Longrightarrow> now \<le> now' \<Longrightarrow> shot_inv now' k b p ts"
    using shot_tick by (fastforce simp: shot_inv_def)
next
  fix k c i p p' b ts and s s' :: "'w sys"
  assume "body k c i s p = Some (s', p')" and "shot_inv (clock s) k b p ts"
  then show "shot_inv (clock s) k b p' (ts @ (if at_exec p then [clock s] else []))"
    by (cases k; cases p) (auto simp: shot_inv_def is_shot_def restart_shot_def lock_shot_def
      goes_def split: if_splits)
qed auto

section \<open>The pace of a schedule\<close>

definition ok_range :: "int \<Rightarrow> int \<Rightarrow> IntervalRange \<Rightarrow> bool" where
  "ok_range lo hi ir \<longleftrightarrow> lo \<le> MinMinutes ir \<and> MinMinutes ir \<le> MaxMinutes ir \<and> MaxMinutes ir \<le> hi"

text \<open>Bounds on the minutes within which a duration does not wrap.\<close>

definition sane :: "int \<Rightarrow> int \<Rightarrow> bool" where
  "sane lo hi \<longleftrightarrow> 0 < lo \<and> hi \<le> 153722867"

lemma ok_range_spread:
  assumes "sane lo hi" and "ok_range lo hi ir"
  shows "spread ir = MaxMinutes ir - MinMinutes ir" and "i64 (spread ir + 1) = spread ir + 1"
proof -
  have "in_i64 (MaxMinutes ir - MinMinutes ir)" and "in_i64 (MaxMinutes ir - MinMinutes ir + 1)"
    using assms by (auto simp: sane_def ok_range_def in_i64_def)
  then show "spread ir = MaxMinutes ir - MinMinutes ir" and "i64 (spread ir + 1) = spread ir + 1"
    by (simp_all add: spread_def)
qed

lemma randomInterval_eq:
  assumes "sane lo hi" and "ok_range lo hi ir" and "rand_ok ir n"
  shows "\<exists>m. MinMinutes ir \<le> m \<and> m \<le> MaxMinutes ir \<and> randomInterval ir n = m * minute"
proof (cases "spread ir \<le> 0")
  case True
  with assms(1,2) have "MinMinutes ir = MaxMinutes ir" and "\<bar>MinMinutes ir\<bar> \<le> 153722867"
    using ok_range_spread [OF assms(1,2)] by (auto simp: ok_range_def sane_def)
  with True show ?thesis by (auto simp: randomInterval_def minutes_small)
next
  case False
  with assms(3) ok_range_spread [OF assms(1,2)] have n: "0 \<le> n" "n \<le> MaxMinutes ir - MinMinutes ir"
    by (auto simp: rand_ok_def)
  with assms(1,2) have small: "\<bar>n + MinMinutes ir\<bar> \<le> 153722867" "in_i64 (n + MinMinutes ir)"
    by (auto simp: ok_range_def sane_def in_i64_def)
  with False n show ?thesis
    by (auto simp: randomInterval_def minutes_small intro!: exI [of _ "n + MinMinutes ir"])
qed

lemma randomInterval_bounds:
  assumes "sane lo hi" and "ok_range lo hi ir" and "rand_ok ir n"
  shows "lo * minute \<le> randomInterval ir n" and "randomInterval ir n \<le> hi * minute"
proof -
  obtain m where "MinMinutes ir \<le> m" "m \<le> MaxMinutes ir" "randomInterval ir n = m * minute"
    using randomInterval_eq [OF assms] by blast
  with assms(2) show "lo * minute \<le> randomInterval ir n" and "randomInterval ir n \<le> hi * minute"
    by (auto simp: ok_range_def minute_def second_def)
qed

lemma ok_range_rand: "sane lo hi \<Longrightarrow> ok_range lo hi ir \<Longrightarrow> rand_ok ir 0"
  using ok_range_spread [of lo hi ir] by (auto simp: rand_ok_def)

text \<open>Runs in which every interval that is set lies between \<open>lo\<close> and \<open>hi\<close> minutes.\<close>

definition ranges_ok :: "int \<Rightarrow> int \<Rightarrow> 'w sys \<Rightarrow> bool" where
  "ranges_ok lo hi s \<longleftrightarrow> sane lo hi \<and> ok_range lo hi (restartInterval (sched s))
     \<and> ok_range lo hi (lockInterval (sched s))"

fun label_ok :: "int \<Rightarrow> int \<Rightarrow> label \<Rightarrow> bool" where
  "label_ok lo hi (Call (OpUpdateIntervals r l)) = (ok_range lo hi r \<and> ok_range lo hi l)"
| "label_ok lo hi _ = True"

definition paced_init :: "int \<Rightarrow> int \<Rightarrow> 'w sys \<Rightarrow> bool" where
  "paced_init lo hi s \<longleftrightarrow> is_init s \<and> ranges_ok lo hi s"

definition paced_step :: "int \<Rightarrow> int \<Rightarrow> 'w sys \<Rightarrow> label \<Rightarrow> 'w sys \<Rightarrow> bool" where
  "paced_step lo hi s l t \<longleftrightarrow> sys_step s l t \<and> label_ok lo hi l"

lemma op_ranges:
  "ranges_ok lo hi s \<Longrightarrow> label_ok lo hi (Call c) \<Longrightarrow> ranges_ok lo hi (do_op c s)"
  by (cases c) (auto simp: start_ops stop_ops other_ops ranges_ok_def Let_def case_prod_unfold
    split: option.splits)

lemma ranges_ok_step:
  assumes "ranges_ok lo hi s" and "paced_step lo hi s l t"
  shows "ranges_ok lo hi t"
proof -
  from assms(2) have "sys_step s l t" and "label_ok lo hi l" by (simp_all add: paced_step_def)
  then show ?thesis
  proof cases
    case (call_step c)
    with assms(1) \<open>label_ok lo hi l\<close> op_ranges show ?thesis by simp
  next
    case (go_step c i)
    show ?thesis
      using assms(1) go_gos [OF go_step(2)] body_frame(5,6) by (metis ranges_ok_def)
  next
    case (tick_step d)
    with assms(1) show ?thesis by (simp add: ranges_ok_def)
  qed
qed

text \<open>The goroutine draws, arms the timer, waits and executes, at most once per round.\<close>

fun loop_at :: "duration \<Rightarrow> duration \<Rightarrow> instant \<Rightarrow> instant \<Rightarrow> 'w pc \<Rightarrow> bool" where
  "loop_at lo hi now prev (LoopSet d) \<longleftrightarrow> lo \<le> d \<and> d \<le> hi"
| "loop_at lo hi now prev (LoopNotify d) \<longleftrightarrow> lo \<le> d \<and> d \<le> hi"
| "loop_at lo hi now prev (LoopCall d q) \<longleftrightarrow> lo \<le> d \<and> d \<le> hi"
| "loop_at lo hi now prev (LoopTimer d) \<longleftrightarrow> lo \<le> d \<and> d \<le> hi"
| "loop_at lo hi now prev (LoopSelect t) \<longleftrightarrow> prev + lo \<le> t \<and> t \<le> now + hi"
| "loop_at lo hi now prev LoopExec \<longleftrightarrow> prev + lo \<le> now"
| "loop_at lo hi now prev p \<longleftrightarrow> \<not> at_exec p"

definition spaced :: "duration \<Rightarrow> instant list \<Rightarrow> bool" where
  "spaced gap ts \<longleftrightarrow> successively (\<lambda>a b. a + gap \<le> b) ts"

definition loop_inv ::
  "int \<Rightarrow> int \<Rightarrow> instant \<Rightarrow> kind \<Rightarrow> instant \<Rightarrow> 'w pc \<Rightarrow> instant list \<Rightarrow> bool"
where
  "loop_inv lo hi now k b p ts \<longleftrightarrow>
     (is_loop k \<longrightarrow>
        spaced (lo * minute) (b # ts) \<and> last (b # ts) \<le> now
        \<and> loop_at (lo * minute) (hi * minute) now (last (b # ts)) p)"

lemma spaced_snoc: "spaced gap (xs @ [t]) \<longleftrightarrow> spaced gap xs \<and> (xs \<noteq> [] \<longrightarrow> last xs + gap \<le> t)"
  by (auto simp: spaced_def successively_append_iff)

lemma loop_tick: "loop_at lo hi now prev p \<Longrightarrow> now \<le> now' \<Longrightarrow> loop_at lo hi now' prev p"
  by (cases p) auto

lemma loop_inv_loop:
  "is_loop k \<Longrightarrow> loop_inv lo hi now k b p ts \<longleftrightarrow>
     spaced (lo * minute) (b # ts) \<and> last (b # ts) \<le> now
     \<and> loop_at (lo * minute) (hi * minute) now (last (b # ts)) p"
  by (simp add: loop_inv_def)

lemma loop_inv_body:
  assumes Q: "ranges_ok lo hi s" and b: "body k c i s p = Some (s', p')"
    and inv: "loop_inv lo hi (clock s) k b p ts"
  shows "loop_inv lo hi (clock s) k b p' (ts @ (if at_exec p then [clock s] else []))"
proof (cases "is_loop k")
  case False
  then show ?thesis by (simp add: loop_inv_def)
next
  case loop: True
  have r: "rand_ok ir n \<Longrightarrow> ir = restartInterval (sched s) \<or> ir = lockInterval (sched s) \<Longrightarrow>
      lo * minute \<le> randomInterval ir n \<and> randomInterval ir n \<le> hi * minute" for ir n
    using Q randomInterval_bounds by (auto simp: ranges_ok_def)
  let ?at = "loop_at (lo * minute) (hi * minute) (clock s)"
  have at: "?at (last (b # ts)) p" and le: "last (b # ts) \<le> clock s"
    and sp: "spaced (lo * minute) (b # ts)"
    using inv loop by (simp_all add: loop_inv_loop)
  show ?thesis
  proof (cases "at_exec p")
    case True
    with loop b at have "p' = LoopTop" and "last (b # ts) + lo * minute \<le> clock s"
      by (cases p; auto simp: is_loop_def restart_loop_def lock_loop_def goes_def split: if_splits)+
    with sp loop True show ?thesis
      using spaced_snoc [of "lo * minute" "b # ts" "clock s"] by (simp add: loop_inv_loop)
  next
    case False
    have "?at (last (b # ts)) p'"
      using loop b at le r
      by (cases p) (auto simp: is_loop_def restart_loop_def lock_loop_def goes_def Let_def
        case_prod_unfold simp del: last.simps split: choice.splits if_splits)
    with False sp le loop show ?thesis by (simp add: loop_inv_loop)
  qed
qed

interpretation loops: goroutine_invariant "paced_step lo hi :: 'w sys \<Rightarrow> label \<Rightarrow> 'w sys \<Rightarrow> bool"
  "ranges_ok lo hi" "loop_inv lo hi"
proof unfold_locales
  fix now k
  show "loop_inv lo hi now k now (start_pc k :: 'w pc) []"
    by (cases k) (simp_all add: loop_inv_def is_loop_def spaced_def)
next
  fix now now' b k ts and p :: "'w pc"
  show "loop_inv lo hi now k b p ts \<Longrightarrow> now \<le> now' \<Longrightarrow> loop_inv lo hi now' k b p ts"
    using loop_tick by (fastforce simp: loop_inv_def)
next
  fix k c i p p' b ts and s s' :: "'w sys"
  assume "ranges_ok lo hi s" and "body k c i s p = Some (s', p')" and "loop_inv lo hi (clock s) k b p ts"
  then show "loop_inv lo hi (clock s) k b p' (ts @ (if at_exec p then [clock s] else []))"
    by (rule loop_inv_body)
qed (auto simp: paced_step_def intro: ranges_ok_step)

end
