(* ===== verification/Handling.thy ===== *)
theory Handling
  imports Handlers Guard Runs
begin

text \<open>
  What the handlers of \<open>server/handlers.go\<close> do to the state of the server: they leave the table
  of failed logins alone, they act on the scheduler through its methods only, requests that only
  read change nothing, and the handlers of the configuration keep the configuration well-formed.
  The properties at the end are about requests through the middleware, the update of the
  configuration on every branch, and logging out.
\<close>

section \<open>What a handler changes\<close>

definition do_ops :: "op list \<Rightarrow> 'w sys \<Rightarrow> 'w sys" where
  "do_ops cs s = fold do_op cs s"

lemma do_ops_simps [simp]: "do_ops [] s = s" "do_ops (c # cs) s = do_ops cs (do_op c s)"
  by (simp_all add: do_ops_def)

definition cancel_ops :: "CancelRequest \<Rightarrow> op list" where
  "cancel_ops q =
     (if reqRestartSchedule q then [OpStopRestartSchedule] else [])
     @ (if reqLockSchedule q then [OpStopLockSchedule] else [])
     @ (if reqRestartOnce q then [OpCancelRestartOnce] else [])
     @ (if reqLockOnce q then [OpCancelLockOnce] else [])"

lemma Cancel_ops: "Cancel q s = do_ops (cancel_ops q) s"
  by (simp add: Cancel_def cancel_ops_def Let_def)

definition reset_ops :: "op list" where
  "reset_ops =
     [OpStopRestartSchedule, OpStopLockSchedule, OpCancelRestartOnce, OpCancelLockOnce, OpStateReset]"

lemma ResetAll_ops: "ResetAll s = do_ops reset_ops s"
  by (simp add: ResetAll_def Cancel_def reset_ops_def)

lemma server_simps [simp]:
  "sys_of (set_disk w s) = (sys_of s)\<lparr>world := w\<rparr>" "sys_of (on_sys f s) = f (sys_of s)"
  "tracker (set_disk w s) = tracker s" "tracker (on_sys f s) = tracker s"
  "holder (set_disk w s) = holder s" "holder (on_sys f s) = holder s"
  "store (set_disk w s) = store s" "store (on_sys f s) = store s"
  "upd (set_disk w s) = upd s" "upd (on_sys f s) = upd s"
  "logger (set_disk w s) = logger s" "logger (on_sys f s) = logger s"
  "upgradeInProgress (set_disk w s) = upgradeInProgress s" "upgradeInProgress (on_sys f s) = upgradeInProgress s"
  "preparing (set_disk w s) = preparing s" "preparing (on_sys f s) = preparing s"
  "upgrading (set_disk w s) = upgrading s" "upgrading (on_sys f s) = upgrading s"
  "timers (set_disk w s) = timers s" "timers (on_sys f s) = timers s"
  "disk (set_disk w s) = w"
  by (simp_all add: set_disk_def on_sys_def disk_def)

lemma install_simps [simp]:
  "sys_of (install_config c s) = UpdateIntervals (restart_range c) (lock_range c) (sys_of s)"
  "holder (install_config c s) = holder s" "tracker (install_config c s) = tracker s"
  "upd (install_config c s) = upd s" "upgradeInProgress (install_config c s) = upgradeInProgress s"
  "preparing (install_config c s) = preparing s" "upgrading (install_config c s) = upgrading s"
  "timers (install_config c s) = timers s" "logger (install_config c s) = Setup (LogLevel c)"
  "store (install_config c s) = updateTimeout (SessionTimeoutMinutes c) (store s)"
  by (simp_all add: install_config_def)

lemma install_disk [simp]: "disk (install_config c s) = disk s"
  by (simp add: install_config_def disk_def on_sys_def UpdateIntervals_def)

lemma resp_simps [simp]:
  "resp_status (ok_map ms) = 200" "resp_status (fail_map c ms) = c"
  "resp_status methodNotAllowed = 405" "resp_status (writeJSON (Some j)) = 200"
  by (simp_all add: ok_map_def fail_map_def methodNotAllowed_def writeJSON_def)

lemmas read_handlers = status_handler_def configGet_def updateStatus_def
lemmas scheduler_handlers = restartOnce_def restartSchedule_def lockOnce_def lockSchedule_def
  reset_handler_def cancel_handler_def
lemmas config_handlers = configUpdate_def configReload_def configSetLogLevel_def
lemmas update_handlers = updateCheck_def updateApply_def claim_upgrade_def prepare_upgrade_def

text \<open>Only POST and DELETE change anything.\<close>

definition writes :: "request \<Rightarrow> bool" where
  "writes r \<longleftrightarrow> req_method r = ''POST'' \<or> req_method r = ''DELETE''"

text \<open>What holds of every registered handler holds of the router.\<close>

lemma route_handler:
  "(\<exists>h \<in> snd ` set (mux pf). route pf e r s = h r s) \<or> route pf e r s = (static_files pf r, s)"
proof (cases "map_of (mux pf) (req_path r)")
  case None
  then show ?thesis by (simp add: route_def)
next
  case (Some h)
  then have "h \<in> snd ` set (mux pf)" by (force dest: map_of_SomeD)
  with Some show ?thesis by (auto simp: route_def)
qed

lemma route_rule:
  assumes "list_all (\<lambda>(p, h). Q (snd (h r s))) (mux pf)" and "Q s"
  shows "Q (snd (route pf e r s))"
  using route_handler [of pf e r s] assms by (auto simp: list_all_iff)

lemma route_reads: "\<not> writes r \<Longrightarrow> snd (route pf e r s) = s"
  by (rule route_rule) (simp_all add: mux_def writes_def read_handlers scheduler_handlers config_handlers
    logout_def updateCheck_def updateApply_def Let_def)

section \<open>The tracker\<close>

lemma config_handler_tracker:
  "tracker (snd (configUpdate r s)) = tracker s" "tracker (snd (configReload r s)) = tracker s"
  "tracker (snd (configSetLogLevel r s)) = tracker s"
  by (simp_all add: config_handlers Let_def case_prod_unfold split: option.split sum.split prod.split)

lemma update_handler_tracker:
  "tracker (snd (updateCheck pf r s)) = tracker s" "tracker (snd (updateApply pf r s)) = tracker s"
  by (simp_all add: update_handlers Let_def case_prod_unfold split: option.split sum.split prod.split)

lemma route_keeps_tracker: "keeps_tracker (route pf)"
  unfolding keeps_tracker_def
proof (intro allI)
  fix e r s
  show "tracker (snd (route pf e r s)) = tracker s"
    by (rule route_rule) (simp_all add: mux_def config_handler_tracker update_handler_tracker read_handlers
      scheduler_handlers logout_def Let_def split: option.split)
qed

section \<open>The scheduler\<close>

text \<open>
  A handler acts on the scheduler by calling its methods, and on the disk; the intervals that it
  sets come from a configuration that has been loaded.
\<close>

definition acts :: "server \<Rightarrow> server \<Rightarrow> bool" where
  "acts s t \<longleftrightarrow>
     (\<exists>cs w. sys_of t = (do_ops cs (sys_of s))\<lparr>world := w\<rparr> \<and> (\<forall>c \<in> set cs. label_ok 1 1440 (Call c)))"

lemma actsI:
  "sys_of t = (do_ops cs (sys_of s))\<lparr>world := w\<rparr> \<Longrightarrow> \<forall>c \<in> set cs. label_ok 1 1440 (Call c) \<Longrightarrow> acts s t"
  unfolding acts_def by blast

lemma acts_ops: "sys_of t = do_ops cs (sys_of s) \<Longrightarrow> \<forall>c \<in> set cs. label_ok 1 1440 (Call c) \<Longrightarrow> acts s t"
  by (rule actsI [where cs = cs and w = "world (sys_of t)"]) simp_all

lemma acts_disk: "sys_of t = (sys_of s)\<lparr>world := w\<rparr> \<Longrightarrow> acts s t"
  by (rule actsI [where cs = "[]"]) simp_all

lemma acts_refl [simp]: "acts s s"
  by (rule acts_ops [where cs = "[]"]) simp_all

lemma config_ranges:
  "valid_config c \<Longrightarrow> ok_range 1 1440 (restart_range c) \<and> ok_range 1 1440 (lock_range c)"
  by (simp add: valid_config_def ok_range_def restart_range_def lock_range_def)

lemma acts_install:
  assumes "valid_config c" and "sys_of t = (sys_of s)\<lparr>world := w\<rparr>"
  shows "acts s (install_config c t)"
  using assms config_ranges [OF assms(1)]
  by (intro actsI [where cs = "[OpUpdateIntervals (restart_range c) (lock_range c)]" and w = w])
    (simp_all add: UpdateIntervals_def)

lemma reload_cases:
  "(\<exists>e w'. reload ch w = (Inl e, ch, w'))
   \<or> (\<exists>c w'. reload ch w = (Inr c, ch\<lparr>ch_cfg := c\<rparr>, w') \<and> valid_config c)"
  by (auto simp: reload_def split: sum.split prod.split dest: Load_valid_config)

lemma acts_scheduler_handlers:
  "acts s (snd (restartOnce r s))" "acts s (snd (restartSchedule r s))" "acts s (snd (lockOnce r s))"
  "acts s (snd (lockSchedule r s))" "acts s (snd (reset_handler r s))" "acts s (snd (cancel_handler r s))"
proof -
  have "sys_of t = do_op c (sys_of s) \<Longrightarrow> label_ok 1 1440 (Call c) \<Longrightarrow> acts s t" for c t
    by (rule acts_ops [where cs = "[c]"]) simp_all
  from this [of _ OpRestartOnce] this [of _ OpStartRestartSchedule] this [of _ OpStopRestartSchedule]
    this [of _ OpLockOnce] this [of _ OpStartLockSchedule] this [of _ OpStopLockSchedule]
  show "acts s (snd (restartOnce r s))" "acts s (snd (restartSchedule r s))" "acts s (snd (lockOnce r s))"
    "acts s (snd (lockSchedule r s))"
    by (simp_all add: scheduler_handlers)
  show "acts s (snd (reset_handler r s))"
    using acts_ops [where t = "on_sys ResetAll s" and cs = reset_ops and s = s]
    by (simp add: scheduler_handlers ResetAll_ops) (simp add: reset_ops_def)
  have "acts s (on_sys (Cancel q) s)" for q
    by (rule acts_ops [where cs = "cancel_ops q"]) (auto simp: Cancel_ops cancel_ops_def)
  then show "acts s (snd (cancel_handler r s))"
    by (simp add: cancel_handler_def split: option.split)
qed

text \<open>The branches of \<open>configReload\<close> and \<open>configUpdate\<close>.\<close>

lemma configReload_ok:
  assumes "req_method r = ''POST''" and "reload (holder s) (disk s) = (Inr c, ch, w)"
  shows "configReload r s =
    (ok_map [(''status'', ''configuration reloaded'')], install_config c (set_disk w (s\<lparr>holder := ch\<rparr>)))"
  using assms by (simp add: configReload_def)

lemma configReload_error:
  assumes "req_method r = ''POST''" and "reload (holder s) (disk s) = (Inl e, ch, w)"
  shows "configReload r s = (http_error ''config reload failed'' 500, set_disk w (s\<lparr>holder := ch\<rparr>))"
  using assms by (simp add: configReload_def)

lemma configReload_rule:
  assumes "Q s" and "\<And>w. Q (set_disk w s)"
    and "\<And>c w. valid_config c \<Longrightarrow> Q (install_config c (set_disk w (s\<lparr>holder := (holder s)\<lparr>ch_cfg := c\<rparr>\<rparr>)))"
  shows "Q (snd (configReload r s))"
proof (cases "req_method r = ''POST''")
  case True
  from reload_cases [of "holder s" "disk s"] show ?thesis
  proof (elim disjE exE conjE)
    fix e w assume "reload (holder s) (disk s) = (Inl e, holder s, w)"
    then show ?thesis using assms(2) [of w] by (simp add: configReload_error [OF True])
  next
    fix c w assume "reload (holder s) (disk s) = (Inr c, holder s\<lparr>ch_cfg := c\<rparr>, w)" and "valid_config c"
    then show ?thesis using assms(3) [of c w] by (simp add: configReload_ok [OF True])
  qed
qed (simp add: configReload_def assms(1))

definition decode_settings :: "request \<Rightarrow> settings option" where
  "decode_settings r =
     unmarshal settings_fields set_settings_field no_settings (json_decode (req_body r))"

definition with_settings :: "settings \<Rightarrow> server \<Rightarrow> configHolder" where
  "with_settings q s = (holder s)\<lparr>ch_cfg := apply_settings q (ch_cfg (holder s))\<rparr>"

text \<open>The state after the settings have been stored in memory and written, or not, to the disk.\<close>

definition stored :: "settings \<Rightarrow> server \<Rightarrow> server" where
  "stored q s =
     set_disk (snd (Save (apply_settings q (ch_cfg (holder s))) (ch_path (holder s)) (disk s)))
       (s\<lparr>holder := with_settings q s\<rparr>)"

definition saves :: "settings \<Rightarrow> server \<Rightarrow> bool" where
  "saves q s \<longleftrightarrow> fst (Save (apply_settings q (ch_cfg (holder s))) (ch_path (holder s)) (disk s))"

lemma stored_simps [simp]:
  "holder (stored q s) = with_settings q s" "store (stored q s) = store s"
  "tracker (stored q s) = tracker s" "logger (stored q s) = logger s" "upd (stored q s) = upd s"
  "sched (sys_of (stored q s)) = sched (sys_of s)" "upgradeInProgress (stored q s) = upgradeInProgress s"
  "preparing (stored q s) = preparing s" "upgrading (stored q s) = upgrading s" "timers (stored q s) = timers s"
  by (simp_all add: stored_def)

lemma stored_holder [simp]: "stored q s\<lparr>holder := with_settings q s\<rparr> = stored q s"
  by (simp add: stored_def set_disk_def)

lemma stored_sys: "\<exists>w. sys_of (stored q s) = (sys_of s)\<lparr>world := w\<rparr>"
  by (auto simp: stored_def)

lemma configUpdate_bad:
  "req_method r = ''POST'' \<Longrightarrow> decode_settings r = None \<Longrightarrow>
     configUpdate r s = (fail_map 400 [(''error'', ''invalid JSON'')], s)"
  by (simp add: configUpdate_def decode_settings_def)

lemma configUpdate_invalid:
  "req_method r = ''POST'' \<Longrightarrow> decode_settings r = Some q \<Longrightarrow> settings_errors q \<noteq> [] \<Longrightarrow>
     snd (configUpdate r s) = s \<and> resp_status (fst (configUpdate r s)) = 400"
  by (simp add: configUpdate_def decode_settings_def)

lemma configUpdate_unsaved:
  assumes "req_method r = ''POST''" and "decode_settings r = Some q" and "settings_errors q = []"
    and "\<not> saves q s"
  shows "configUpdate r s = (fail_map 500 [(''error'', ''failed to save config'')], stored q s)"
  using assms
  by (simp add: configUpdate_def decode_settings_def stored_def with_settings_def saves_def case_prod_unfold Let_def)

lemma configUpdate_unreloaded:
  assumes "req_method r = ''POST''" and "decode_settings r = Some q" and "settings_errors q = []"
    and "saves q s" and "reload (holder (stored q s)) (disk (stored q s)) = (Inl e, ch, w)"
  shows "configUpdate r s =
    (fail_map 500 [(''error'', ''saved but reload failed'')], set_disk w (stored q s\<lparr>holder := ch\<rparr>))"
  using assms
  by (simp add: configUpdate_def decode_settings_def stored_def with_settings_def saves_def case_prod_unfold Let_def)

lemma configUpdate_done:
  assumes "req_method r = ''POST''" and "decode_settings r = Some q" and "settings_errors q = []"
    and "saves q s" and "reload (holder (stored q s)) (disk (stored q s)) = (Inr c, ch, w)"
  shows "configUpdate r s =
    (ok_map [(''status'', ''configuration saved'')], install_config c (set_disk w (stored q s\<lparr>holder := ch\<rparr>)))"
  using assms
  by (simp add: configUpdate_def decode_settings_def stored_def with_settings_def saves_def case_prod_unfold Let_def)

text \<open>A rule for what holds after an update of the configuration.\<close>

lemma configUpdate_rule:
  assumes "Q s"
    and "\<And>q. settings_errors q = [] \<Longrightarrow> Q (stored q s)"
    and "\<And>q w. settings_errors q = [] \<Longrightarrow> Q (set_disk w (stored q s))"
    and "\<And>q c w. settings_errors q = [] \<Longrightarrow> valid_config c \<Longrightarrow>
      Q (install_config c (set_disk w (stored q s\<lparr>holder := (with_settings q s)\<lparr>ch_cfg := c\<rparr>\<rparr>)))"
  shows "Q (snd (configUpdate r s))"
proof (cases "req_method r = ''POST''")
  case False
  then show ?thesis using assms(1) by (simp add: configUpdate_def)
next
  case post: True
  show ?thesis
  proof (cases "decode_settings r")
    case None
    then show ?thesis using assms(1) configUpdate_bad [OF post] by simp
  next
    case (Some q)
    note q = post Some
    show ?thesis
    proof (cases "settings_errors q = []")
      case False
      then show ?thesis using assms(1) configUpdate_invalid [OF q] by simp
    next
      case True
      show ?thesis
      proof (cases "saves q s")
        case False
        then show ?thesis using assms(2) [OF True] configUpdate_unsaved [OF q True] by simp
      next
        case saved: True
        from reload_cases [of "holder (stored q s)" "disk (stored q s)"] show ?thesis
        proof (elim disjE exE conjE)
          fix e w assume "reload (holder (stored q s)) (disk (stored q s)) = (Inl e, holder (stored q s), w)"
          from configUpdate_unreloaded [OF q True saved this] assms(3) [OF True, of w]
          show ?thesis by simp
        next
          fix c w
          assume "reload (holder (stored q s)) (disk (stored q s)) = (Inr c, holder (stored q s)\<lparr>ch_cfg := c\<rparr>, w)"
            and c: "valid_config c"
          from configUpdate_done [OF q True saved this(1)] assms(4) [OF True c, of w]
          show ?thesis by simp
        qed
      qed
    qed
  qed
qed

lemma acts_config_handlers:
  "acts s (snd (configUpdate r s))" "acts s (snd (configReload r s))" "acts s (snd (configSetLogLevel r s))"
proof -
  show "acts s (snd (configUpdate r s))"
  proof (rule configUpdate_rule)
    fix q c w assume "valid_config c"
    then show "acts s (install_config c (set_disk w (stored q s\<lparr>holder := (with_settings q s)\<lparr>ch_cfg := c\<rparr>\<rparr>)))"
      by (rule acts_install [where w = w]) (simp add: stored_def)
  qed (simp_all add: acts_disk stored_def)
  show "acts s (snd (configReload r s))"
    by (rule configReload_rule) (auto intro: acts_disk acts_install)
  show "acts s (snd (configSetLogLevel r s))"
    by (simp add: configSetLogLevel_def Let_def case_prod_unfold acts_disk)
qed

text \<open>The branches of \<open>prepare_upgrade\<close>.\<close>

lemma prepare_rule:
  assumes "Q (s\<lparr>preparing := preparing s - 1, upgradeInProgress := False\<rparr>)"
    and "\<And>w. Q (set_disk w (s\<lparr>preparing := preparing s - 1, upgradeInProgress := False\<rparr>))"
    and "\<And>w tmp. Q (set_disk w (s\<lparr>preparing := preparing s - 1, upgrading := upgrading s @ [tmp]\<rparr>))"
  shows "Q (snd (prepare_upgrade pf s))"
proof -
  let ?s = "s\<lparr>preparing := preparing s - 1\<rparr>"
  show ?thesis
  proof (cases "preflight pf (disk ?s) \<noteq> [] \<or> \<not> Available (Cached (upd s))")
    case True
    then show ?thesis using assms(1) by (auto simp: prepare_upgrade_def Let_def)
  next
    case False
    obtain x w where d: "Download (net pf) (tempName pf) (Cached (upd s)) (disk ?s) = (x, w)"
      by (cases "Download (net pf) (tempName pf) (Cached (upd s)) (disk ?s)")
    show ?thesis
      using False d assms(2) [of w] assms(3) [of w] by (cases x) (auto simp: prepare_upgrade_def Let_def)
  qed
qed

lemma updateApply_rule:
  assumes "Q s" and "\<not> upgradeInProgress s \<Longrightarrow>
    Q (snd (prepare_upgrade pf (s\<lparr>upgradeInProgress := True, preparing := Suc (preparing s)\<rparr>)))"
  shows "Q (snd (updateApply pf r s))"
  using assms by (cases "upgradeInProgress s") (simp_all add: updateApply_def claim_upgrade_def)

lemma updateCheck_rule:
  assumes "Q s" and "Q (s\<lparr>upd := snd (Updater.Check (net pf) (upd s))\<rparr>)"
  shows "Q (snd (updateCheck pf r s))"
  using assms by (cases "Updater.Check (net pf) (upd s)") (auto simp: updateCheck_def split: sum.split)

lemma acts_prepare: "acts s (snd (prepare_upgrade pf s))"
  by (rule prepare_rule) (simp_all add: acts_disk acts_ops [where cs = "[]"])

lemma acts_trans_sys: "sys_of s' = sys_of s \<Longrightarrow> acts s' t \<Longrightarrow> acts s t"
  by (simp add: acts_def)

lemma acts_update_handlers: "acts s (snd (updateCheck pf r s))" "acts s (snd (updateApply pf r s))"
proof -
  show "acts s (snd (updateCheck pf r s))"
    by (rule updateCheck_rule) (simp_all add: acts_ops [where cs = "[]"])
  show "acts s (snd (updateApply pf r s))"
    by (rule updateApply_rule) (auto intro: acts_trans_sys [OF _ acts_prepare])
qed

lemma route_acts: "acts s (snd (route pf e r s))"
  by (rule route_rule) (simp_all add: mux_def acts_scheduler_handlers acts_config_handlers
    acts_update_handlers acts_ops [where cs = "[]"] read_handlers logout_def Let_def split: option.split)

section \<open>The configuration in memory\<close>

lemma known_levels [simp]: "known_level ''debug''" "known_level ''info''" "known_level ''error''"
  by (simp_all add: known_level_def)

lemma settings_errors_iff:
  "settings_errors q = [] \<longleftrightarrow>
     1 \<le> setSessionTimeout q \<and> 1 \<le> setUpdateCheck q
     \<and> 1 \<le> setRestartMin q \<and> setRestartMin q \<le> setRestartMax q \<and> setRestartMax q \<le> 1440
     \<and> 1 \<le> setLockMin q \<and> setLockMin q \<le> setLockMax q \<and> setLockMax q \<le> 1440
     \<and> known_level (setLevel q)"
  by (auto simp: settings_errors_def)

lemma apply_settings_valid:
  "settings_errors q = [] \<Longrightarrow> valid_config c \<Longrightarrow> valid_config (apply_settings q c)"
  by (simp add: settings_errors_iff valid_config_def apply_settings_def)

definition settings_i64 :: "settings \<Rightarrow> bool" where
  "settings_i64 q \<longleftrightarrow>
     in_i64 (setSessionTimeout q) \<and> in_i64 (setRestartMin q) \<and> in_i64 (setRestartMax q)
     \<and> in_i64 (setLockMin q) \<and> in_i64 (setLockMax q) \<and> in_i64 (setUpdateCheck q)"

lemma decode_settings_i64:
  assumes "decode_settings r = Some q"
  shows "settings_i64 q"
proof (rule unmarshal_keeps [of settings_fields set_settings_field no_settings])
  show "unmarshal settings_fields set_settings_field no_settings (json_decode (req_body r)) = Some q"
    using assms by (simp add: decode_settings_def)
  show "settings_i64 no_settings" by (simp add: settings_i64_def no_settings_def in_i64_def)
  show "settings_i64 (fst (set_settings_field n v x))" if "settings_i64 x" for n v x
    unfolding set_settings_field_def using that
    by (simp only: split: if_split, intro conjI impI)
      ((rule set_int_keeps set_string_keeps; simp add: settings_i64_def)+)
qed

lemma apply_settings_fields:
  "settings_i64 q \<Longrightarrow> int_fields_ok c \<Longrightarrow> int_fields_ok (apply_settings q c)"
  "Username (apply_settings q c) = Username c" "Port (apply_settings q c) = Port c"
  "password (apply_settings q c) = password c" "PasswordB64 (apply_settings q c) = PasswordB64 c"
  by (simp_all add: settings_i64_def int_fields_ok_def apply_settings_def)

lemma setLogLevel_valid:
  assumes "valid_config (ch_cfg ch)" and "known_level l"
  shows "valid_config (ch_cfg (fst (snd (setLogLevel l ch w))))"
proof -
  have level: "valid_config ((ch_cfg ch)\<lparr>LogLevel := x\<rparr>)" if "known_level x" for x
    using assms(1) that by (simp add: valid_config_def)
  have "known_level (LogLevel (ch_cfg ch))" using assms(1) by (simp add: valid_config_def)
  obtain ok w' where "Save ((ch_cfg ch)\<lparr>LogLevel := l\<rparr>) (ch_path ch) w = (ok, w')" by fastforce
  with level [OF assms(2)] level [OF \<open>known_level (LogLevel (ch_cfg ch))\<close>] show ?thesis
    by (cases ok) (simp_all add: setLogLevel_def Let_def)
qed

text \<open>The configuration in memory stays well-formed, whatever the request and the disk.\<close>

definition config_ok :: "server \<Rightarrow> bool" where
  "config_ok s \<longleftrightarrow> valid_config (ch_cfg (holder s))"

lemma config_ok_update:
  assumes "config_ok s"
  shows "config_ok (snd (configUpdate r s))"
  by (rule configUpdate_rule)
    (use assms in \<open>simp_all add: config_ok_def with_settings_def apply_settings_valid\<close>)

lemma config_ok_reload:
  assumes "config_ok s"
  shows "config_ok (snd (configReload r s))"
  by (rule configReload_rule) (use assms in \<open>simp_all add: config_ok_def\<close>)

lemma config_ok_level:
  assumes "config_ok s"
  shows "config_ok (snd (configSetLogLevel r s))"
  using assms setLogLevel_valid [of "holder s" "query_level r" "disk s"]
  by (simp add: configSetLogLevel_def Let_def case_prod_unfold config_ok_def)

lemma other_handlers_holder:
  "holder (snd (updateCheck pf r s)) = holder s" "holder (snd (updateApply pf r s)) = holder s"
proof -
  show "holder (snd (updateCheck pf r s)) = holder s" by (rule updateCheck_rule) simp_all
  show "holder (snd (updateApply pf r s)) = holder s"
    by (rule updateApply_rule) (simp, rule prepare_rule, simp_all)
qed

lemma route_config_ok: "config_ok s \<Longrightarrow> config_ok (snd (route pf e r s))"
  by (rule route_rule) (simp_all add: mux_def config_ok_update config_ok_reload config_ok_level,
    simp_all add: config_ok_def other_handlers_holder read_handlers scheduler_handlers logout_def
      Let_def split: option.split)

lemma more_fields:
  fixes s t :: server
  assumes "auth.more s = auth.more t"
  shows "sys_of s = sys_of t" "upd s = upd t" "logger s = logger t" "version s = version t"
    "upgradeInProgress s = upgradeInProgress t" "preparing s = preparing t" "upgrading s = upgrading t"
    "timers s = timers t"
  using assms by (cases s; cases t; simp)+

section \<open>Concrete servers for the witnesses\<close>

definition demo_platform :: platform where
  "demo_platform =
     \<lparr>windows = True, net = (\<lambda>_. HttpError), tempName = Some ''t'', machine = demo_machine,
      showTime = (\<lambda>_. Some []), errorText = (\<lambda>_. []),
      static_files = (\<lambda>_. http_error ''404 page not found'' 404)\<rparr>"

definition demo_site :: server where
  "demo_site =
     New_server defaults ''c''
       (init_sys False (restart_range defaults) (lock_range defaults) None empty_disk 0)
       (NewUpdater ''1.2.7'' []) ''1.2.7'' SlogInfo"

definition demo_post :: "string \<Rightarrow> string \<Rightarrow> string \<Rightarrow> request" where
  "demo_post path auth txt =
     \<lparr>req_method = ''POST'', req_path = path, remoteAddr = ''h:1'', cookies = [],
      authorization = auth, query_level = ''debug'', req_body = txt\<rparr>"

lemmas demo_site_defs = demo_site_def New_server_def demo_post_def

lemma demo_site_simps [simp]:
  "holder demo_site = \<lparr>ch_cfg = defaults, ch_path = ''c''\<rparr>" "disk demo_site = empty_disk"
  "tracker demo_site = newLoginTracker" "store demo_site = newSessionStore 30"
  by (simp_all add: demo_site_def New_server_def newConfigHolder_def disk_def init_sys_def defaults_def)

lemma demo_authorised: "authorised (demo_env 0) (demo_post path good_auth txt) demo_site"
proof -
  let ?r = "demo_post path good_auth txt" and ?e = "demo_env 0"
  have "\<not> host_locked ?e ?r demo_site"
    by (simp add: host_locked_def isLocked_def newLoginTracker_def)
  moreover have "find_cookie n ?r = None" for n by (simp add: find_cookie_def demo_post_def)
  moreover have "basic_auth_header ?r = basic_auth_header (demo_request good_auth [])"
    by (simp add: basic_auth_header_def demo_post_def demo_request_def)
  then have "credentials_ok ?r demo_site"
    using demo_credentials [of "[]"] by (simp add: credentials_ok_def demo_server_def newConfigHolder_def)
  ultimately show ?thesis
    by (simp add: authorised_def demo_env_def)
qed

definition demo_settings :: settings where
  "demo_settings =
     \<lparr>setSessionTimeout = 10, setRestartMin = 1, setRestartMax = 2, setLockMin = 3, setLockMax = 4,
      setUpdateCheck = 60, setLevel = ''debug''\<rparr>"

definition settings_to_json :: "settings \<Rightarrow> json" where
  "settings_to_json q =
     JObj [(''session_timeout_minutes'', JNum (itoa (setSessionTimeout q))),
           (''restart_min_minutes'', JNum (itoa (setRestartMin q))),
           (''restart_max_minutes'', JNum (itoa (setRestartMax q))),
           (''lock_min_minutes'', JNum (itoa (setLockMin q))),
           (''lock_max_minutes'', JNum (itoa (setLockMax q))),
           (''update_check_minutes'', JNum (itoa (setUpdateCheck q))),
           (''log_level'', JStr (setLevel q))]"

definition demo_update :: request where
  "demo_update = demo_post ''/api/config/update'' [] (json_marshal (settings_to_json demo_settings))"

lemma demo_update_decodes: "decode_settings demo_update = Some demo_settings"
proof -
  have "json_good (settings_to_json demo_settings)"
    by (simp add: json_good_def settings_to_json_def demo_settings_def max_nesting_def ascii_valid_utf8
      ascii_def)
  then have "json_decode (json_marshal (settings_to_json demo_settings)) = Some (settings_to_json demo_settings)"
    by (rule json_stream.dec_enc)
  then show ?thesis
    by (simp add: decode_settings_def demo_update_def demo_post_def)
      (simp add: unmarshal_def set_struct_def settings_to_json_def settings_fields_def
        set_settings_field_def set_scalar no_settings_def demo_settings_def in_i64_def)
qed

lemma demo_settings_ok: "settings_errors demo_settings = []"
  by (simp add: settings_errors_iff demo_settings_def)

section \<open>Properties\<close>

text \<open>
  C2: no change without authority: where a request to the server changes the configuration in
  memory, the scheduler, the disk, the updater, the level of the logger or the state of an
  upgrade, the request was authorised (a live session, or the configured credentials, from a host
  that is not locked out), its method was POST or DELETE, and its path one of the API.
\<close>

theorem changes_need_authority:
  assumes "holder (snd (handle pf e r s)) \<noteq> holder s \<or> auth.more (snd (handle pf e r s)) \<noteq> auth.more s"
  shows "authorised e r s \<and> writes r \<and> map_of (mux pf) (req_path r) \<noteq> None"
proof (cases "authorised e r s")
  case False
  then show ?thesis
    using assms guard_denied [of e r s "route pf"] by (simp add: handle_def)
next
  case True
  then obtain s' where "snd (handle pf e r s) = snd (route pf e r s')" "holder s' = holder s"
    "auth.more s' = auth.more s"
    by (rule guard_passes [where nx = "route pf"]) (auto simp: handle_def)
  with assms have change: "snd (route pf e r s') \<noteq> s'" by auto
  then have "writes r" using route_reads [of r pf e s'] by argo
  moreover have "map_of (mux pf) (req_path r) \<noteq> None"
  proof
    assume "map_of (mux pf) (req_path r) = None"
    then have "snd (route pf e r s') = s'" by (simp only: route_def option.case snd_conv)
    with change show False by simp
  qed
  ultimately show ?thesis using True by blast
qed

theorem changes_need_authority_witness:
  "authorised (demo_env 0) (demo_post ''/api/config/loglevel'' good_auth []) demo_site"
proof -
  let ?r = "demo_post ''/api/config/loglevel'' good_auth []" and ?e = "demo_env 0"
  note auth = demo_authorised [of "''/api/config/loglevel''" "[]"]
  obtain s' where s': "snd (handle demo_platform ?e ?r demo_site) = snd (route demo_platform ?e ?r s')"
    and h: "holder s' = holder demo_site" and m: "auth.more s' = auth.more demo_site"
    by (rule guard_passes [OF auth, where nx = "route demo_platform"]) (auto simp: handle_def)
  have "route demo_platform ?e ?r s' = configSetLogLevel ?r s'"
    by (simp add: route_def mux_def demo_post_def)
  moreover have "disk s' = empty_disk"
    using more_fields(1) [OF m] demo_site_simps(2) unfolding disk_def by simp
  then have "LogLevel (ch_cfg (holder (snd (configSetLogLevel ?r s')))) = ''debug''"
    using h by (simp add: configSetLogLevel_def demo_post_def setLogLevel_def Let_def Save_def
      os_WriteFile_def empty_disk_def)
  moreover have "LogLevel (ch_cfg (holder demo_site)) = ''info''" by (simp add: defaults_def)
  ultimately have "holder (snd (handle demo_platform ?e ?r demo_site)) \<noteq> holder demo_site"
    using s' by auto
  then show ?thesis using changes_need_authority [of demo_platform ?e ?r demo_site] by blast
qed

text \<open>
  An update of the settings is answered with 400, and changes nothing at all, exactly if the
  body is not a JSON object with fields of the right types, or a value is out of its range: the
  timeout and the update interval are at least a minute, both intervals are ordered and lie
  within a day, and the level is one of the three.
\<close>

theorem configUpdate_rejects:
  assumes "req_method r = ''POST''"
  shows "if (case decode_settings r of None \<Rightarrow> False
             | Some q \<Rightarrow>
                 1 \<le> setSessionTimeout q \<and> 1 \<le> setUpdateCheck q
                 \<and> 1 \<le> setRestartMin q \<and> setRestartMin q \<le> setRestartMax q \<and> setRestartMax q \<le> 1440
                 \<and> 1 \<le> setLockMin q \<and> setLockMin q \<le> setLockMax q \<and> setLockMax q \<le> 1440
                 \<and> known_level (setLevel q))
    then resp_status (fst (configUpdate r s)) \<in> {200, 500}
    else resp_status (fst (configUpdate r s)) = 400 \<and> snd (configUpdate r s) = s"
proof (cases "decode_settings r")
  case None
  then show ?thesis using configUpdate_bad [OF assms] by simp
next
  case (Some q)
  note q = assms Some
  show ?thesis
  proof (cases "settings_errors q = []")
    case False
    then show ?thesis using configUpdate_invalid [OF q] Some settings_errors_iff by auto
  next
    case True
    have "resp_status (fst (configUpdate r s)) \<in> {200, 500}"
    proof (cases "saves q s")
      case False
      then show ?thesis using configUpdate_unsaved [OF q True] by simp
    next
      case saved: True
      obtain x ch w where "reload (holder (stored q s)) (disk (stored q s)) = (x, ch, w)"
        by (metis prod_cases3)
      then show ?thesis
        using configUpdate_done [OF q True saved] configUpdate_unreloaded [OF q True saved]
        by (cases x) simp_all
    qed
    then show ?thesis using True Some settings_errors_iff [of q] by simp
  qed
qed

theorem configUpdate_rejects_witness:
  "resp_status (fst (configUpdate (demo_post ''/api/config/update'' [] ''?'') demo_site)) = 400"
proof -
  have "json_decode ''?'' = None" by code_simp
  then have "decode_settings (demo_post ''/api/config/update'' [] ''?'') = None"
    by (simp add: decode_settings_def demo_post_def)
  then show ?thesis
    using configUpdate_rejects [of "demo_post ''/api/config/update'' [] ''?''" demo_site]
    by (simp add: demo_post_def)
qed

text \<open>
  C13: a valid update on a disk that works takes effect everywhere at once: it is answered with
  200; the configuration in memory, the file (as the next start will load it), the intervals of
  the scheduler, the timeout of new sessions and the level of the logger all have the new values;
  port and credentials are kept, and so are the sessions and the running goroutines.
\<close>

theorem configUpdate_installs:
  assumes "req_method r = ''POST''" and "decode_settings r = Some q" and "settings_errors q = []"
    and "valid_config (ch_cfg (holder s))" and "int_fields_ok (ch_cfg (holder s))"
    and "valid_utf8 (Username (ch_cfg (holder s)))" and "disk_ok (ch_path (holder s)) (disk s)"
  defines "c \<equiv> apply_settings q (ch_cfg (holder s))"
  shows "resp_status (fst (configUpdate r s)) = 200
    \<and> ch_cfg (holder (snd (configUpdate r s))) = c
    \<and> fst (Load (ch_path (holder s)) (disk (snd (configUpdate r s)))) = Inr c
    \<and> restartInterval (sched (sys_of (snd (configUpdate r s)))) = \<lparr>MinMinutes = setRestartMin q, MaxMinutes = setRestartMax q\<rparr>
    \<and> lockInterval (sched (sys_of (snd (configUpdate r s)))) = \<lparr>MinMinutes = setLockMin q, MaxMinutes = setLockMax q\<rparr>
    \<and> timeout (store (snd (configUpdate r s))) = minutes (setSessionTimeout q)
    \<and> logger (snd (configUpdate r s)) = Setup (setLevel q)
    \<and> Port c = Port (ch_cfg (holder s)) \<and> Username c = Username (ch_cfg (holder s))
    \<and> password c = password (ch_cfg (holder s))
    \<and> sessions (store (snd (configUpdate r s))) = sessions (store s)
    \<and> gos (sys_of (snd (configUpdate r s))) = gos (sys_of s)"
proof -
  let ?p = "ch_path (holder s)" and ?w = "snd (Save c (ch_path (holder s)) (disk s))"
  have c: "valid_config c" "int_fields_ok c" "valid_utf8 (Username c)"
    using apply_settings_valid [OF assms(3,4)] apply_settings_fields(1) [OF decode_settings_i64 [OF assms(2)] assms(5)]
      assms(6) by (simp_all add: c_def apply_settings_fields)
  have saves: "saves q s" using assms(7) by (simp add: saves_def Save_def)
  have stored: "disk (stored q s) = ?w" "holder (stored q s) = (holder s)\<lparr>ch_cfg := c\<rparr>"
    by (simp_all add: stored_def with_settings_def c_def)
  have load: "Load ?p ?w = (Inr c, ?w)" using Load_Save [OF c assms(7)] by simp
  then have "reload (holder (stored q s)) (disk (stored q s)) = (Inr c, (holder s)\<lparr>ch_cfg := c\<rparr>, ?w)"
    by (simp add: reload_def stored(1) with_settings_def c_def [symmetric])
  note u = configUpdate_done [OF assms(1-3) saves this]
  have "SessionTimeoutMinutes c = setSessionTimeout q" "LogLevel c = setLevel q"
    "restart_range c = \<lparr>MinMinutes = setRestartMin q, MaxMinutes = setRestartMax q\<rparr>"
    "lock_range c = \<lparr>MinMinutes = setLockMin q, MaxMinutes = setLockMax q\<rparr>"
    "Port c = Port (ch_cfg (holder s))" "Username c = Username (ch_cfg (holder s))"
    "password c = password (ch_cfg (holder s))"
    by (simp_all add: c_def restart_range_def lock_range_def apply_settings_def)
  then show ?thesis
    using load stored_sys [of q s] by (auto simp: u updateTimeout_def UpdateIntervals_def)
qed

theorem configUpdate_installs_witness:
  "fst (Load ''c'' (disk (snd (configUpdate demo_update demo_site)))) =
     Inr (apply_settings demo_settings defaults)"
proof -
  have "req_method demo_update = ''POST''" by (simp add: demo_update_def demo_post_def)
  then show ?thesis
    using configUpdate_installs [OF _ demo_update_decodes demo_settings_ok, of demo_site] defaults_int_valid
    by simp
qed

text \<open>
  C37: an update that cannot be saved is answered with 500 but kept in memory only: the file, the
  intervals, the session timeout and the logger keep the old values. It is not lost, though: once
  the disk works again, any change of the log level writes the settings that were reported as
  failed to the file, from where the next start loads them.
\<close>

theorem failed_update_is_kept:
  assumes "req_method r = ''POST''" and "decode_settings r = Some q" and "settings_errors q = []"
    and "valid_config (ch_cfg (holder s))" and "int_fields_ok (ch_cfg (holder s))"
    and "valid_utf8 (Username (ch_cfg (holder s)))" and "writeFault (disk s) (ch_path (holder s)) = OpenFault"
    and "req_method r' = ''POST''" and "known_level (query_level r')"
    and "disk_ok (ch_path (holder s)) w"
  shows "resp_status (fst (configUpdate r s)) = 500
    \<and> ch_cfg (holder (snd (configUpdate r s))) = apply_settings q (ch_cfg (holder s))
    \<and> disk (snd (configUpdate r s)) = disk s
    \<and> sched (sys_of (snd (configUpdate r s))) = sched (sys_of s)
    \<and> store (snd (configUpdate r s)) = store s \<and> logger (snd (configUpdate r s)) = logger s
    \<and> resp_status (fst (configSetLogLevel r' (set_disk w (snd (configUpdate r s))))) = 200
    \<and> fst (Load (ch_path (holder s)) (disk (snd (configSetLogLevel r' (set_disk w (snd (configUpdate r s))))))) =
        Inr ((apply_settings q (ch_cfg (holder s)))\<lparr>LogLevel := query_level r'\<rparr>)"
proof -
  let ?c = "apply_settings q (ch_cfg (holder s))" and ?p = "ch_path (holder s)"
  let ?d = "?c\<lparr>LogLevel := query_level r'\<rparr>"
  have "valid_config ?c" "int_fields_ok ?c"
    using apply_settings_valid [OF assms(3,4)] apply_settings_fields(1) [OF decode_settings_i64 [OF assms(2)] assms(5)]
    by simp_all
  then have "valid_config ?d" "int_fields_ok ?d" "valid_utf8 (Username ?d)"
    using assms(6,9) by (simp_all add: valid_config_def int_fields_ok_def apply_settings_fields)
  then have load: "fst (Load ?p (snd (Save ?d ?p w))) = Inr ?d"
    using Load_Save [of ?d ?p w] assms(10) by simp
  have save: "Save ?c ?p (disk s) = (False, disk s)"
    using assms(7) by (simp add: Save_def os_WriteFile_def)
  then have "\<not> saves q s" by (simp add: saves_def)
  note u = configUpdate_unsaved [OF assms(1-3) this]
  obtain w' where saved: "Save ?d ?p w = (True, w')"
    using assms(10) by (simp add: Save_def prod_eq_iff)
  have t: "holder (stored q s) = (holder s)\<lparr>ch_cfg := ?c\<rparr>" "disk (stored q s) = disk s"
    using save by (simp_all add: with_settings_def stored_def)
  have "configSetLogLevel r' (set_disk w (stored q s)) =
    (ok_map [(''status'', ''log level set to '' @ query_level r')],
     (set_disk w' ((set_disk w (stored q s))\<lparr>holder := (holder s)\<lparr>ch_cfg := ?d\<rparr>\<rparr>))
       \<lparr>logger := Setup (query_level r')\<rparr>)"
    using assms(8,9) saved by (simp add: configSetLogLevel_def setLogLevel_def t with_settings_def Let_def)
  then show ?thesis using load saved t by (simp add: u disk_def)
qed

definition full_disk :: os where
  "full_disk = empty_disk\<lparr>writeFault := (\<lambda>_. OpenFault)\<rparr>"

theorem failed_update_is_kept_witness:
  "ch_cfg (holder (snd (configUpdate demo_update (set_disk full_disk demo_site)))) =
     apply_settings demo_settings defaults
   \<and> disk (snd (configUpdate demo_update (set_disk full_disk demo_site))) = full_disk"
proof -
  have m: "req_method demo_update = ''POST''" by (simp add: demo_update_def demo_post_def)
  have "writeFault (disk (set_disk full_disk demo_site)) (ch_path (holder (set_disk full_disk demo_site))) = OpenFault"
    by (simp add: full_disk_def)
  then show ?thesis
    using failed_update_is_kept [OF m demo_update_decodes demo_settings_ok, of "set_disk full_disk demo_site"
      "demo_post ''/api/config/loglevel'' [] []" empty_disk] defaults_int_valid
    by (simp add: demo_post_def)
qed

text \<open>
  C14: logging out ends the session for good: after an authorised request to \<open>/api/logout\<close> with a
  session cookie, no request that has only this cookie to show is authorised, at any time; the
  response clears the cookie in the browser.
\<close>

theorem logout_ends_session:
  assumes "authorised e r s" and "req_method r = ''POST''" and "req_path r = ''/api/logout''"
    and "find_cookie sessionCookieName r = Some v"
  shows "resp_status (fst (handle pf e r s)) = 200
    \<and> clear_cookie sessionCookieName \<in> set (setCookies (fst (handle pf e r s)))
    \<and> (find_cookie sessionCookieName r' = Some v \<and> \<not> credentials_ok r' (snd (handle pf e r s))
        \<longrightarrow> \<not> authorised e' r' (snd (handle pf e r s)))"
proof -
  obtain cs s' where h: "handle pf e r s = (with_cookies cs (fst (route pf e r s')), snd (route pf e r s'))"
    by (rule guard_passes [OF assms(1), where nx = "route pf"]) (simp add: handle_def)
  have r: "route pf e r s' = logout r s'" using assms(3) by (simp add: route_def mux_def)
  have "sessions (store (snd (logout r s'))) v = None"
    using assms(2,4) by (simp add: logout_def remove_session_def)
  then have "\<not> authorised e' r' (snd (logout r s'))"
    if "find_cookie sessionCookieName r' = Some v" "\<not> credentials_ok r' (snd (logout r s'))"
    using that by (simp add: authorised_def session_ok_def valid_session_def)
  then show ?thesis
    using assms(2) h r by (auto simp: logout_def with_cookies_def Let_def ok_map_def writeJSON_def)
qed

definition demo_logout :: request where
  "demo_logout = (demo_post ''/api/logout'' good_auth [])\<lparr>cookies := [(sessionCookieName, ''v'')]\<rparr>"

theorem logout_ends_session_witness:
  "resp_status (fst (handle demo_platform (demo_env 0) demo_logout demo_site)) = 200"
proof -
  have cookie: "find_cookie sessionCookieName demo_logout = Some ''v''" "find_cookie loggedOutCookieName demo_logout = None"
    by (simp_all add: find_cookie_def demo_logout_def sessionCookieName_def loggedOutCookieName_def)
  have "basic_auth_header demo_logout = basic_auth_header (demo_request good_auth [])"
    by (simp add: basic_auth_header_def demo_post_def demo_request_def demo_logout_def)
  then have "credentials_ok demo_logout demo_site"
    using demo_credentials [of "[]"] by (simp add: credentials_ok_def demo_server_def newConfigHolder_def)
  then have "authorised (demo_env 0) demo_logout demo_site"
    using cookie by (simp add: authorised_def demo_env_def host_locked_def isLocked_def newLoginTracker_def)
  then show ?thesis
    using logout_ends_session [of "demo_env 0" demo_logout demo_site "''v''"] cookie
    by (simp add: demo_logout_def demo_post_def)
qed

end
