(* ===== verification/Flags.thy ===== *)
theory Flags
  imports Runs
begin

text \<open>
  What the scheduler executes, what the flags of the shared state say about its goroutines, and
  how a stopped activity ends. The flag of a one-shot always belongs to a goroutine that has
  not cleaned up yet; the flag of a schedule does so as long as a schedule is started only when
  the goroutine of the previous one has ended, and two runs show what goes wrong otherwise.
\<close>

section \<open>What is executed\<close>

definition log_inv :: "'w sys \<Rightarrow> bool" where
  "log_inv s \<longleftrightarrow>
     exec (sched s) = NewExec (dryRun (st s))
     \<and> (\<forall>e \<in> set (execLog s).
          entryAction e = action_of (entryKind e) (exec (sched s)) \<and> entryIndex e < length (gos s)
          \<and> kind (gos s ! entryIndex e) = entryKind e)"

lemma log_inv_op:
  assumes "log_inv s"
  shows "log_inv (do_op c s)"
proof -
  have old: "kind (gos (do_op c s) ! j) = kind (gos s ! j)" if "j < length (gos s)" for j
    using op_gos [where s = s and c = c] that by (auto simp: static_def)
  moreover have "length (gos s) \<le> length (gos (do_op c s))"
    using op_gos [where s = s and c = c] by auto
  ultimately show ?thesis using assms by (auto simp: log_inv_def op_frame)
qed

lemma log_inv_step:
  assumes "log_inv s" and "sys_step s l t"
  shows "log_inv t"
  using assms(2)
proof cases
  case (call_step c)
  with assms(1) log_inv_op show ?thesis by simp
next
  case (go_step c i)
  obtain s' p where i: "i < length (gos s)"
    and b: "body (kind (gos s ! i)) c i s (pc (gos s ! i)) = Some (s', p)"
    and same: "length (gos t) = length (gos s)" "static (gos t ! i) = static (gos s ! i)"
      "\<And>j. j \<noteq> i \<Longrightarrow> gos t ! j = gos s ! j" "sched t = sched s'" "st t = st s'" "execLog t = execLog s'"
    using go_gos [OF go_step(2)] by metis
  have "kind (gos t ! j) = kind (gos s ! j)" for j
    using same(2,3) by (cases "j = i") (auto simp: static_def)
  then show ?thesis
    using assms(1) same i body_frame [OF b] by (auto simp: log_inv_def new_entry_def)
next
  case (tick_step d)
  with assms(1) show ?thesis by (simp add: log_inv_def)
qed

lemma log_inv_init: "is_init s \<Longrightarrow> log_inv s"
  by (auto simp: is_init_def init_sys_def log_inv_def NewScheduler_def NewWithExec_def
    SetOnChange_def NewState_def)

interpretation logged: inductive_invariant is_init sys_step log_inv
  by unfold_locales (auto intro: log_inv_init log_inv_step)

section \<open>The times that are reported\<close>

text \<open>A time is reported exactly for an activity that is reported as active.\<close>

definition shown :: "'w State \<Rightarrow> bool" where
  "shown x \<longleftrightarrow>
     (restartNextAt x \<noteq> None \<longleftrightarrow> restartScheduleOn x)
     \<and> (lockNextAt x \<noteq> None \<longleftrightarrow> lockScheduleOn x)
     \<and> (restartOnceAt x \<noteq> None \<longleftrightarrow> restartPendingOnce x)
     \<and> (lockOnceAt x \<noteq> None \<longleftrightarrow> lockPendingOnce x)"

lemma shown_setters:
  "shown x \<Longrightarrow> shown (fst (setRestartSchedule_locked True (Some t) x))"
  "shown x \<Longrightarrow> shown (fst (setRestartSchedule_locked False None x))"
  "shown x \<Longrightarrow> shown (fst (setLockSchedule_locked True (Some t) x))"
  "shown x \<Longrightarrow> shown (fst (setLockSchedule_locked False None x))"
  "shown x \<Longrightarrow> shown (SetRestartOnce True (Some t) x)"
  "shown x \<Longrightarrow> shown (SetRestartOnce False None x)"
  "shown x \<Longrightarrow> shown (SetLockOnce True (Some t) x)"
  "shown x \<Longrightarrow> shown (SetLockOnce False None x)"
  "shown x \<Longrightarrow> shown (fst (reset_locked x))"
  "shown (x\<lparr>onChange := fn\<rparr>) = shown x"
  by (simp_all add: shown_def setRestartSchedule_locked_def setLockSchedule_locked_def
    SetRestartOnce_def SetLockOnce_def reset_locked_def copyTime_def)

lemma shown_body:
  assumes "body k c i s p = Some (s', p')" and "shown (st s)"
  shows "shown (st s')"
proof -
  note defs = goes_def log_exec_def Let_def case_prod_unfold shown_setters
  show ?thesis
  proof (cases k)
    case RestartLoop
    with assms show ?thesis
      by (cases p) (auto simp: restart_loop_def defs split: choice.splits if_splits)
  next
    case LockLoop
    with assms show ?thesis
      by (cases p) (auto simp: lock_loop_def defs split: choice.splits if_splits)
  next
    case RestartShot
    with assms show ?thesis
      by (cases p) (auto simp: restart_shot_def defs split: if_splits)
  next
    case LockShot
    with assms show ?thesis
      by (cases p) (auto simp: lock_shot_def defs split: if_splits)
  next
    case Resetter
    with assms show ?thesis
      by (cases p) (auto simp: resetter_def defs split: if_splits)
  qed
qed

lemma shown_op: "shown (st s) \<Longrightarrow> shown (st (do_op c s))"
  by (cases c) (auto simp: start_ops stop_ops other_ops Let_def case_prod_unfold shown_setters
    split: option.splits)

interpretation shown: inductive_invariant is_init sys_step "\<lambda>s. shown (st s)"
proof unfold_locales
  fix s :: "'w sys" assume "is_init s"
  then show "shown (st s)"
    by (auto simp: is_init_def init_sys_def SetOnChange_def NewState_def shown_def)
next
  fix s t :: "'w sys" and l assume inv: "shown (st s)" and "sys_step s l t"
  from this(2) show "shown (st t)"
  proof cases
    case (call_step c)
    with inv shown_op show ?thesis by simp
  next
    case (go_step c i)
    with inv show ?thesis by (metis go_gos shown_body)
  next
    case (tick_step d)
    with inv show ?thesis by simp
  qed
qed

section \<open>The flag of a one-shot\<close>

fun flag :: "kind \<Rightarrow> 'w State \<Rightarrow> bool" where
  "flag RestartLoop x = restartScheduleOn x"
| "flag LockLoop x = lockScheduleOn x"
| "flag RestartShot x = restartPendingOnce x"
| "flag LockShot x = lockPendingOnce x"
| "flag Resetter x = False"

fun shown_at :: "kind \<Rightarrow> 'w State \<Rightarrow> instant option" where
  "shown_at RestartShot x = restartOnceAt x"
| "shown_at LockShot x = lockOnceAt x"
| "shown_at RestartLoop x = restartNextAt x"
| "shown_at LockLoop x = lockNextAt x"
| "shown_at Resetter x = None"

text \<open>The goroutine has not passed its clean-up.\<close>

fun uncleared :: "'w pc \<Rightarrow> bool" where
  "uncleared DeferNotify = False"
| "uncleared (DeferCall q) = False"
| "uncleared Finished = False"
| "uncleared _ = True"

text \<open>Goroutine \<open>i\<close> is the last one started in slot \<open>k\<close>, and its clean-up is still to come.\<close>

definition owner :: "kind \<Rightarrow> 'w sys \<Rightarrow> nat \<Rightarrow> bool" where
  "owner k s i \<longleftrightarrow> i < length (gos s) \<and> kind (gos s ! i) = k \<and> gen (gos s ! i) = gen_of k (sched s)
     \<and> uncleared (pc (gos s ! i))"

definition pending_inv :: "kind \<Rightarrow> 'w sys \<Rightarrow> bool" where
  "pending_inv k s \<longleftrightarrow>
     (flag k (st s) \<longrightarrow>
        (\<exists>i. owner k s i \<and> shown_at k (st s) = Some (born (gos s ! i) + onceDelay)))"

text \<open>
  A step of a goroutine sets the flag of a one-shot nowhere; and the goroutine that owns the
  flag passes its clean-up only by clearing the flag.
\<close>

lemma body_flag_shot:
  assumes b: "body kk c i s p = Some (s', p')" and k: "is_shot k" and up: "flag k (st s')"
  shows "flag k (st s)" "shown_at k (st s') = shown_at k (st s)" "gen_of k (sched s') = gen_of k (sched s)"
    "kk = k \<Longrightarrow> gen (gos s ! i) = gen_of k (sched s) \<Longrightarrow> uncleared p \<Longrightarrow> uncleared p'"
proof -
  note defs = goes_def log_exec_def Let_def setRestartSchedule_locked_def setLockSchedule_locked_def
    SetRestartOnce_def SetLockOnce_def is_shot_def
  have "flag k (st s) \<and> shown_at k (st s') = shown_at k (st s) \<and> gen_of k (sched s') = gen_of k (sched s)
    \<and> (kk = k \<longrightarrow> gen (gos s ! i) = gen_of k (sched s) \<longrightarrow> uncleared p \<longrightarrow> uncleared p')"
  proof (cases kk)
    case RestartLoop
    with assms show ?thesis
      by (cases p) (auto simp: restart_loop_def defs split: choice.splits if_splits)
  next
    case LockLoop
    with assms show ?thesis
      by (cases p) (auto simp: lock_loop_def defs split: choice.splits if_splits)
  next
    case RestartShot
    with assms show ?thesis
      by (cases p) (auto simp: restart_shot_def defs split: if_splits)
  next
    case LockShot
    with assms show ?thesis
      by (cases p) (auto simp: lock_shot_def defs split: if_splits)
  next
    case Resetter
    with assms show ?thesis
      by (cases p) (auto simp: resetter_def defs split: if_splits)
  qed
  then show "flag k (st s)" "shown_at k (st s') = shown_at k (st s)"
    "gen_of k (sched s') = gen_of k (sched s)"
    "kk = k \<Longrightarrow> gen (gos s ! i) = gen_of k (sched s) \<Longrightarrow> uncleared p \<Longrightarrow> uncleared p'"
    by blast+
qed

lemma op_flag_shot:
  assumes "is_shot k" and "flag k (st (do_op c s))"
  shows "(flag k (st s) \<and> shown_at k (st (do_op c s)) = shown_at k (st s)
       \<and> gen_of k (sched (do_op c s)) = gen_of k (sched s))
     \<or> (owner k (do_op c s) (length (gos s))
       \<and> shown_at k (st (do_op c s)) = Some (born (gos (do_op c s) ! length (gos s)) + onceDelay))"
  using assms
  by (cases c) (auto simp: is_shot_def start_ops stop_ops other_ops Let_def case_prod_unfold owner_def
    new_go_def SetRestartOnce_def SetLockOnce_def reset_locked_def copyTime_def split: option.splits)

lemma pending_inv_op:
  assumes inv: "pending_inv k s" and k: "is_shot k"
  shows "pending_inv k (do_op c s)"
  unfolding pending_inv_def
proof
  let ?t = "do_op c s"
  assume up: "flag k (st ?t)"
  show "\<exists>i. owner k ?t i \<and> shown_at k (st ?t) = Some (born (gos ?t ! i) + onceDelay)"
  proof (cases "owner k ?t (length (gos s))
       \<and> shown_at k (st ?t) = Some (born (gos ?t ! length (gos s)) + onceDelay)")
    case True
    then show ?thesis by blast
  next
    case False
    with op_flag_shot [OF k up] have old: "flag k (st s)" "shown_at k (st ?t) = shown_at k (st s)"
      "gen_of k (sched ?t) = gen_of k (sched s)"
      by blast+
    with inv obtain i where "owner k s i" "shown_at k (st s) = Some (born (gos s ! i) + onceDelay)"
      by (auto simp: pending_inv_def)
    moreover from this have "static (gos ?t ! i) = static (gos s ! i)" "pc (gos ?t ! i) = pc (gos s ! i)"
      using op_gos [where s = s and c = c] by (auto simp: owner_def)
    moreover have "length (gos s) \<le> length (gos ?t)"
      using op_gos [where s = s and c = c] by auto
    ultimately show ?thesis using old by (intro exI [of _ i]) (auto simp: owner_def static_def)
  qed
qed

lemma pending_inv_go:
  assumes inv: "pending_inv k s" and k: "is_shot k" and step: "go_step c i s = Some t"
  shows "pending_inv k t"
  unfolding pending_inv_def
proof
  assume up: "flag k (st t)"
  obtain s' p where i: "i < length (gos s)"
    and b: "body (kind (gos s ! i)) c i s (pc (gos s ! i)) = Some (s', p)"
    and same: "length (gos t) = length (gos s)" "static (gos t ! i) = static (gos s ! i)"
      "pc (gos t ! i) = p" "\<And>j. j \<noteq> i \<Longrightarrow> gos t ! j = gos s ! j" "sched t = sched s'" "st t = st s'"
    using go_gos [OF step] by metis
  from up same have up': "flag k (st s')" by simp
  note old = body_flag_shot [OF b k up']
  with inv obtain j where own: "owner k s j" and at: "shown_at k (st s) = Some (born (gos s ! j) + onceDelay)"
    by (auto simp: pending_inv_def)
  have "static (gos t ! j) = static (gos s ! j)" using same(2,4) by (cases "j = i") auto
  moreover have "uncleared (pc (gos t ! j))"
    using own old(4) same(3,4) by (cases "j = i") (auto simp: owner_def)
  ultimately show "\<exists>i. owner k t i \<and> shown_at k (st t) = Some (born (gos t ! i) + onceDelay)"
    using own at old(2,3) same by (intro exI [of _ j]) (auto simp: owner_def static_def)
qed

lemma pending_inv_step:
  assumes "pending_inv k s" and "sys_step s l t" and "is_shot k"
  shows "pending_inv k t"
  using assms(2)
proof cases
  case (call_step c)
  with assms pending_inv_op show ?thesis by simp
next
  case (go_step c i)
  with assms pending_inv_go show ?thesis by blast
next
  case (tick_step d)
  with assms show ?thesis by (simp add: pending_inv_def owner_def)
qed

lemma pending_inv_init: "is_init s \<Longrightarrow> is_shot k \<Longrightarrow> pending_inv k s"
  by (auto simp: is_init_def init_sys_def SetOnChange_def NewState_def pending_inv_def is_shot_def)

interpretation pending: inductive_invariant is_init sys_step "\<lambda>s. \<forall>k. is_shot k \<longrightarrow> pending_inv k s"
  by unfold_locales (auto intro: pending_inv_init pending_inv_step)

section \<open>The flag of a schedule\<close>

text \<open>
  A schedule is started only when it is running (the call has no effect) or when the goroutine
  of the previous one has ended.
\<close>

definition idle :: "kind \<Rightarrow> 'w sys \<Rightarrow> bool" where
  "idle k s \<longleftrightarrow> (\<forall>i < length (gos s). kind (gos s ! i) = k \<longrightarrow> pc (gos s ! i) = Finished)"

definition quiet_step :: "'w sys \<Rightarrow> label \<Rightarrow> 'w sys \<Rightarrow> bool" where
  "quiet_step s l t \<longleftrightarrow> sys_step s l t
     \<and> (l = Call OpStartRestartSchedule \<longrightarrow> idle RestartLoop s \<or> restartScheduleCancel (sched s) \<noteq> None)
     \<and> (l = Call OpStartLockSchedule \<longrightarrow> idle LockLoop s \<or> lockScheduleCancel (sched s) \<noteq> None)"

definition live_inv :: "kind \<Rightarrow> 'w sys \<Rightarrow> bool" where
  "live_inv k s \<longleftrightarrow>
     (\<forall>i < length (gos s). kind (gos s ! i) = k \<and> pc (gos s ! i) \<noteq> Finished \<longrightarrow>
        gen (gos s ! i) = gen_of k (sched s))
     \<and> (flag k (st s) \<longrightarrow> (\<exists>i. owner k s i))"

lemma body_flag_loop:
  assumes b: "body kk c i s p = Some (s', p')" and k: "is_loop k"
  shows "gen_of k (sched s') = gen_of k (sched s)" "p \<noteq> Finished"
    "flag k (st s') \<Longrightarrow> flag k (st s) \<or> kk = k \<and> uncleared p'"
    "flag k (st s') \<Longrightarrow> kk = k \<Longrightarrow> gen (gos s ! i) = gen_of k (sched s) \<Longrightarrow> uncleared p \<Longrightarrow> uncleared p'"
proof -
  note defs = goes_def log_exec_def Let_def setRestartSchedule_locked_def setLockSchedule_locked_def
    SetRestartOnce_def SetLockOnce_def is_loop_def
  have "gen_of k (sched s') = gen_of k (sched s) \<and> p \<noteq> Finished
    \<and> (flag k (st s') \<longrightarrow> flag k (st s) \<or> kk = k \<and> uncleared p')
    \<and> (flag k (st s') \<longrightarrow> kk = k \<longrightarrow> gen (gos s ! i) = gen_of k (sched s) \<longrightarrow> uncleared p \<longrightarrow> uncleared p')"
  proof (cases kk)
    case RestartLoop
    with assms show ?thesis
      by (cases p) (auto simp: restart_loop_def defs split: choice.splits if_splits)
  next
    case LockLoop
    with assms show ?thesis
      by (cases p) (auto simp: lock_loop_def defs split: choice.splits if_splits)
  next
    case RestartShot
    with assms show ?thesis
      by (cases p) (auto simp: restart_shot_def defs split: if_splits)
  next
    case LockShot
    with assms show ?thesis
      by (cases p) (auto simp: lock_shot_def defs split: if_splits)
  next
    case Resetter
    with assms show ?thesis
      by (cases p) (auto simp: resetter_def defs split: if_splits)
  qed
  then show "gen_of k (sched s') = gen_of k (sched s)" "p \<noteq> Finished"
    "flag k (st s') \<Longrightarrow> flag k (st s) \<or> kk = k \<and> uncleared p'"
    "flag k (st s') \<Longrightarrow> kk = k \<Longrightarrow> gen (gos s ! i) = gen_of k (sched s) \<Longrightarrow> uncleared p \<Longrightarrow> uncleared p'"
    by blast+
qed

text \<open>A method raises no flag of a schedule, and only a start changes its generation.\<close>

lemma op_flag_loop:
  assumes "is_loop k"
  shows "flag k (st (do_op c s)) \<Longrightarrow> flag k (st s)"
    and "gen_of k (sched (do_op c s)) \<noteq> gen_of k (sched s) \<Longrightarrow>
      (k = RestartLoop \<and> c = OpStartRestartSchedule \<or> k = LockLoop \<and> c = OpStartLockSchedule)
      \<and> cancel_of k (sched s) = None"
    and "length (gos (do_op c s)) = Suc (length (gos s)) \<Longrightarrow>
      kind (gos (do_op c s) ! length (gos s)) = k \<Longrightarrow>
      gen (gos (do_op c s) ! length (gos s)) = gen_of k (sched (do_op c s))"
proof -
  note defs = start_ops stop_ops other_ops Let_def case_prod_unfold
    new_go_def SetRestartOnce_def SetLockOnce_def reset_locked_def
  have k: "k = RestartLoop \<or> k = LockLoop" using assms by (simp add: is_loop_def)
  show "flag k (st (do_op c s)) \<Longrightarrow> flag k (st s)"
    using k by (elim disjE; cases c; simp add: defs split: option.splits if_splits)
  show "gen_of k (sched (do_op c s)) \<noteq> gen_of k (sched s) \<Longrightarrow>
      (k = RestartLoop \<and> c = OpStartRestartSchedule \<or> k = LockLoop \<and> c = OpStartLockSchedule)
      \<and> cancel_of k (sched s) = None"
    using k by (elim disjE; cases c; simp add: defs split: option.splits if_splits)
  show "length (gos (do_op c s)) = Suc (length (gos s)) \<Longrightarrow>
      kind (gos (do_op c s) ! length (gos s)) = k \<Longrightarrow>
      gen (gos (do_op c s) ! length (gos s)) = gen_of k (sched (do_op c s))"
    using k by (elim disjE; cases c; simp add: defs split: option.splits if_splits)
qed

lemma live_inv_op:
  assumes inv: "live_inv k s" and k: "is_loop k" and quiet: "quiet_step s (Call c) (do_op c s)"
  shows "live_inv k (do_op c s)"
proof -
  let ?t = "do_op c s"
  have old: "static (gos ?t ! j) = static (gos s ! j) \<and> pc (gos ?t ! j) = pc (gos s ! j)"
    if "j < length (gos s)" for j using op_gos [where s = s and c = c] that by blast
  have len: "length (gos s) \<le> length (gos ?t)" "length (gos ?t) \<le> Suc (length (gos s))"
    using op_gos [where s = s and c = c] by auto
  have gen: "gen_of k (sched ?t) = gen_of k (sched s) \<or> idle k s"
  proof (cases "gen_of k (sched ?t) = gen_of k (sched s)")
    case False
    from op_flag_loop(2) [OF k False] quiet have "idle k s"
      by (elim conjE disjE) (simp_all add: quiet_step_def)
    then show ?thesis ..
  qed simp
  have "gen (gos ?t ! j) = gen_of k (sched ?t)"
    if j: "j < length (gos ?t)" "kind (gos ?t ! j) = k" "pc (gos ?t ! j) \<noteq> Finished" for j
  proof (cases "j < length (gos s)")
    case True
    with inv old j gen show ?thesis by (auto simp: live_inv_def static_def idle_def)
  next
    case False
    with j len have "j = length (gos s)" and "length (gos ?t) = Suc (length (gos s))" by auto
    with op_flag_loop(3) [OF k] j show ?thesis by blast
  qed
  moreover have "\<exists>i. owner k ?t i" if "flag k (st ?t)"
  proof -
    from that op_flag_loop(1) [OF k] inv obtain i where i: "owner k s i" by (auto simp: live_inv_def)
    then have "\<not> idle k s" by (auto simp: owner_def idle_def)
    with gen i old len show ?thesis by (intro exI [of _ i]) (auto simp: owner_def static_def)
  qed
  ultimately show ?thesis by (auto simp: live_inv_def)
qed

lemma live_inv_go:
  assumes inv: "live_inv k s" and k: "is_loop k" and step: "go_step c i s = Some t"
  shows "live_inv k t"
proof -
  obtain s' p where i: "i < length (gos s)"
    and b: "body (kind (gos s ! i)) c i s (pc (gos s ! i)) = Some (s', p)"
    and same: "length (gos t) = length (gos s)" "static (gos t ! i) = static (gos s ! i)"
      "pc (gos t ! i) = p" "\<And>j. j \<noteq> i \<Longrightarrow> gos t ! j = gos s ! j" "sched t = sched s'" "st t = st s'"
    using go_gos [OF step] by metis
  note bf = body_flag_loop [OF b k]
  have static: "static (gos t ! j) = static (gos s ! j)" for j
    using same(2,4) by (cases "j = i") auto
  have gen: "gen (gos s ! j) = gen_of k (sched s)"
    if "j < length (gos s)" "kind (gos s ! j) = k" "pc (gos s ! j) \<noteq> Finished" for j
    using inv that by (auto simp: live_inv_def)
  have "gen (gos t ! j) = gen_of k (sched t)"
    if "j < length (gos t)" "kind (gos t ! j) = k" "pc (gos t ! j) \<noteq> Finished" for j
    using gen [of j] that static [of j] same bf(1,2) by (cases "j = i") (auto simp: static_def)
  moreover have "\<exists>j. owner k t j" if up: "flag k (st t)"
  proof (cases "kind (gos s ! i) = k \<and> uncleared p")
    case True
    then have "owner k t i"
      using i gen [of i] bf(1,2) same static [of i] by (auto simp: owner_def static_def)
    then show ?thesis by blast
  next
    case False
    with bf(3) up same inv obtain j where own: "owner k s j" by (auto simp: live_inv_def)
    have "uncleared (pc (gos t ! j))"
      using own bf(4) up same by (cases "j = i") (auto simp: owner_def)
    with own static [of j] same bf(1) show ?thesis
      by (intro exI [of _ j]) (auto simp: owner_def static_def)
  qed
  ultimately show ?thesis by (auto simp: live_inv_def)
qed

lemma live_inv_step:
  assumes "live_inv k s" and "quiet_step s l t" and "is_loop k"
  shows "live_inv k t"
proof -
  from assms(2) have "sys_step s l t" by (simp add: quiet_step_def)
  then show ?thesis
  proof cases
    case (call_step c)
    with assms live_inv_op show ?thesis by simp
  next
    case (go_step c i)
    with assms live_inv_go show ?thesis by blast
  next
    case (tick_step d)
    with assms show ?thesis by (simp add: live_inv_def owner_def)
  qed
qed

lemma live_inv_init: "is_init s \<Longrightarrow> is_loop k \<Longrightarrow> live_inv k s"
  by (auto simp: is_init_def init_sys_def SetOnChange_def NewState_def live_inv_def is_loop_def)

interpretation live: inductive_invariant is_init quiet_step "\<lambda>s. \<forall>k. is_loop k \<longrightarrow> live_inv k s"
  by unfold_locales (auto intro: live_inv_init live_inv_step)

section \<open>How a stopped activity ends\<close>

text \<open>The positions that the body of each kind can reach.\<close>

fun loop_pc :: "'w pc \<Rightarrow> bool" where
  "loop_pc OnceTimer = False"
| "loop_pc (OnceSelect t) = False"
| "loop_pc OnceExec = False"
| "loop_pc OnceCancel = False"
| "loop_pc OnceLock = False"
| "loop_pc OnceClear = False"
| "loop_pc _ = True"

fun shot_pc :: "'w pc \<Rightarrow> bool" where
  "shot_pc Finished = True"
| "shot_pc p = (\<not> loop_pc p)"

fun pc_ok :: "kind \<Rightarrow> 'w pc \<Rightarrow> bool" where
  "pc_ok RestartLoop p = loop_pc p"
| "pc_ok LockLoop p = loop_pc p"
| "pc_ok RestartShot p = shot_pc p"
| "pc_ok LockShot p = shot_pc p"
| "pc_ok Resetter p = (\<not> uncleared p)"

interpretation pcs: goroutine_invariant "sys_step :: 'w sys \<Rightarrow> label \<Rightarrow> 'w sys \<Rightarrow> bool" "\<lambda>_. True"
  "\<lambda>now k b p ts. pc_ok k p"
proof unfold_locales
  fix k show "pc_ok k (start_pc k)" by (cases k) simp_all
next
  fix k c i p p' and s s' :: "'w sys"
  assume "body k c i s p = Some (s', p')" and "pc_ok k p"
  then show "pc_ok k p'"
    by (cases k; cases p) (auto simp: bodies goes_def Let_def case_prod_unfold
      split: choice.splits if_splits)
qed auto

lemma reach_pc_ok:
  "reach is_init sys_step s \<Longrightarrow> i < length (gos s) \<Longrightarrow> pc_ok (kind (gos s ! i)) (pc (gos s ! i))"
  using pcs.reach_good [of is_init s] by (auto simp: pcs.all_good_def)

fun rank :: "'w pc \<Rightarrow> nat" where
  "rank LoopExec = 11"
| "rank LoopTop = 10"
| "rank (LoopSet d) = 9"
| "rank (LoopNotify d) = 8"
| "rank (LoopCall d q) = 7"
| "rank (LoopTimer d) = 6"
| "rank (LoopSelect t) = 5"
| "rank DeferLock = 4"
| "rank DeferClear = 3"
| "rank DeferNotify = 2"
| "rank (DeferCall q) = 1"
| "rank OnceTimer = 5"
| "rank (OnceSelect t) = 4"
| "rank OnceExec = 4"
| "rank OnceCancel = 3"
| "rank OnceLock = 2"
| "rank OnceClear = 1"
| "rank Finished = 0"

fun way_out :: "'w pc \<Rightarrow> choice" where
  "way_out LoopTop = Draw 0"
| "way_out (LoopSelect t) = CtxDone"
| "way_out (OnceSelect t) = CtxDone"
| "way_out _ = Continue"

definition drawable :: "'w sys \<Rightarrow> bool" where
  "drawable s \<longleftrightarrow> rand_ok (restartInterval (sched s)) 0 \<and> rand_ok (lockInterval (sched s)) 0"

lemma way_out_body:
  assumes "pc_ok k p" and "p \<noteq> Finished" and "ctx_done s (gos s ! i)" and "drawable s"
  shows "\<exists>s' p'. body k (way_out p) i s p = Some (s', p') \<and> rank p' < rank p"
  using assms
  by (cases k; cases p) (auto simp: bodies goes_def drawable_def Let_def case_prod_unfold)

lemma way_out_step:
  assumes i: "i < length (gos s)" and ok: "pc_ok (kind (gos s ! i)) (pc (gos s ! i))"
    and "pc (gos s ! i) \<noteq> Finished" and dn: "ctx_done s (gos s ! i)" and "drawable s"
  shows "\<exists>t. go_step (way_out (pc (gos s ! i))) i s = Some t
    \<and> rank (pc (gos t ! i)) < rank (pc (gos s ! i))
    \<and> i < length (gos t) \<and> ctx_done t (gos t ! i) \<and> drawable t
    \<and> pc_ok (kind (gos t ! i)) (pc (gos t ! i))"
proof -
  let ?g = "gos s ! i"
  obtain s' p where b: "body (kind ?g) (way_out (pc ?g)) i s (pc ?g) = Some (s', p)"
    and less: "rank p < rank (pc ?g)"
    using way_out_body [OF ok assms(3-5)] by blast
  define t where "t = set_pc i p s'"
  have step: "go_step (way_out (pc ?g)) i s = Some t" using i b by (simp add: go_step_def t_def)
  have "gos s' = gos s \<or> gos s' = cancel_ctx i (gos s)"
    using body_moves [OF b] by (auto simp: moves_def)
  then have "i < length (gos t)" "kind (gos t ! i) = kind ?g" "pc (gos t ! i) = p"
    "ctx_done t (gos t ! i)"
    using i dn body_frame [OF b] by (auto simp: t_def set_pc_def cancel_ctx_def ctx_done_def)
  moreover have "pc_ok (kind ?g) p" using pcs.P_body [OF TrueI b ok] by simp
  moreover have "drawable t" using assms(5) body_frame [OF b] by (simp add: t_def set_pc_def drawable_def)
  ultimately show ?thesis using step less by simp
qed

lemma way_out_run:
  assumes "i < length (gos s)" and "pc_ok (kind (gos s ! i)) (pc (gos s ! i))"
    and "ctx_done s (gos s ! i)" and "drawable s"
  shows "\<exists>cs t. length cs \<le> rank (pc (gos s ! i)) \<and> run (map (\<lambda>c. Go c i) cs) s = Some t
    \<and> pc (gos t ! i) = Finished"
  using assms
proof (induction "rank (pc (gos s ! i))" arbitrary: s rule: less_induct)
  case less
  show ?case
  proof (cases "pc (gos s ! i) = Finished")
    case True
    then show ?thesis by (intro exI [of _ "[]"]) simp
  next
    case False
    obtain t where step: "go_step (way_out (pc (gos s ! i))) i s = Some t"
      and smaller: "rank (pc (gos t ! i)) < rank (pc (gos s ! i))"
      and t: "i < length (gos t)" "pc_ok (kind (gos t ! i)) (pc (gos t ! i))"
        "ctx_done t (gos t ! i)" "drawable t"
      using way_out_step [OF less.prems(1,2) False less.prems(3,4)] by blast
    from less.hyps [OF smaller t] obtain cs u where
      "length cs \<le> rank (pc (gos t ! i))" "run (map (\<lambda>c. Go c i) cs) t = Some u"
      "pc (gos u ! i) = Finished"
      by blast
    with step smaller show ?thesis
      by (intro exI [of _ "way_out (pc (gos s ! i)) # cs"]) simp
  qed
qed

lemma rank_0: "rank p = 0 \<longleftrightarrow> p = Finished"
  by (cases p) simp_all

lemma idle_code [code]: "idle k s \<longleftrightarrow> (\<forall>g \<in> set (gos s). kind g = k \<longrightarrow> rank (pc g) = 0)"
  by (auto simp: idle_def rank_0 all_set_conv_all_nth)

lemma rank_le: "rank p \<le> 11"
  by (cases p) simp_all

section \<open>Shutdown\<close>

text \<open>A goroutine that has read the intent together with a callback is about to call it.\<close>

fun in_flight :: "'w pc \<Rightarrow> bool" where
  "in_flight (LoopCall d q) = (fst q \<noteq> None)"
| "in_flight (DeferCall q) = (fst q \<noteq> None)"
| "in_flight _ = False"

definition silent :: "'w \<Rightarrow> 'w sys \<Rightarrow> bool" where
  "silent w s \<longleftrightarrow> world s = w \<and> onChange (st s) = None \<and> (\<forall>g \<in> set (gos s). \<not> in_flight (pc g))"

lemma silent_body:
  assumes "body k c i s p = Some (s', p')" and "onChange (st s) = None" and "\<not> in_flight p"
  shows "world s' = world s" and "\<not> in_flight p'"
proof -
  note defs = goes_def log_exec_def Let_def case_prod_unfold notify_call_def notify_read_def
  have "world s' = world s \<and> \<not> in_flight p'"
  proof (cases k)
    case RestartLoop
    with assms show ?thesis
      by (cases p) (auto simp: restart_loop_def defs split: choice.splits if_splits)
  next
    case LockLoop
    with assms show ?thesis
      by (cases p) (auto simp: lock_loop_def defs split: choice.splits if_splits)
  next
    case RestartShot
    with assms show ?thesis
      by (cases p) (auto simp: restart_shot_def defs split: if_splits)
  next
    case LockShot
    with assms show ?thesis
      by (cases p) (auto simp: lock_shot_def defs split: if_splits)
  next
    case Resetter
    with assms show ?thesis
      by (cases p) (auto simp: resetter_def defs split: if_splits)
  qed
  then show "world s' = world s" and "\<not> in_flight p'" by blast+
qed

lemma silent_op:
  fixes s :: "'w sys"
  shows "silent w s \<Longrightarrow> silent w (do_op c s)"
proof -
  assume silent: "silent w s"
  have "world (do_op c s) = world s \<and> (onChange (st s) = None \<longrightarrow> onChange (st (do_op c s)) = None)"
    by (cases c) (simp_all add: start_ops stop_ops other_ops Let_def case_prod_unfold
      SetRestartOnce_def SetLockOnce_def reset_locked_def split: option.splits)
  moreover have "\<not> in_flight (start_pc k :: 'w pc)" for k by (cases k) simp_all
  then have "\<not> in_flight (pc (gos (do_op c s) ! j))" if "j < length (gos (do_op c s))" for j
    using op_gos [where s = s and c = c] silent that
    by (cases "j < length (gos s)") (auto simp: silent_def new_go_def less_Suc_eq)
  ultimately show ?thesis using silent by (auto simp: silent_def in_set_conv_nth)
qed

lemma silent_step:
  assumes "silent w s" and "sys_step s l t"
  shows "silent w t"
  using assms(2)
proof cases
  case (call_step c)
  with assms(1) silent_op show ?thesis by simp
next
  case (go_step c i)
  obtain s' p where i: "i < length (gos s)"
    and b: "body (kind (gos s ! i)) c i s (pc (gos s ! i)) = Some (s', p)"
    and m: "moves (kind (gos s ! i)) i s (pc (gos s ! i)) s' p" and t: "t = set_pc i p s'"
    using go_stepE [OF go_step(2)] by metis
  have quiet: "onChange (st s) = None" "\<not> in_flight (pc (gos s ! i))"
    using assms(1) i by (simp_all add: silent_def)
  have "length (gos t) = length (gos s)" and "pc (gos t ! i) = p"
    and "j \<noteq> i \<Longrightarrow> gos t ! j = gos s ! j" for j
    using m i by (auto simp: moves_def t set_pc_def cancel_ctx_def)
  moreover have "world t = world s" "onChange (st t) = None"
    using silent_body [OF b quiet] body_frame(7) [OF b] quiet by (simp_all add: t set_pc_def)
  moreover have "\<not> in_flight (pc (gos t ! j))" if "j < length (gos t)" for j
    using assms(1) silent_body(2) [OF b quiet] calculation that
    by (cases "j = i") (auto simp: silent_def)
  ultimately show ?thesis using assms(1) by (auto simp: silent_def in_set_conv_nth)
next
  case (tick_step d)
  with assms(1) show ?thesis by (simp add: silent_def)
qed

end
