(* ===== verification/Races.thy ===== *)
theory Races
  imports Flags
begin

text \<open>
  Three runs of the scheduler in which a clean-up, a flag or a notification arrives late. They
  use a persistence callback that records the last intent it was given, intervals of one to
  two minutes, and no dry run.
\<close>

definition race_init :: "Intent sys" where
  "race_init =
     init_sys False \<lparr>MinMinutes = 1, MaxMinutes = 2\<rparr> \<lparr>MinMinutes = 1, MaxMinutes = 2\<rparr>
       (Some (\<lambda>i w. i)) \<lparr>RestartScheduleEnabled = False, LockScheduleEnabled = False\<rparr> 0"

definition steps :: "nat \<Rightarrow> choice list \<Rightarrow> label list" where
  "steps i cs = map (\<lambda>c. Go c i) cs"

text \<open>
  Started, stopped before the goroutine has set the flag, started and stopped again: the first
  goroutine sets the flag after the second has cleared it, and has no right to clear it.
\<close>

definition stuck_flag_run :: "label list" where
  "stuck_flag_run =
     [Call OpStartRestartSchedule] @ steps 0 [Draw 0] @ [Call OpStopRestartSchedule,
      Call OpStartRestartSchedule] @ steps 1 [Draw 0, Continue, Continue, Continue, Continue] @
     [Call OpStopRestartSchedule] @ steps 1 [CtxDone, Continue, Continue, Continue, Continue] @
     steps 0 [Continue, Continue, Continue, Continue, CtxDone, Continue]"

text \<open>
  Stopped and started again while the first goroutine is between the release of the lock and
  the clearing of the flag.
\<close>

definition lost_flag_run :: "label list" where
  "lost_flag_run =
     [Call OpStartRestartSchedule] @ steps 0 [Draw 0, Continue, Continue, Continue, Continue] @
     [Call OpStopRestartSchedule] @ steps 0 [CtxDone, Continue] @
     [Call OpStartRestartSchedule] @ steps 1 [Draw 0, Continue, Continue] @
     steps 0 [Continue, Continue, Continue]"

text \<open>Both schedules are started; the first notification overtakes none and arrives last.\<close>

definition stale_intent_run :: "label list" where
  "stale_intent_run =
     [Call OpStartRestartSchedule, Call OpStartLockSchedule] @
     steps 0 [Draw 0, Continue, Continue] @
     steps 1 [Draw 0, Continue, Continue, Continue, Continue] @ steps 0 [Continue, Continue]"

definition final :: "label list \<Rightarrow> Intent sys" where
  "final ls = (case run ls race_init of Some t \<Rightarrow> t | None \<Rightarrow> race_init)"

lemma race_reach: "run ls race_init \<noteq> None \<Longrightarrow> reach is_init sys_step (final ls)"
  using run_reach [of race_init ls] by (auto simp: final_def race_init_def)

lemma stuck_ok: "run stuck_flag_run race_init \<noteq> None"
  by code_simp

lemma stuck_final:
  "idle RestartLoop (final stuck_flag_run)"
  "restartScheduleOn (st (final stuck_flag_run))"
  "RestartScheduleEnabled (world (final stuck_flag_run))"
  by code_simp+

lemma lost_ok: "run lost_flag_run race_init \<noteq> None"
  by code_simp

lemma lost_final:
  "restartScheduleCancel (sched (final lost_flag_run)) = Some 1"
  "rank (pc (gos (final lost_flag_run) ! 0)) = 0"
  "deadline (pc (gos (final lost_flag_run) ! 1)) = Some 60000000000"
  "\<not> restartScheduleOn (st (final lost_flag_run))"
  "\<not> RestartScheduleEnabled (world (final lost_flag_run))"
  by code_simp+

lemma stale_ok: "run stale_intent_run race_init \<noteq> None"
  by code_simp

lemma stale_final:
  "lockScheduleOn (st (final stale_intent_run))"
  "\<not> LockScheduleEnabled (world (final stale_intent_run))"
  "deadline (pc (gos (final stale_intent_run) ! 0)) = Some 60000000000"
  "deadline (pc (gos (final stale_intent_run) ! 1)) = Some 60000000000"
  by code_simp+

end
