(* ===== verification/Scheduling.thy ===== *)
theory Scheduling
  imports Races Config
begin

text \<open>
  The properties of the scheduler: at most one live goroutine for every activity, what a reset
  stops, what is executed and when, what the status reports, how a stopped activity ends, and
  three interleavings in which the reported or the recorded flag is wrong.
\<close>

section \<open>Concrete runs for the witnesses\<close>

definition demo_init :: "Intent sys" where
  "demo_init =
     init_sys True \<lparr>MinMinutes = 1, MaxMinutes = 2\<rparr> \<lparr>MinMinutes = 1, MaxMinutes = 2\<rparr>
       (Some (\<lambda>i w. i)) \<lparr>RestartScheduleEnabled = False, LockScheduleEnabled = False\<rparr> 0"

text \<open>A schedule that has locked the screen once, and a one-shot restart that has fired.\<close>

definition demo_run :: "label list" where
  "demo_run =
     [Call OpStartLockSchedule, Call OpRestartOnce] @
     steps 0 [Draw 0, Continue, Continue, Continue, Continue] @ steps 1 [Continue] @
     [Tick 60000000000] @ steps 0 [TimerFires, Continue] @ steps 1 [TimerFires, Continue]"

definition demo :: "Intent sys" where
  "demo = (case run demo_run demo_init of Some t \<Rightarrow> t | None \<Rightarrow> demo_init)"

lemma demo_ok: "run demo_run demo_init \<noteq> None"
  by code_simp

lemma demo_reach: "reach is_init sys_step demo"
  using run_reach [of demo_init demo_run] demo_ok by (auto simp: demo_def demo_init_def)

lemma run_cons: "run (l # ls) s = Some u \<Longrightarrow> \<exists>t. sys_step s l t \<and> run ls t = Some u"
  by (cases l) (auto simp: sys_step_simps split: option.splits if_splits)

text \<open>A run whose labels satisfy a condition is a run of the restricted system.\<close>

lemma run_reach_restricted:
  assumes "\<And>s l t. sys_step s l t \<Longrightarrow> ok l \<Longrightarrow> step s l t"
  shows "reach init step s \<Longrightarrow> run ls s = Some u \<Longrightarrow> \<forall>l \<in> set ls. ok l \<Longrightarrow> reach init step u"
proof (induction ls arbitrary: s)
  case Nil
  then show ?case by simp
next
  case (Cons l ls)
  from run_cons [OF Cons.prems(2)] obtain t where t: "sys_step s l t" "run ls t = Some u" by blast
  have "reach init step t" using Cons.prems(1,3) assms [OF t(1)] by (auto intro: reach_step)
  then show ?case using Cons.IH t(2) Cons.prems(3) by simp
qed

lemma demo_paced: "reach (paced_init 1 2) (paced_step 1 2) demo"
proof -
  have "reach (paced_init 1 2) (paced_step 1 2) demo_init"
    by (rule reach_init) (auto simp: paced_init_def is_init_def demo_init_def ranges_ok_def
      init_sys_def NewScheduler_def NewWithExec_def ok_range_def sane_def)
  moreover have "run demo_run demo_init = Some demo" using demo_ok by (auto simp: demo_def)
  moreover have "\<forall>l \<in> set demo_run. label_ok 1 2 l" by (simp add: demo_run_def steps_def)
  ultimately show ?thesis
    using run_reach_restricted [of "label_ok 1 2" "paced_step 1 2"] by (auto simp: paced_step_def)
qed

lemma demo_facts:
  "length (gos demo) = 2" "map kind (gos demo) = [LockLoop, RestartShot]"
  "times 0 (execLog demo) = [60000000000]" "times 1 (execLog demo) = [60000000000]"
  "map born (gos demo) = [0, 0]" "map rank (map pc (gos demo)) = [10, 3]"
  "map (\<lambda>g. phase_of (pc g)) (gos demo) = [Active, Active]"
  "map ctxCancelled (gos demo) = [False, False]"
  "dryRun (st demo)" "restartPendingOnce (st demo)" "lockScheduleOn (st demo)"
  "map entryAction (execLog demo) = [DryLockScreen, DryRestart]"
  by code_simp+

definition no_start :: "label \<Rightarrow> bool" where
  "no_start l \<longleftrightarrow> l \<noteq> Call OpStartRestartSchedule \<and> l \<noteq> Call OpStartLockSchedule"

lemma demo_quiet: "reach is_init quiet_step demo"
proof -
  have "quiet_step demo_init (Call OpStartLockSchedule) (do_op OpStartLockSchedule demo_init)"
    by (auto simp: quiet_step_def call_step idle_def demo_init_def init_sys_def simp del: do_op.simps)
  moreover have "is_init demo_init" unfolding is_init_def demo_init_def by blast
  ultimately have "reach is_init quiet_step (do_op OpStartLockSchedule demo_init)"
    using reach_step [OF reach_init] by metis
  moreover have "run (tl demo_run) (do_op OpStartLockSchedule demo_init) = Some demo"
    using demo_ok by (auto simp: demo_def demo_run_def)
  moreover have "\<forall>l \<in> set (tl demo_run). no_start l"
    by (simp add: demo_run_def steps_def no_start_def)
  ultimately show ?thesis
    using run_reach_restricted [of no_start quiet_step] by (auto simp: quiet_step_def no_start_def)
qed

text \<open>A disconnected system stays disconnected along a run.\<close>

lemma run_silent: "run ls u = Some t \<Longrightarrow> silent w u \<Longrightarrow> silent w t"
proof (induction ls arbitrary: u)
  case Nil
  then show ?case by simp
next
  case (Cons l ls)
  from run_cons [OF Cons.prems(1)] obtain v where "sys_step u l v" "run ls v = Some t" by blast
  with Cons.IH silent_step [OF Cons.prems(2)] show ?case by blast
qed

section \<open>Properties\<close>

text \<open>
  C8: in every reachable state, a goroutine of an activity that is not cancelled and has not
  begun to clean up is the one that the cancel function of its activity stops, and it is the
  only one: at most one restart schedule, one lock schedule, one pending restart and one pending
  lock are live, whatever starts, stops and clean-ups are interleaved. (The bound excludes only
  the reuse of a 64-bit generation.)
\<close>

theorem one_live_goroutine:
  assumes "reach is_init sys_step s" and "length (gos s) < 2 ^ 64"
    and "i < length (gos s)" and "kind (gos s ! i) = k" and "k \<noteq> Resetter"
    and "phase_of (pc (gos s ! i)) = Active" and "\<not> ctxCancelled (gos s ! i)"
  shows "cancel_of k (sched s) = Some i
    \<and> (\<forall>j < length (gos s). kind (gos s ! j) = k \<and> phase_of (pc (gos s ! j)) = Active
         \<and> \<not> ctxCancelled (gos s ! j) \<longrightarrow> j = i)"
proof -
  have inv: "slot_inv (slot_view k s)"
    using slots.reach_inv [OF assms(1)] assms(2,5) by (auto simp: slots_inv_def)
  have all: "cancel_of k (sched s) = Some j"
    if "j < length (gos s)" "kind (gos s ! j) = k" "phase_of (pc (gos s ! j)) = Active"
      "\<not> ctxCancelled (gos s ! j)" for j
    using slot_live [OF inv, of j] that by (auto simp: slot_view_def has_proc_view)
  then have "cancel_of k (sched s) = Some i" using assms(3-) by blast
  with all show ?thesis by fastforce
qed

theorem one_live_goroutine_witness: "cancel_of LockLoop (sched demo) = Some 0"
proof -
  have "length (gos demo) = 2" "kind (gos demo ! 0) = LockLoop" "\<not> ctxCancelled (gos demo ! 0)"
    "phase_of (pc (gos demo ! 0)) = Active"
    by code_simp+
  then show ?thesis using one_live_goroutine [OF demo_reach, of 0 LockLoop] by simp
qed

text \<open>
  C9: \<open>ResetAll\<close> stops everything: afterwards every goroutine of the scheduler is cancelled or
  already past its last action, no activity holds a cancel function, and the status reports
  nothing as active or pending.
\<close>

theorem reset_stops_everything:
  assumes "reach is_init sys_step s" and "length (gos s) + 1 < 2 ^ 64"
  shows "(\<forall>i < length (gos (ResetAll s)). kind (gos (ResetAll s) ! i) \<noteq> Resetter \<longrightarrow>
            ctxCancelled (gos (ResetAll s) ! i) \<or> phase_of (pc (gos (ResetAll s) ! i)) \<noteq> Active)
    \<and> (\<forall>k. cancel_of k (sched (ResetAll s)) = None \<and> \<not> flag k (st (ResetAll s)))"
proof -
  let ?t = "ResetAll s"
  have t: "?t = do_op OpStateReset (do_op OpCancelLockOnce (do_op OpCancelRestartOnce
      (do_op OpStopLockSchedule (do_op OpStopRestartSchedule s))))"
    by (simp add: ResetAll_def Cancel_def)
  then have "reach is_init sys_step ?t"
    using assms(1) by (simp only: reach_op)
  moreover have "length (gos ?t) < 2 ^ 64"
    using assms(2) by (simp add: t stop_ops other_ops case_prod_unfold Let_def split: option.splits)
  ultimately have inv: "slot_inv (slot_view k ?t)" if "k \<noteq> Resetter" for k
    using slots.reach_inv that by (auto simp: slots_inv_def)
  have none: "cancel_of k (sched ?t) = None" for k
    by (cases k) (simp_all add: t stop_ops other_ops case_prod_unfold Let_def split: option.splits)
  have "\<not> flag k (st ?t)" for k
    by (cases k) (simp_all add: t StateReset_def reset_locked_def)
  with none show ?thesis
    using slot_live [OF inv] by (fastforce simp: slot_view_def has_proc_view)
qed

theorem reset_stops_everything_witness:
  "cancel_of LockLoop (sched demo) = Some 0 \<and> cancel_of LockLoop (sched (ResetAll demo)) = None"
proof -
  have "length (gos demo) = 2" "cancel_of LockLoop (sched demo) = Some 0"
    by code_simp+
  then show ?thesis using reset_stops_everything [OF demo_reach] by simp
qed

text \<open>
  C23: only the functions chosen at construction are ever executed: in dry-run mode no restart
  and no screen lock reaches the operating system, and otherwise restart activities restart
  and lock activities lock.
\<close>

theorem executes_configured_action:
  assumes "reach is_init sys_step s" and "e \<in> set (execLog s)"
  shows "entryAction e =
    (if entryKind e = RestartLoop \<or> entryKind e = RestartShot
     then (if dryRun (st s) then DryRestart else RealRestart)
     else (if dryRun (st s) then DryLockScreen else RealLockScreen))"
proof -
  have "log_inv s" using logged.reach_inv [OF assms(1)] .
  with assms(2) have "entryAction e = action_of (entryKind e) (NewExec (dryRun (st s)))"
    by (auto simp: log_inv_def)
  then show ?thesis by (cases "entryKind e") (simp_all add: NewExec_def)
qed

theorem executes_configured_action_witness:
  "execLog demo \<noteq> [] \<and> entryAction (hd (execLog demo)) = DryLockScreen"
proof -
  have *: "execLog demo \<noteq> []" "entryKind (hd (execLog demo)) = LockLoop" "dryRun (st demo)"
    by code_simp+
  then show ?thesis using executes_configured_action [OF demo_reach, of "hd (execLog demo)"] by simp
qed

text \<open>
  A one-shot executes at most once, and not before 60 seconds have passed since it was
  requested.
\<close>

theorem one_shot_delay:
  assumes "reach is_init sys_step s" and "i < length (gos s)" and "is_shot (kind (gos s ! i))"
  shows "length (times i (execLog s)) \<le> 1
    \<and> (\<forall>t \<in> set (times i (execLog s)). born (gos s ! i) + 60 * second \<le> t)"
proof -
  have "shot_inv (clock s) (kind (gos s ! i)) (born (gos s ! i)) (pc (gos s ! i)) (times i (execLog s))"
    using shots.reach_good [of is_init s] assms(1,2) by (simp add: shots.all_good_def)
  with assms(3) show ?thesis
    by (cases "pc (gos s ! i)") (simp_all add: shot_inv_def onceDelay_def)
qed

theorem one_shot_delay_witness:
  "times 1 (execLog demo) = [60 * second] \<and> length (times 1 (execLog demo)) \<le> 1"
proof -
  have "length (gos demo) = 2" "kind (gos demo ! 1) = RestartShot" "times 1 (execLog demo) = [60 * second]"
    by code_simp+
  then show ?thesis using one_shot_delay [OF demo_reach, of 1] by (simp add: is_shot_def)
qed

text \<open>
  As long as every interval that is set lies between \<open>lo\<close> and \<open>hi\<close> minutes, a schedule never
  executes faster than every \<open>lo\<close> minutes, counted from its start and from the previous
  execution, and what it waits for is never more than \<open>hi\<close> minutes ahead.
\<close>

theorem schedule_pace:
  assumes "reach (paced_init lo hi) (paced_step lo hi) s" and "i < length (gos s)"
    and "is_loop (kind (gos s ! i))"
  shows "spaced (lo * minute) (born (gos s ! i) # times i (execLog s))
    \<and> (\<forall>t. deadline (pc (gos s ! i)) = Some t \<longrightarrow>
         last (born (gos s ! i) # times i (execLog s)) + lo * minute \<le> t \<and> t \<le> clock s + hi * minute)"
proof -
  have "loop_inv lo hi (clock s) (kind (gos s ! i)) (born (gos s ! i)) (pc (gos s ! i)) (times i (execLog s))"
    using loops.reach_good [of "paced_init lo hi" lo hi s] assms(1,2)
    by (auto simp: loops.all_good_def paced_init_def)
  moreover have "reach is_init sys_step s"
    using reach_mono [OF _ _ assms(1)] by (auto simp: paced_init_def paced_step_def)
  then have "pc_ok (kind (gos s ! i)) (pc (gos s ! i))" using reach_pc_ok assms(2) by blast
  ultimately show ?thesis
    using assms(3) by (cases "pc (gos s ! i)") (auto simp: loop_inv_def is_loop_def)
qed

theorem schedule_pace_witness:
  "times 0 (execLog demo) = [60 * second] \<and> spaced (1 * minute) (born (gos demo ! 0) # times 0 (execLog demo))"
proof -
  have "length (gos demo) = 2" "kind (gos demo ! 0) = LockLoop" "times 0 (execLog demo) = [60 * second]"
    by code_simp+
  then show ?thesis using schedule_pace [OF demo_paced, of 0] by (simp add: is_loop_def)
qed

text \<open>
  C24: \<open>randomInterval\<close> draws exactly the whole numbers of minutes of its range, both ends
  included.
\<close>

theorem randomInterval_values:
  assumes "0 < MinMinutes ir" and "MinMinutes ir \<le> MaxMinutes ir" and "MaxMinutes ir \<le> 153722867"
  shows "{randomInterval ir n |n. rand_ok ir n} = (\<lambda>m. m * minute) ` {MinMinutes ir .. MaxMinutes ir}"
proof -
  have sane: "sane (MinMinutes ir) (MaxMinutes ir)" and ok: "ok_range (MinMinutes ir) (MaxMinutes ir) ir"
    using assms by (auto simp: sane_def ok_range_def)
  have "\<exists>n. rand_ok ir n \<and> randomInterval ir n = m * minute"
    if m: "MinMinutes ir \<le> m" "m \<le> MaxMinutes ir" for m
  proof -
    have "\<bar>m\<bar> \<le> 153722867" and "in_i64 m" using assms m by (auto simp: in_i64_def)
    moreover have "rand_ok ir (m - MinMinutes ir)"
      using m ok_range_spread [OF sane ok] by (auto simp: rand_ok_def)
    moreover have "randomInterval ir (m - MinMinutes ir) = m * minute"
      using m calculation ok_range_spread [OF sane ok]
      by (auto simp: randomInterval_def minutes_small)
    ultimately show ?thesis by blast
  qed
  then show ?thesis using randomInterval_eq [OF sane ok] by fastforce
qed

theorem randomInterval_values_witness:
  "{randomInterval \<lparr>MinMinutes = 5, MaxMinutes = 7\<rparr> n |n. rand_ok \<lparr>MinMinutes = 5, MaxMinutes = 7\<rparr> n}
     = (\<lambda>m. m * minute) ` {5 .. 7}"
  using randomInterval_values [of "\<lparr>MinMinutes = 5, MaxMinutes = 7\<rparr>"] by simp

text \<open>
  C20: a one-shot that the status reports as pending belongs to the goroutine started last for
  it, which has not cleaned up yet, and the reported time is 60 seconds after its start; so no
  pending flag is left behind by goroutines that have ended.
\<close>

theorem pending_has_owner:
  assumes "reach is_init sys_step s"
  shows "(RestartPendingOnce (Status (st s)) \<longrightarrow>
            (\<exists>i. owner RestartShot s i
               \<and> RestartOnceAt (Status (st s)) = Some (born (gos s ! i) + 60 * second)))
       \<and> (LockPendingOnce (Status (st s)) \<longrightarrow>
            (\<exists>i. owner LockShot s i
               \<and> LockOnceAt (Status (st s)) = Some (born (gos s ! i) + 60 * second)))"
proof -
  have "pending_inv RestartShot s" and "pending_inv LockShot s"
    using pending.reach_inv [OF assms] by (simp_all add: is_shot_def)
  then show ?thesis by (simp add: pending_inv_def Status_def onceDelay_def)
qed

theorem pending_has_owner_witness:
  "RestartPendingOnce (Status (st demo)) \<and> (\<exists>i. owner RestartShot demo i)"
proof -
  have "RestartPendingOnce (Status (st demo))" by code_simp
  then show ?thesis using pending_has_owner [OF demo_reach] by auto
qed

text \<open>
  The status reports a next time or a pending time exactly for the activities that it
  reports as active or pending, in every reachable state.
\<close>

theorem status_times:
  assumes "reach is_init sys_step s"
  shows "(RestartNextAt (Status (st s)) \<noteq> None) = RestartScheduleActive (Status (st s))
    \<and> (LockNextAt (Status (st s)) \<noteq> None) = LockScheduleActive (Status (st s))
    \<and> (RestartOnceAt (Status (st s)) \<noteq> None) = RestartPendingOnce (Status (st s))
    \<and> (LockOnceAt (Status (st s)) \<noteq> None) = LockPendingOnce (Status (st s))"
  using shown.reach_inv [OF assms] by (simp add: shown_def Status_def)

theorem status_times_witness:
  "LockScheduleActive (Status (st demo)) \<and> LockNextAt (Status (st demo)) \<noteq> None"
proof -
  have "LockScheduleActive (Status (st demo))" by code_simp
  then show ?thesis using status_times [OF demo_reach] by simp
qed

text \<open>
  C21: where a schedule is started only while it runs already or after the goroutine of the
  previous one has ended, a schedule that the status reports as active has the goroutine that
  was started last for it, before its clean-up. Hence a schedule whose goroutines have all
  ended is reported as inactive.
\<close>

theorem active_has_owner:
  assumes "reach is_init quiet_step s"
  shows "(RestartScheduleActive (Status (st s)) \<longrightarrow> (\<exists>i. owner RestartLoop s i) \<and> \<not> idle RestartLoop s)
    \<and> (LockScheduleActive (Status (st s)) \<longrightarrow> (\<exists>i. owner LockLoop s i) \<and> \<not> idle LockLoop s)"
proof -
  have "live_inv RestartLoop s" and "live_inv LockLoop s"
    using live.reach_inv [OF assms] by (simp_all add: is_loop_def)
  moreover have "owner k s i \<Longrightarrow> \<not> idle k s" for k i by (auto simp: owner_def idle_def)
  ultimately show ?thesis by (auto simp: live_inv_def Status_def)
qed

theorem active_has_owner_witness:
  "LockScheduleActive (Status (st demo)) \<and> \<not> idle LockLoop demo"
proof -
  have "LockScheduleActive (Status (st demo))" by code_simp
  then show ?thesis using active_has_owner [OF demo_quiet] by simp
qed

text \<open>
  C34: a goroutine whose context is cancelled can always end: from every reachable state with
  usable intervals, at most eleven of its own steps bring it to its end.
\<close>

theorem cancelled_goroutine_ends:
  assumes "reach is_init sys_step s" and "i < length (gos s)" and "ctx_done s (gos s ! i)"
    and "sane lo hi" and "ok_range lo hi (restartInterval (sched s))"
    and "ok_range lo hi (lockInterval (sched s))"
  shows "\<exists>cs t. length cs \<le> 11 \<and> run (map (\<lambda>c. Go c i) cs) s = Some t \<and> pc (gos t ! i) = Finished"
proof -
  have "drawable s" using assms(4-6) by (auto simp: drawable_def intro: ok_range_rand)
  with way_out_run [OF assms(2) reach_pc_ok [OF assms(1,2)] assms(3)] obtain cs t
    where "length cs \<le> rank (pc (gos s ! i))" "run (map (\<lambda>c. Go c i) cs) s = Some t"
      "pc (gos t ! i) = Finished"
    by blast
  with rank_le [of "pc (gos s ! i)"] show ?thesis by (meson le_trans)
qed

theorem cancelled_goroutine_ends_witness:
  "\<exists>cs t. length cs \<le> 11 \<and> run (map (\<lambda>c. Go c 0) cs) (do_op OpStop demo) = Some t
     \<and> pc (gos t ! 0) = Finished"
proof (rule cancelled_goroutine_ends [OF reach_op [OF demo_reach], where lo = 1 and hi = 2])
  show "0 < length (gos (do_op OpStop demo))" by code_simp
  show "ctx_done (do_op OpStop demo) (gos (do_op OpStop demo) ! 0)" by code_simp
  show "sane 1 2" by (simp add: sane_def)
  show "ok_range 1 2 (restartInterval (sched (do_op OpStop demo)))" by code_simp
  show "ok_range 1 2 (lockInterval (sched (do_op OpStop demo)))" by code_simp
qed

text \<open>
  Starting the restart schedule, and its goroutine running up to its first wait, reports the
  schedule as active with the time of the first restart, records the intent, and arms the timer
  for the interval that was drawn.
\<close>

theorem start_announces:
  assumes "restartScheduleCancel (sched s) = None" and "\<not> restartScheduleOn (st s)"
    and "onChange (st s) = Some fn" and "rand_ok (restartInterval (sched s)) n"
  shows "\<exists>t. run (Call OpStartRestartSchedule #
        steps (length (gos s)) [Draw n, Continue, Continue, Continue, Continue]) s = Some t
     \<and> RestartScheduleActive (Status (st t))
     \<and> RestartNextAt (Status (st t)) = Some (clock s + randomInterval (restartInterval (sched s)) n)
     \<and> deadline (pc (gos t ! length (gos s))) = Some (clock s + randomInterval (restartInterval (sched s)) n)
     \<and> world t = fn \<lparr>RestartScheduleEnabled = True, LockScheduleEnabled = lockScheduleOn (st s)\<rparr> (world s)
     \<and> restartScheduleCancel (sched t) = Some (length (gos s))"
  using assms
  by (simp add: steps_def StartRestartSchedule_def Let_def go_step_def restart_loop_def new_go_def
    set_pc_def goes_def setRestartSchedule_locked_def notify_read_def notify_call_def intent_def
    Status_def nth_append list_update_append)

theorem start_announces_witness:
  "\<exists>t. run (Call OpStartRestartSchedule #
        steps 0 [Draw 0, Continue, Continue, Continue, Continue]) demo_init = Some t
     \<and> world t = \<lparr>RestartScheduleEnabled = True, LockScheduleEnabled = False\<rparr>"
proof -
  have "restartScheduleCancel (sched demo_init) = None" "\<not> restartScheduleOn (st demo_init)"
    "onChange (st demo_init) = Some (\<lambda>i w. i)" "rand_ok (restartInterval (sched demo_init)) 0"
    "gos demo_init = []" "\<not> lockScheduleOn (st demo_init)"
    by (simp_all add: demo_init_def init_sys_def NewScheduler_def NewWithExec_def SetOnChange_def
      NewState_def rand_ok_def spread_def i64_def)
  then show ?thesis using start_announces [of demo_init "\<lambda>i w. i" 0] by auto
qed

text \<open>
  C35: an interleaving that leaves the flag of a schedule behind: the restart schedule has been
  stopped, all of its goroutines have ended, and the status still reports it as active and the
  intent that is recorded for the next start of the program still asks for it. The hypothesis
  of \<open>active_has_owner\<close> is violated by a second start before the first goroutine had run.
\<close>

theorem stuck_flag_reachable:
  "\<exists>s :: Intent sys. reach is_init sys_step s \<and> idle RestartLoop s
     \<and> restartScheduleCancel (sched s) = None \<and> RestartScheduleActive (Status (st s))
     \<and> RestartScheduleEnabled (world s)"
proof -
  have "restartScheduleCancel (sched (final stuck_flag_run)) = None" by code_simp
  with race_reach [OF stuck_ok] stuck_final show ?thesis by (auto simp: Status_def)
qed

text \<open>
  An interleaving that loses the flag of a schedule: the restart schedule runs, its goroutine
  waits for its timer and is not cancelled, and the status reports it as inactive and the
  recorded intent does not ask for it, because the clean-up of the previous goroutine cleared
  the flag after it had released the lock of the scheduler.
\<close>

theorem lost_flag_reachable:
  "\<exists>s :: Intent sys. reach is_init sys_step s
     \<and> (\<exists>i t. restartScheduleCancel (sched s) = Some i \<and> deadline (pc (gos s ! i)) = Some t
          \<and> \<not> ctx_done s (gos s ! i))
     \<and> \<not> RestartScheduleActive (Status (st s)) \<and> \<not> RestartScheduleEnabled (world s)"
proof -
  have "\<not> ctx_done (final lost_flag_run) (gos (final lost_flag_run) ! 1)" by code_simp
  with race_reach [OF lost_ok] lost_final show ?thesis by (auto simp: Status_def)
qed

text \<open>
  C36: an interleaving of two notifications that records a stale intent: both schedules run and
  are reported as active, no notification is outstanding, and the recorded intent misses one of
  them, because an intent that was read first was written last.
\<close>

theorem stale_intent_reachable:
  "\<exists>s :: Intent sys. reach is_init sys_step s
     \<and> RestartScheduleActive (Status (st s)) \<and> LockScheduleActive (Status (st s))
     \<and> list_all (\<lambda>g. deadline (pc g) \<noteq> None) (gos s) \<and> \<not> LockScheduleEnabled (world s)"
proof -
  have "restartScheduleOn (st (final stale_intent_run))"
    "list_all (\<lambda>g. deadline (pc g) \<noteq> None) (gos (final stale_intent_run))"
    by code_simp+
  with race_reach [OF stale_ok] stale_final show ?thesis by (auto simp: Status_def)
qed



end
