(* ===== verification/Lifecycle.thy ===== *)
theory Lifecycle
  imports Handling Scheduling
begin

text \<open>
  The life of the program: the dispatch of the command line and \<open>runForeground\<close> in
  \<open>cmd/root.go\<close>, \<open>Execute\<close> in \<open>service/service_windows.go\<close>, and \<open>server.Run\<close>. Both ways of
  running load the configuration, connect the persistence, resume the recorded schedules and
  build the server; both shut down by disconnecting the persistence before the scheduler is
  stopped.
\<close>

section \<open>The command line\<close>

definition AppVersion :: string where
  "AppVersion = ''1.2.7''"

text \<open>
  The package \<open>flag\<close>: one or two dashes, an optional value after an equals sign, a value in the
  next argument for the flags that are not boolean; the first argument that is no flag ends the
  parsing. With \<open>ExitOnError\<close> every error ends the program, as does the request for help.
\<close>

record run_flags =
  flagDryRun :: bool
  flagConfig :: string
  flagLog :: string

datatype flag_error = BadSyntax string | NoSuchFlag string | BadBool string | MissingValue string | Help

definition parse_bool :: "string \<Rightarrow> bool option" where
  "parse_bool s =
     (if s \<in> set [''1'', ''t'', ''T'', ''TRUE'', ''true'', ''True''] then Some True
      else if s \<in> set [''0'', ''f'', ''F'', ''FALSE'', ''false'', ''False''] then Some False
      else None)"

text \<open>The name of a flag, and its value where there is an equals sign (not in the first place).\<close>

definition split_flag :: "string \<Rightarrow> string \<times> string option" where
  "split_flag s =
     (case index_byte (drop 1 s) CHR ''='' of
        None \<Rightarrow> (s, None)
      | Some i \<Rightarrow> (take (Suc i) s, Some (drop (Suc (Suc i)) s)))"

fun parse_flags :: "string list \<Rightarrow> run_flags \<Rightarrow> flag_error + run_flags" where
  "parse_flags [] fl = Inr fl"
| "parse_flags (a # rest) fl =
     (if length a < 2 \<or> \<not> has_prefix a ''-'' then Inr fl
      else
        (let dashes = (if has_prefix a ''--'' then 2 else 1);
             body = drop dashes a
         in if dashes = 2 \<and> body = [] then Inr fl
            else if body = [] \<or> has_prefix body ''-'' \<or> has_prefix body ''='' then Inl (BadSyntax a)
            else
              (let (name, val) = split_flag body
               in if name = ''dry-run'' \<or> name = ''d'' then
                    (case val of
                       None \<Rightarrow> parse_flags rest (fl\<lparr>flagDryRun := True\<rparr>)
                     | Some v \<Rightarrow>
                         (case parse_bool v of
                            None \<Rightarrow> Inl (BadBool v)
                          | Some b \<Rightarrow> parse_flags rest (fl\<lparr>flagDryRun := b\<rparr>)))
                  else if name = ''f'' \<or> name = ''log'' then
                    (case val of
                       Some v \<Rightarrow>
                         parse_flags rest (if name = ''f'' then fl\<lparr>flagConfig := v\<rparr> else fl\<lparr>flagLog := v\<rparr>)
                     | None \<Rightarrow>
                         (case rest of
                            [] \<Rightarrow> Inl (MissingValue name)
                          | v # rest' \<Rightarrow>
                              parse_flags rest' (if name = ''f'' then fl\<lparr>flagConfig := v\<rparr> else fl\<lparr>flagLog := v\<rparr>)))
                  else if name = ''help'' \<or> name = ''h'' then Inl Help
                  else Inl (NoSuchFlag name))))"

datatype command =
    RunAsService
  | PrintUsage
  | Install
  | Uninstall
  | StartService
  | StopService
  | UpgradeService
  | RunForeground run_flags
  | BadFlags flag_error

definition Run :: "bool \<Rightarrow> string \<Rightarrow> string list \<Rightarrow> command" where
  "Run isWindowsService defaultPath args =
     (case args of
        [] \<Rightarrow> if isWindowsService then RunAsService else PrintUsage
      | c # rest \<Rightarrow>
          if c = ''install'' then Install
          else if c = ''uninstall'' then Uninstall
          else if c = ''start'' then StartService
          else if c = ''stop'' then StopService
          else if c = ''upgrade'' then UpgradeService
          else if c = ''run'' then
            (case parse_flags rest \<lparr>flagDryRun = False, flagConfig = defaultPath, flagLog = []\<rparr> of
               Inl e \<Rightarrow> BadFlags e
             | Inr fl \<Rightarrow> RunForeground fl)
          else PrintUsage)"

section \<open>Starting\<close>

text \<open>The platform's functions on paths.\<close>

record paths =
  dirOf :: "string \<Rightarrow> string"
  joinOf :: "string list \<Rightarrow> string"

definition state_path :: "paths \<Rightarrow> string \<Rightarrow> string" where
  "state_path ps configFile = StatePath (dirOf ps) (joinOf ps) configFile"

text \<open>Previously active schedules are started again.\<close>

definition restore :: "Intent \<Rightarrow> 'w sys \<Rightarrow> 'w sys" where
  "restore i s =
     (let s1 = (if RestartScheduleEnabled i then StartRestartSchedule s else s)
      in if LockScheduleEnabled i then StartLockSchedule s1 else s1)"

text \<open>
  The common part of \<open>runForeground\<close> and \<open>Execute\<close>, after the configuration has been loaded: the
  state with its persistence, the scheduler with the intervals of the configuration, the
  schedules of the recorded intent, the updater and the server.
\<close>

definition start_program ::
  "paths \<Rightarrow> bool \<Rightarrow> Config \<Rightarrow> string \<Rightarrow> string \<Rightarrow> string \<Rightarrow> instant \<Rightarrow> os \<Rightarrow> server"
where
  "start_program ps dry cfg configFile level ver t0 w =
     (let statePath = state_path ps configFile;
          sys = init_sys dry (restart_range cfg) (lock_range cfg) (Some (save_callback statePath)) w t0;
          intent = LoadIntent statePath w;
          u = NewUpdater ver []
      in New_server cfg configFile (restore intent sys) u ver (Setup level))"

datatype start_error = ConfigError config_error | InvalidLog string

text \<open>
  \<open>runForeground\<close> up to the start of the server; the flag overrides the level of the
  configuration and is saved there (a failed save is only a warning).
\<close>

definition runForeground ::
  "paths \<Rightarrow> run_flags \<Rightarrow> instant \<Rightarrow> os \<Rightarrow> (start_error + server) \<times> os"
where
  "runForeground ps fl t0 w =
     (case Load (flagConfig fl) w of
        (Inl e, w1) \<Rightarrow> (Inl (ConfigError e), w1)
      | (Inr cfg, w1) \<Rightarrow>
          if flagLog fl \<noteq> [] \<and> \<not> known_level (flagLog fl) then (Inl (InvalidLog (flagLog fl)), w1)
          else
            (let override = (flagLog fl \<noteq> [] \<and> flagLog fl \<noteq> LogLevel cfg);
                 cfg1 = (if override then cfg\<lparr>LogLevel := flagLog fl\<rparr> else cfg);
                 w2 = (if override then snd (Save cfg1 (flagConfig fl) w1) else w1);
                 s = start_program ps (flagDryRun fl) cfg1 (flagConfig fl) (LogLevel cfg1) AppVersion t0 w2
             in (Inr s, disk s)))"

section \<open>The service\<close>

datatype svc_state = StartPending | SvcRunning | StopPending

datatype svc_cmd = Interrogate svc_state | SvcStop | SvcShutdown | SvcOther

text \<open>
  \<open>st.SetOnChange(nil)\<close>, \<open>sched.Stop()\<close> and \<open>cancel()\<close>: the root context of the scheduler is derived
  from the one that \<open>cancel\<close> ends.
\<close>

definition shutdown :: "server \<Rightarrow> server" where
  "shutdown s = on_sys (\<lambda>y. do_op OpStop (do_op OpDisconnect y)) s"

text \<open>
  The loop over the requests of the service manager; each request comes with the state the
  server has then. The result is missing as long as the loop waits.
\<close>

fun service_loop :: "(svc_cmd \<times> server) list \<Rightarrow> svc_state list \<times> (server \<times> bool \<times> nat) option" where
  "service_loop [] = ([], None)"
| "service_loop ((c, s) # cs) =
     (case c of
        Interrogate cur \<Rightarrow> (let (sts, r) = service_loop cs in (cur # sts, r))
      | SvcStop \<Rightarrow> ([StopPending], Some (shutdown s, False, 0))
      | SvcShutdown \<Rightarrow> ([StopPending], Some (shutdown s, False, 0))
      | SvcOther \<Rightarrow> service_loop cs)"

text \<open>\<open>Execute\<close>: the statuses it sends until its loop, and the server, or its exit code.\<close>

definition Execute_start ::
  "paths \<Rightarrow> string \<Rightarrow> string \<Rightarrow> instant \<Rightarrow> os \<Rightarrow> svc_state list \<times> ((bool \<times> nat) + server) \<times> os"
where
  "Execute_start ps configPath ver t0 w =
     (case Load configPath w of
        (Inl e, w1) \<Rightarrow> ([StartPending], Inl (False, 1), w1)
      | (Inr cfg, w1) \<Rightarrow>
          (let s = start_program ps False cfg configPath (LogLevel cfg) ver t0 w1
           in ([StartPending, SvcRunning], Inr s, disk s)))"

text \<open>
  \<open>server.Run\<close> returns what ended it: an error of the listener, nothing where the server was
  closed, and the result of \<open>Shutdown\<close> where the context was done first.
\<close>

datatype run_end = ListenError string | ServerClosed | ContextDone "string option"

fun Run_server :: "run_end \<Rightarrow> string option" where
  "Run_server (ListenError e) = Some e"
| "Run_server ServerClosed = None"
| "Run_server (ContextDone r) = r"

text \<open>Signals in the foreground: the first one shuts down, the second one ends the process.\<close>

datatype foreground = Serving server | ShuttingDown server | Exited nat

fun on_signal :: "foreground \<Rightarrow> foreground" where
  "on_signal (Serving s) = ShuttingDown (shutdown s)"
| "on_signal (ShuttingDown s) = Exited 1"
| "on_signal (Exited n) = Exited n"

section \<open>Lemmas\<close>

definition restore_ops :: "Intent \<Rightarrow> op list" where
  "restore_ops i =
     (if RestartScheduleEnabled i then [OpStartRestartSchedule] else [])
     @ (if LockScheduleEnabled i then [OpStartLockSchedule] else [])"

lemma restore_ops: "restore i s = do_ops (restore_ops i) s"
  by (simp add: restore_def restore_ops_def)

lemmas boot_defs = init_sys_def NewScheduler_def NewWithExec_def SetOnChange_def NewState_def
  restart_range_def lock_range_def

lemma start_program_simps [simp]:
  "holder (start_program ps dry c f l v t w) = newConfigHolder c f"
  "disk (start_program ps dry c f l v t w) = w"
  "upd (start_program ps dry c f l v t w) = NewUpdater v []"
  "logger (start_program ps dry c f l v t w) = Setup l"
  "timeout (store (start_program ps dry c f l v t w)) = minutes (SessionTimeoutMinutes c)"
  by (simp_all add: start_program_def New_server_def Let_def newSessionStore_def disk_def restore_def
    start_ops init_sys_def)

lemma start_program_sys:
  "sys_of (start_program ps dry c f l v t w) =
     do_ops (restore_ops (LoadIntent (state_path ps f) w))
       (init_sys dry (restart_range c) (lock_range c) (Some (save_callback (state_path ps f))) w t)"
  by (simp add: start_program_def New_server_def Let_def restore_ops)

text \<open>The configuration that a successful start works with, and what is on the disk then.\<close>

lemma runForeground_start:
  assumes "runForeground ps fl t0 w = (Inr s, w')"
  obtains c where "s = start_program ps (flagDryRun fl) c (flagConfig fl) (LogLevel c) AppVersion t0 w'"
    "valid_config c" "flagLog fl \<noteq> [] \<longrightarrow> LogLevel c = flagLog fl"
proof -
  obtain x w1 where load: "Load (flagConfig fl) w = (x, w1)" by (cases "Load (flagConfig fl) w")
  with assms obtain c0 where c0: "x = Inr c0" by (cases x) (simp_all add: runForeground_def)
  with load have valid: "valid_config c0" using Load_valid_config by blast
  have ok: "\<not> (flagLog fl \<noteq> [] \<and> \<not> known_level (flagLog fl))"
    using assms load c0 by (auto simp: runForeground_def split: if_splits)
  define o1 where "o1 \<longleftrightarrow> flagLog fl \<noteq> [] \<and> flagLog fl \<noteq> LogLevel c0"
  define c where "c = (if o1 then c0\<lparr>LogLevel := flagLog fl\<rparr> else c0)"
  define w2 where "w2 = (if o1 then snd (Save c (flagConfig fl) w1) else w1)"
  have "runForeground ps fl t0 w =
      (Inr (start_program ps (flagDryRun fl) c (flagConfig fl) (LogLevel c) AppVersion t0 w2), w2)"
    using load c0 ok by (cases o1) (auto simp: runForeground_def Let_def c_def w2_def o1_def)
  with assms have "s = start_program ps (flagDryRun fl) c (flagConfig fl) (LogLevel c) AppVersion t0 w'"
    by auto
  moreover have "valid_config c" using valid ok by (auto simp: c_def o1_def valid_config_def)
  moreover have "flagLog fl \<noteq> [] \<longrightarrow> LogLevel c = flagLog fl" by (simp add: c_def o1_def)
  ultimately show thesis by (rule that)
qed

text \<open>The goroutines that a start leaves behind.\<close>

lemma restored_gos:
  "map kind (gos (do_ops (restore_ops i) (init_sys dry r l fn w t))) =
     (if RestartScheduleEnabled i then [RestartLoop] else [])
     @ (if LockScheduleEnabled i then [LockLoop] else [])"
  by (simp add: restore_ops_def start_ops boot_defs new_go_def)

text \<open>The first steps of the goroutines of a start, up to their waits.\<close>

definition first_steps :: "Intent \<Rightarrow> label list" where
  "first_steps i =
     (let go = [Draw 0, Continue, Continue, Continue, Continue];
          k = (if RestartScheduleEnabled i then 1 else 0)
      in (if RestartScheduleEnabled i then steps 0 go else [])
         @ (if LockScheduleEnabled i then steps k go else []))"

lemma first_steps_run:
  fixes w :: os
  assumes "rand_ok r 0" and "rand_ok l 0"
  shows "\<exists>t. run (first_steps i) (do_ops (restore_ops i) (init_sys dry r l (Some fn) w t0)) = Some t
    \<and> intent (st t) = i
    \<and> (if i = no_intent then world t = w else world t = fn i w \<or> (\<exists>j. world t = fn i (fn j w)))"
  using assms
  by (cases i; cases "RestartScheduleEnabled i"; cases "LockScheduleEnabled i")
    (auto simp: first_steps_def steps_def restore_ops_def start_ops boot_defs go_step_def new_go_def
      restart_loop_def lock_loop_def set_pc_def goes_def setRestartSchedule_locked_def
      setLockSchedule_locked_def notify_read_def notify_call_def intent_def no_intent_def Let_def)

lemma valid_config_draw:
  "valid_config c \<Longrightarrow> rand_ok (restart_range c) 0 \<and> rand_ok (lock_range c) 0"
  using config_ranges [of c] ok_range_rand [of 1 1440] by (simp add: sane_def)

text \<open>A disk and paths for the witnesses: both schedules were on when the program ended.\<close>

definition demo_paths :: paths where
  "demo_paths = \<lparr>dirOf = (\<lambda>_. []), joinOf = concat\<rparr>"

definition both_on :: Intent where
  "both_on = \<lparr>RestartScheduleEnabled = True, LockScheduleEnabled = True\<rparr>"

definition boot_disk :: os where
  "boot_disk = snd (Save defaults ''c'' (snd (SaveIntent ''state.json'' both_on empty_disk)))"

definition demo_flags :: run_flags where
  "demo_flags = \<lparr>flagDryRun = False, flagConfig = ''c'', flagLog = []\<rparr>"

lemma demo_state_path: "state_path demo_paths ''c'' = ''state.json''"
  by (simp add: state_path_def demo_paths_def StatePath_def)

lemma boot_disk_ok: "disk_ok p boot_disk"
  by (simp add: boot_disk_def Save_def SaveIntent_def Let_def case_prod_unfold)

lemma boot_disk_intent: "LoadIntent ''state.json'' boot_disk = both_on"
proof -
  have "LoadIntent ''state.json'' (snd (SaveIntent ''state.json'' both_on empty_disk)) = both_on"
    using LoadIntent_SaveIntent [of "''state.json''" empty_disk both_on] by (metis empty_disk_ok(1) prod.collapse)
  moreover have "os_ReadFile ''state.json'' boot_disk =
      os_ReadFile ''state.json'' (snd (SaveIntent ''state.json'' both_on empty_disk))"
    by (simp add: boot_disk_def Save_def os_ReadFile_def split: option.split)
  ultimately show ?thesis by (simp add: LoadIntent_def)
qed

lemma boot_disk_load: "Load ''c'' boot_disk = (Inr defaults, boot_disk)"
proof -
  have "disk_ok ''c'' (snd (SaveIntent ''state.json'' both_on empty_disk))"
    by (simp add: SaveIntent_def Let_def case_prod_unfold)
  then show ?thesis using Load_Save [of defaults "''c''"] defaults_int_valid by (simp add: boot_disk_def)
qed

lemma demo_boot:
  "runForeground demo_paths demo_flags 0 boot_disk =
     (Inr (start_program demo_paths False defaults ''c'' ''info'' AppVersion 0 boot_disk), boot_disk)"
  by (simp add: runForeground_def demo_flags_def boot_disk_load) (simp add: defaults_def)

section \<open>Properties\<close>

text \<open>
  C6: a start resumes what was recorded: the program starts with a well-formed configuration and
  its intervals, exactly one goroutine for every schedule that the state file asks for and no
  other, and when these have reached their first waits, the status reports exactly the recorded
  schedules as active and the file still records them.
\<close>

theorem boot_resumes:
  assumes "runForeground ps fl t0 w = (Inr s, w')"
  defines "i \<equiv> LoadIntent (state_path ps (flagConfig fl)) w'"
  shows "valid_config (ch_cfg (holder s)) \<and> disk s = w'
    \<and> exec (sched (sys_of s)) = NewExec (flagDryRun fl)
    \<and> restartInterval (sched (sys_of s)) = restart_range (ch_cfg (holder s))
    \<and> lockInterval (sched (sys_of s)) = lock_range (ch_cfg (holder s))
    \<and> map kind (gos (sys_of s)) =
        (if RestartScheduleEnabled i then [RestartLoop] else [])
        @ (if LockScheduleEnabled i then [LockLoop] else [])
    \<and> (\<exists>t. run (first_steps i) (sys_of s) = Some t
         \<and> RestartScheduleActive (Status (st t)) = RestartScheduleEnabled i
         \<and> LockScheduleActive (Status (st t)) = LockScheduleEnabled i
         \<and> (disk_ok (state_path ps (flagConfig fl)) w' \<longrightarrow>
              LoadIntent (state_path ps (flagConfig fl)) (world t) = i))"
proof -
  let ?p = "state_path ps (flagConfig fl)"
  obtain c where s: "s = start_program ps (flagDryRun fl) c (flagConfig fl) (LogLevel c) AppVersion t0 w'"
    and c: "valid_config c"
    using runForeground_start [OF assms(1)] by metis
  let ?init = "init_sys (flagDryRun fl) (restart_range c) (lock_range c) (Some (save_callback ?p)) w' t0"
  have sys: "sys_of s = do_ops (restore_ops i) ?init" by (simp add: s start_program_sys i_def)
  have keep: "restartInterval (sched (sys_of s)) = restart_range c"
    "lockInterval (sched (sys_of s)) = lock_range c" "exec (sched (sys_of s)) = NewExec (flagDryRun fl)"
    unfolding sys restore_ops_def by (simp_all add: start_ops boot_defs)
  have kinds: "map kind (gos (sys_of s)) = (if RestartScheduleEnabled i then [RestartLoop] else [])
        @ (if LockScheduleEnabled i then [LockLoop] else [])"
    unfolding sys by (rule restored_gos)
  obtain t where t: "run (first_steps i) (sys_of s) = Some t" "intent (st t) = i"
    and w: "if i = no_intent then world t = w'
      else world t = save_callback ?p i w' \<or> (\<exists>j. world t = save_callback ?p i (save_callback ?p j w'))"
    using first_steps_run [of "restart_range c" "lock_range c"] valid_config_draw [OF c] unfolding sys by metis
  have "LoadIntent ?p (world t) = i" if "disk_ok ?p w'"
  proof (cases "i = no_intent")
    case True
    with w i_def show ?thesis by simp
  next
    case False
    with w that show ?thesis
      using recorded_save [of ?p i] by (auto simp: recorded_def)
  qed
  moreover have "RestartScheduleActive (Status (st t)) = RestartScheduleEnabled i"
    "LockScheduleActive (Status (st t)) = LockScheduleEnabled i"
    using t(2) by (auto simp: Status_def intent_def)
  moreover have "ch_cfg (holder s) = c" "disk s = w'" by (simp_all add: s newConfigHolder_def)
  ultimately show ?thesis using c keep kinds t(1) by auto
qed

theorem boot_resumes_witness:
  "map kind (gos (sys_of (start_program demo_paths False defaults ''c'' ''info'' AppVersion 0 boot_disk)))
     = [RestartLoop, LockLoop]"
  using boot_resumes [OF demo_boot]
  by (simp add: demo_state_path boot_disk_intent both_on_def demo_flags_def)

text \<open>
  C38: the window of a start. Where both schedules were recorded, the goroutine of the restart
  schedule announces itself first and thereby records the lock schedule as off. If the program is
  shut down before the goroutine of the lock schedule has announced itself (or the machine stops
  there), the file keeps that: whatever still runs, the next start does not resume the lock
  schedule, although nobody has switched it off.
\<close>

theorem boot_window_loses_intent:
  assumes "runForeground ps fl t0 w = (Inr s, w')"
    and "LoadIntent (state_path ps (flagConfig fl)) w' = both_on"
    and "disk_ok (state_path ps (flagConfig fl)) w'"
  shows "\<exists>t. run (steps 0 [Draw 0, Continue, Continue, Continue]) (sys_of s) = Some t
    \<and> (\<forall>ls u. run ls (do_op OpStop (do_op OpDisconnect t)) = Some u \<longrightarrow>
         LoadIntent (state_path ps (flagConfig fl)) (world u) =
           \<lparr>RestartScheduleEnabled = True, LockScheduleEnabled = False\<rparr>)"
proof -
  let ?p = "state_path ps (flagConfig fl)" and ?i = "\<lparr>RestartScheduleEnabled = True, LockScheduleEnabled = False\<rparr>"
  obtain c where s: "s = start_program ps (flagDryRun fl) c (flagConfig fl) (LogLevel c) AppVersion t0 w'"
    and c: "valid_config c"
    using runForeground_start [OF assms(1)] by metis
  have sys: "sys_of s = do_ops (restore_ops both_on)
      (init_sys (flagDryRun fl) (restart_range c) (lock_range c) (Some (save_callback ?p)) w' t0)"
    by (simp add: s start_program_sys assms(2))
  have "\<exists>t. run (steps 0 [Draw 0, Continue, Continue, Continue]) (sys_of s) = Some t
      \<and> world t = save_callback ?p ?i w' \<and> list_all (\<lambda>g. \<not> in_flight (pc g)) (gos t)"
    using valid_config_draw [OF c] unfolding sys
    by (simp add: steps_def restore_ops_def both_on_def start_ops boot_defs go_step_def new_go_def
      restart_loop_def set_pc_def goes_def setRestartSchedule_locked_def
      notify_read_def notify_call_def intent_def Let_def)
  then obtain t where t: "run (steps 0 [Draw 0, Continue, Continue, Continue]) (sys_of s) = Some t"
    "world t = save_callback ?p ?i w'" "list_all (\<lambda>g. \<not> in_flight (pc g)) (gos t)"
    by blast
  have "silent (world t) (do_op OpStop (do_op OpDisconnect t))"
    using t(3) by (simp add: silent_def Stop_def Disconnect_def SetOnChange_def list_all_iff)
  then have "world u = world t" if "run ls (do_op OpStop (do_op OpDisconnect t)) = Some u" for ls u
    using run_silent [OF that] by (simp add: silent_def)
  moreover have "LoadIntent ?p (world t) = ?i"
    using recorded_save [of ?p ?i w'] assms(3) t(2) by (simp add: recorded_def)
  ultimately show ?thesis using t(1) by auto
qed

theorem boot_window_loses_intent_witness:
  "\<exists>t. run (steps 0 [Draw 0, Continue, Continue, Continue])
         (sys_of (start_program demo_paths False defaults ''c'' ''info'' AppVersion 0 boot_disk)) = Some t
     \<and> \<not> LockScheduleEnabled (LoadIntent ''state.json'' (world (do_op OpStop (do_op OpDisconnect t))))"
proof -
  have "run [] x = Some x" for x :: "os sys" by simp
  then show ?thesis
    using boot_window_loses_intent [OF demo_boot] boot_disk_ok boot_disk_intent
    unfolding demo_flags_def run_flags.simps demo_state_path by (metis Intent.select_convs(2))
qed

end
