(* ===== verification/ServerRuns.thy ===== *)
theory ServerRuns
  imports Lifecycle
begin

text \<open>
  The whole program as one transition system. From a start of the program on, requests are
  served, the goroutines of the scheduler run, time passes, the background check and the
  goroutine and timer of an upgrade run, the disk changes or fails, and the program is shut
  down, in any order. The locale \<open>scheduler_invariant\<close> carries an invariant of the scheduler over
  to this system, and is interpreted for the invariants of the theories \<open>Slots\<close>, \<open>Runs\<close> and
  \<open>Flags\<close>; the configuration, the updater and the upgrade have invariants of their own.
\<close>

section \<open>The transition system\<close>

text \<open>A start in the foreground or as a service.\<close>

definition started :: "server \<Rightarrow> bool" where
  "started s \<longleftrightarrow>
     (\<exists>ps fl t0 w w'. runForeground ps fl t0 w = (Inr s, w'))
     \<or> (\<exists>ps p ver t0 w sts w'. Execute_start ps p ver t0 w = (sts, Inr s, w'))"

text \<open>The first part of \<open>updateApply\<close> behind the middleware; the answer follows later.\<close>

definition begin_apply :: "server handler" where
  "begin_apply e r s =
     (let (claimed, s1) = claim_upgrade s
      in (if claimed then ok_map [] else fail_map 409 [(''error'', ''upgrade already in progress'')], s1))"

definition run_upgrade :: "platform \<Rightarrow> string \<Rightarrow> bool \<Rightarrow> os \<Rightarrow> bool \<times> bool \<times> os" where
  "run_upgrade pf tmpPath fl w =
     (if windows pf then applyUpgrade (machine pf) tmpPath fl w else applyUpgrade_other tmpPath fl w)"

definition upgrade_step :: "platform \<Rightarrow> string \<Rightarrow> string list \<Rightarrow> server \<Rightarrow> server" where
  "upgrade_step pf tmp rest s =
     (let (launched, fl, w) = run_upgrade pf tmp (upgradeInProgress s) (disk s)
      in set_disk w (s\<lparr>upgrading := rest, upgradeInProgress := fl,
                       timers := (if launched then Suc (timers s) else timers s)\<rparr>))"

datatype server_label =
    Request env request
  | ApplyBegins env request
  | ApplyContinues
  | UpgradeRuns
  | UpgradeTimer
  | Background
  | Goroutine choice nat
  | Passes duration
  | DiskChanges
  | Shutdown

inductive server_step :: "server \<Rightarrow> server_label \<Rightarrow> server \<Rightarrow> bool" where
  request: "now e = clock (sys_of s) \<Longrightarrow> server_step s (Request e r) (snd (handle pf e r s))"
| apply_begins: "now e = clock (sys_of s) \<Longrightarrow> req_path r = ''/api/update/apply'' \<Longrightarrow> req_method r = ''POST'' \<Longrightarrow>
    server_step s (ApplyBegins e r) (snd (basicAuth begin_apply e r s))"
| apply_continues: "0 < preparing s \<Longrightarrow> server_step s ApplyContinues (snd (prepare_upgrade pf s))"
| upgrade_runs: "upgrading s = tmp # rest \<Longrightarrow> server_step s UpgradeRuns (upgrade_step pf tmp rest s)"
| upgrade_timer: "0 < timers s \<Longrightarrow>
    server_step s UpgradeTimer
      (s\<lparr>timers := timers s - 1, upgradeInProgress := upgradeTimeout (upgradeInProgress s)\<rparr>)"
| background: "server_step s Background (s\<lparr>upd := snd (Updater.Check nw (upd s))\<rparr>)"
| goroutine: "go_step c i (sys_of s) = Some y \<Longrightarrow> server_step s (Goroutine c i) (s\<lparr>sys_of := y\<rparr>)"
| passes: "0 \<le> d \<Longrightarrow>
    server_step s (Passes d) (s\<lparr>sys_of := (sys_of s)\<lparr>clock := clock (sys_of s) + d\<rparr>\<rparr>)"
| disk_changes: "server_step s DiskChanges (set_disk w s)"
| shuts_down: "server_step s Shutdown (shutdown s)"

inductive_cases upgrade_stepE:
  "server_step s ApplyContinues t" "server_step s UpgradeRuns t" "server_step s UpgradeTimer t"

text \<open>What both starts have in common.\<close>

lemma started_program:
  assumes "started s"
  obtains ps dry c f ver t0 w where "s = start_program ps dry c f (LogLevel c) ver t0 w" "valid_config c"
proof -
  from assms consider (fg) ps fl t0 w w' where "runForeground ps fl t0 w = (Inr s, w')"
    | (svc) ps p ver t0 w sts w' where "Execute_start ps p ver t0 w = (sts, Inr s, w')"
    unfolding started_def by blast
  then show thesis
  proof cases
    case fg
    then show thesis using runForeground_start that by metis
  next
    case svc
    then obtain c w1 where "Load p w = (Inr c, w1)" "s = start_program ps False c p (LogLevel c) ver t0 w1"
      by (cases "Load p w"; cases "fst (Load p w)") (auto simp: Execute_start_def Let_def)
    then show thesis using that Load_valid_config by blast
  qed
qed

text \<open>Behind the middleware: what holds after the handler and without it holds after the request.\<close>

lemma guard_rule:
  assumes "\<And>s'. holder s' = holder s \<Longrightarrow> auth.more s' = auth.more s \<Longrightarrow> Q (snd (nx e r s'))"
    and "\<And>s'. holder s' = holder s \<Longrightarrow> auth.more s' = auth.more s \<Longrightarrow> Q s'"
  shows "Q (snd (basicAuth nx e r s))"
proof (cases "authorised e r s")
  case True
  then obtain cs s' where "basicAuth nx e r s = (with_cookies cs (fst (nx e r s')), snd (nx e r s'))"
    "holder s' = holder s" "auth.more s' = auth.more s"
    by (rule guard_passes [where nx = nx])
  then show ?thesis using assms(1) by simp
next
  case False
  then show ?thesis using guard_denied [OF False] assms(2) by blast
qed

section \<open>The scheduler inside the program\<close>

lemma acts_more: "auth.more s' = auth.more s \<Longrightarrow> acts s' t \<Longrightarrow> acts s t"
  using more_fields(1) [of s' s] by (simp add: acts_def)

text \<open>Every step is a step of the scheduler's system, or acts on it through its methods.\<close>

lemma step_sys:
  assumes "server_step s l t"
  shows "acts s t \<or> (\<exists>l'. sys_step (sys_of s) l' (sys_of t) \<and> label_ok 1 1440 l')"
  using assms
proof cases
  case (request e r pf)
  have "acts s (snd (basicAuth (route pf) e r s))"
    by (rule guard_rule) (erule acts_more, rule route_acts acts_refl)+
  then show ?thesis using request by (simp add: handle_def)
next
  case (apply_begins e r)
  have start: "acts x (snd (begin_apply e r x))" for x
    by (rule acts_ops [where cs = "[]"]) (simp_all add: begin_apply_def claim_upgrade_def)
  have "acts s (snd (basicAuth begin_apply e r s))"
    by (rule guard_rule) (erule acts_more, rule start acts_refl)+
  then show ?thesis using apply_begins by simp
next
  case (goroutine c i y)
  then show ?thesis using sys_step.go_step by (intro disjI2 exI [of _ "Go c i"]) simp
next
  case (passes d)
  then show ?thesis using tick_step [of d "sys_of s"] by (intro disjI2 exI [of _ "Tick d"]) simp
next
  case shuts_down
  then show ?thesis
    by (intro disjI1 acts_ops [where cs = "[OpDisconnect, OpStop]"]) (simp_all add: shutdown_def)
next
  case (disk_changes w)
  then show ?thesis by (simp add: acts_disk)
next
  case (upgrade_runs tmp rest pf)
  then show ?thesis by (simp add: upgrade_step_def Let_def case_prod_unfold acts_disk)
qed (simp_all add: acts_prepare acts_ops [where cs = "[]"])

text \<open>
  The contract of an invariant of the scheduler that survives in the program: it holds at the
  start, steps with intervals between one minute and a day keep it, and it says nothing about
  the disk.
\<close>

locale scheduler_invariant =
  fixes P :: "os sys \<Rightarrow> bool"
  assumes at_start: "paced_init 1 1440 y \<Longrightarrow> P y"
    and at_step: "ranges_ok 1 1440 y \<Longrightarrow> P y \<Longrightarrow> paced_step 1 1440 y l z \<Longrightarrow> P z"
    and at_world: "P y \<Longrightarrow> P (y\<lparr>world := w\<rparr>)"
begin

lemma along_ops:
  "ranges_ok 1 1440 y \<Longrightarrow> P y \<Longrightarrow> \<forall>c \<in> set cs. label_ok 1 1440 (Call c) \<Longrightarrow>
     ranges_ok 1 1440 (do_ops cs y) \<and> P (do_ops cs y)"
proof (induction cs arbitrary: y)
  case Nil
  then show ?case by simp
next
  case (Cons c cs)
  have step: "paced_step 1 1440 y (Call c) (do_op c y)"
    using Cons.prems(3) by (simp add: paced_step_def call_step)
  then have "ranges_ok 1 1440 (do_op c y)" and "P (do_op c y)"
    using Cons.prems(1,2) ranges_ok_step at_step by blast+
  then show ?case using Cons.IH Cons.prems(3) by simp
qed

lemma in_start:
  assumes "started s"
  shows "ranges_ok 1 1440 (sys_of s) \<and> P (sys_of s)"
proof -
  obtain ps dry c f ver t0 w where s: "s = start_program ps dry c f (LogLevel c) ver t0 w"
    and c: "valid_config c"
    using started_program [OF assms] by metis
  let ?p = "state_path ps f"
  let ?y = "init_sys dry (restart_range c) (lock_range c) (Some (save_callback ?p)) w t0"
  have ranges: "ranges_ok 1 1440 ?y"
    using config_ranges [OF c] by (simp add: ranges_ok_def sane_def boot_defs)
  moreover have "is_init ?y" unfolding is_init_def by blast
  ultimately have "P ?y" using at_start by (simp add: paced_init_def)
  moreover have "\<forall>x \<in> set (restore_ops i). label_ok 1 1440 (Call x)" for i by (auto simp: restore_ops_def)
  ultimately show ?thesis using along_ops [OF ranges] by (simp add: s start_program_sys)
qed

lemma in_step:
  assumes "ranges_ok 1 1440 (sys_of s)" and "P (sys_of s)" and "server_step s l t"
  shows "ranges_ok 1 1440 (sys_of t) \<and> P (sys_of t)"
proof -
  from step_sys [OF assms(3)] show ?thesis
  proof (elim disjE exE conjE)
    assume "acts s t"
    then obtain cs w where t: "sys_of t = (do_ops cs (sys_of s))\<lparr>world := w\<rparr>"
      and "\<forall>c \<in> set cs. label_ok 1 1440 (Call c)" by (auto simp: acts_def)
    then have "ranges_ok 1 1440 (do_ops cs (sys_of s))" and "P (do_ops cs (sys_of s))"
      using along_ops [OF assms(1,2)] by blast+
    then show ?thesis using at_world by (simp add: t ranges_ok_def)
  next
    fix l' assume "sys_step (sys_of s) l' (sys_of t)" and "label_ok 1 1440 l'"
    then have "paced_step 1 1440 (sys_of s) l' (sys_of t)" by (simp add: paced_step_def)
    then show ?thesis using assms(1,2) ranges_ok_step at_step by blast
  qed
qed

lemma in_program: "reach started server_step s \<Longrightarrow> ranges_ok 1 1440 (sys_of s) \<and> P (sys_of s)"
  by (induction rule: reach.induct) (use in_start in_step in blast)+

end

lemma paced_sys: "paced_init 1 1440 y \<Longrightarrow> is_init y" "paced_step 1 1440 y l z \<Longrightarrow> sys_step y l z"
  by (simp_all add: paced_init_def paced_step_def)

interpretation server_slots: scheduler_invariant slots_inv
proof
  show "slots_inv y \<Longrightarrow> slots_inv (y\<lparr>world := w\<rparr>)" for y :: "os sys" and w
    by (simp add: slots_inv_def slot_view_def)
qed (blast dest: paced_sys intro: slots_inv_init slots_inv_step)+

interpretation server_loops: scheduler_invariant "loops.all_good 1 1440"
proof
  show "paced_init 1 1440 y \<Longrightarrow> loops.all_good 1 1440 y" for y :: "os sys"
    by (rule loops.reach_good [of "paced_init 1 1440"]) (auto simp: paced_init_def intro: reach_init)
  show "loops.all_good 1 1440 y \<Longrightarrow> loops.all_good 1 1440 (y\<lparr>world := w\<rparr>)" for y :: "os sys" and w
    by (simp add: loops.all_good_def ranges_ok_def)
qed (rule loops.all_good_step)

interpretation server_shots: scheduler_invariant shots.all_good
proof
  show "paced_init 1 1440 y \<Longrightarrow> shots.all_good y" for y :: "os sys"
    by (rule shots.reach_good [of is_init]) (auto dest: paced_sys intro: reach_init)
  show "shots.all_good y \<Longrightarrow> shots.all_good (y\<lparr>world := w\<rparr>)" for y :: "os sys" and w
    by (simp add: shots.all_good_def)
qed (blast dest: paced_sys intro: shots.all_good_step)

interpretation server_logged: scheduler_invariant log_inv
proof
  show "log_inv y \<Longrightarrow> log_inv (y\<lparr>world := w\<rparr>)" for y :: "os sys" and w
    by (simp add: log_inv_def)
qed (blast dest: paced_sys intro: log_inv_init log_inv_step)+

interpretation server_pcs: scheduler_invariant pcs.all_good
proof
  show "paced_init 1 1440 y \<Longrightarrow> pcs.all_good y" for y :: "os sys"
    by (rule pcs.reach_good [of is_init]) (auto dest: paced_sys intro: reach_init)
  show "pcs.all_good y \<Longrightarrow> pcs.all_good (y\<lparr>world := w\<rparr>)" for y :: "os sys" and w
    by (simp add: pcs.all_good_def)
qed (blast dest: paced_sys intro: pcs.all_good_step)

section \<open>The upgrade inside the program\<close>

text \<open>
  The flag is set exactly while one attempt is under way: a request that prepares it, a goroutine
  that replaces the binary, or the timer that follows it.
\<close>

definition attempts_now :: "server \<Rightarrow> nat" where
  "attempts_now s = preparing s + length (upgrading s) + timers s"

definition upgrade_inv :: "server \<Rightarrow> bool" where
  "upgrade_inv s \<longleftrightarrow> attempts_now s = (if upgradeInProgress s then 1 else 0)"

lemmas upgrade_inv_defs = upgrade_inv_def attempts_now_def

lemma upgrade_inv_simps [simp]:
  "upgrade_inv (set_disk w s) = upgrade_inv s" "upgrade_inv (on_sys f s) = upgrade_inv s"
  "upgrade_inv (install_config c s) = upgrade_inv s" "upgrade_inv (stored q s) = upgrade_inv s"
  "upgrade_inv (s\<lparr>store := x\<rparr>) = upgrade_inv s" "upgrade_inv (s\<lparr>holder := y\<rparr>) = upgrade_inv s"
  "upgrade_inv (s\<lparr>upd := u\<rparr>) = upgrade_inv s" "upgrade_inv (s\<lparr>logger := l\<rparr>) = upgrade_inv s"
  "upgrade_inv (s\<lparr>sys_of := y'\<rparr>) = upgrade_inv s"
  by (simp_all add: upgrade_inv_defs)

lemma upgrade_inv_more:
  assumes "auth.more s' = auth.more s"
  shows "upgrade_inv s' = upgrade_inv s"
  using more_fields [OF assms] by (simp add: upgrade_inv_defs)

lemma upgrade_inv_prepare:
  "upgrade_inv s \<Longrightarrow> 0 < preparing s \<Longrightarrow> upgrade_inv (snd (prepare_upgrade pf s))"
  by (rule prepare_rule) (auto simp: upgrade_inv_defs split: if_splits)

lemma upgrade_inv_apply: "upgrade_inv s \<Longrightarrow> upgrade_inv (snd (updateApply pf r s))"
proof (rule updateApply_rule)
  let ?s = "s\<lparr>upgradeInProgress := True, preparing := Suc (preparing s)\<rparr>"
  assume "upgrade_inv s" and "\<not> upgradeInProgress s"
  then have "upgrade_inv ?s" by (simp add: upgrade_inv_defs)
  then show "upgrade_inv (snd (prepare_upgrade pf ?s))" by (rule upgrade_inv_prepare) simp
qed

lemma config_handlers_upgrade:
  assumes "upgrade_inv s"
  shows "upgrade_inv (snd (configUpdate r s))" "upgrade_inv (snd (configReload r s))"
    "upgrade_inv (snd (configSetLogLevel r s))"
proof -
  show "upgrade_inv (snd (configUpdate r s))"
    by (rule configUpdate_rule) (use assms in simp_all)
  show "upgrade_inv (snd (configReload r s))"
    by (rule configReload_rule) (use assms in simp_all)
  show "upgrade_inv (snd (configSetLogLevel r s))"
    using assms by (simp add: configSetLogLevel_def Let_def case_prod_unfold)
qed

lemma check_upgrade: "upgrade_inv s \<Longrightarrow> upgrade_inv (snd (updateCheck pf r s))"
  by (rule updateCheck_rule) simp_all

lemma route_upgrade: "upgrade_inv s \<Longrightarrow> upgrade_inv (snd (route pf e r s))"
  by (rule route_rule) (simp_all add: mux_def upgrade_inv_apply config_handlers_upgrade check_upgrade
    read_handlers scheduler_handlers logout_def Let_def split: option.split)

lemma run_upgrade_flag:
  "run_upgrade pf tmp fl w = (launched, fl', w') \<Longrightarrow> fl' = (if launched then fl else False)"
  by (auto simp: run_upgrade_def applyUpgrade_def applyUpgrade_other_def cleanup_def Let_def
    split: sum.splits prod.splits if_splits)

lemma upgrade_inv_step:
  assumes "upgrade_inv s" and "server_step s l t"
  shows "upgrade_inv t"
  using assms(2)
proof cases
  case (request e r pf)
  have "upgrade_inv (snd (basicAuth (route pf) e r s))"
    by (rule guard_rule) (use assms(1) route_upgrade upgrade_inv_more in blast)+
  then show ?thesis using request by (simp add: handle_def)
next
  case (apply_begins e r)
  have start: "upgrade_inv x \<Longrightarrow> upgrade_inv (snd (begin_apply e r x))" for x
    by (auto simp: begin_apply_def claim_upgrade_def upgrade_inv_defs)
  have "upgrade_inv (snd (basicAuth begin_apply e r s))"
    by (rule guard_rule) (use assms(1) start upgrade_inv_more in blast)+
  then show ?thesis using apply_begins by simp
next
  case (apply_continues pf)
  then show ?thesis using upgrade_inv_prepare assms(1) by simp
next
  case (upgrade_runs tmp rest pf)
  obtain launched fl w where "run_upgrade pf tmp (upgradeInProgress s) (disk s) = (launched, fl, w)"
    by (metis prod_cases3)
  with run_upgrade_flag [OF this] upgrade_runs assms(1) show ?thesis
    by (auto simp: upgrade_step_def upgrade_inv_defs split: if_splits)
next
  case upgrade_timer
  then show ?thesis using assms(1) by (auto simp: upgrade_inv_defs upgradeTimeout_def split: if_splits)
qed (use assms(1) in \<open>simp_all add: upgrade_inv_defs shutdown_def\<close>)

lemma started_upgrade: "started s \<Longrightarrow> upgrade_inv s"
  by (erule started_program) (simp add: upgrade_inv_defs start_program_def New_server_def Let_def)

interpretation upgrades: inductive_invariant started server_step upgrade_inv
  by unfold_locales (auto intro: started_upgrade upgrade_inv_step)

text \<open>Measured in what is still to come, an attempt comes closer to its end with every step of it.\<close>

definition upgrade_work :: "server \<Rightarrow> nat" where
  "upgrade_work s = 3 * preparing s + 2 * length (upgrading s) + timers s"

lemma prepare_work: "0 < preparing s \<Longrightarrow> upgrade_work (snd (prepare_upgrade pf s)) < upgrade_work s"
  by (rule prepare_rule) (simp_all add: upgrade_work_def)

section \<open>The configuration and the updater inside the program\<close>

lemma config_ok_more: "holder s' = holder s \<Longrightarrow> config_ok s' = config_ok s"
  by (simp add: config_ok_def)

lemma config_ok_step:
  assumes "config_ok s" and "server_step s l t"
  shows "config_ok t"
  using assms(2)
proof cases
  case (request e r pf)
  have "config_ok (snd (basicAuth (route pf) e r s))"
    by (rule guard_rule) (use assms(1) route_config_ok config_ok_more in blast)+
  then show ?thesis using request by (simp add: handle_def)
next
  case (apply_begins e r)
  have start: "config_ok x \<Longrightarrow> config_ok (snd (begin_apply e r x))" for x
    by (simp add: begin_apply_def claim_upgrade_def config_ok_def)
  have "config_ok (snd (basicAuth begin_apply e r s))"
    by (rule guard_rule) (use assms(1) start config_ok_more in blast)+
  then show ?thesis using apply_begins by simp
next
  case (apply_continues pf)
  have "config_ok (snd (prepare_upgrade pf s))"
    by (rule prepare_rule) (use assms(1) in \<open>simp_all add: config_ok_def\<close>)
  then show ?thesis using apply_continues by simp
next
  case (upgrade_runs tmp rest pf)
  then show ?thesis using assms(1) by (simp add: upgrade_step_def Let_def case_prod_unfold config_ok_def)
qed (use assms(1) in \<open>simp_all add: config_ok_def shutdown_def\<close>)

lemma started_config: "started s \<Longrightarrow> config_ok s"
  by (erule started_program) (simp add: config_ok_def newConfigHolder_def)

interpretation configs: inductive_invariant started server_step config_ok
  by unfold_locales (auto intro: started_config config_ok_step)

definition updater_ok :: "server \<Rightarrow> bool" where
  "updater_ok s \<longleftrightarrow> newer_only (upd s)"

lemma updater_ok_simps [simp]:
  "updater_ok (set_disk w s) = updater_ok s" "updater_ok (on_sys f s) = updater_ok s"
  "updater_ok (install_config c s) = updater_ok s" "updater_ok (stored q s) = updater_ok s"
  "updater_ok (s\<lparr>store := x\<rparr>) = updater_ok s" "updater_ok (s\<lparr>holder := y\<rparr>) = updater_ok s"
  "updater_ok (s\<lparr>logger := l\<rparr>) = updater_ok s" "updater_ok (s\<lparr>sys_of := y'\<rparr>) = updater_ok s"
  "updater_ok (s\<lparr>preparing := n\<rparr>) = updater_ok s" "updater_ok (s\<lparr>upgradeInProgress := b\<rparr>) = updater_ok s"
  "updater_ok (s\<lparr>upgrading := ps\<rparr>) = updater_ok s" "updater_ok (s\<lparr>timers := n\<rparr>) = updater_ok s"
  by (simp_all add: updater_ok_def)

lemma updater_ok_check: "updater_ok s \<Longrightarrow> updater_ok (s\<lparr>upd := snd (Updater.Check nw (upd s))\<rparr>)"
  using newer_only_Check [of "upd s" nw] by (simp add: updater_ok_def)

lemma updater_ok_handlers:
  assumes "updater_ok s"
  shows "updater_ok (snd (configUpdate r s))" "updater_ok (snd (configReload r s))"
    "updater_ok (snd (configSetLogLevel r s))" "updater_ok (snd (updateCheck pf r s))"
    "updater_ok (snd (prepare_upgrade pf s))"
proof -
  show "updater_ok (snd (configUpdate r s))"
    by (rule configUpdate_rule) (use assms in simp_all)
  show "updater_ok (snd (configReload r s))"
    by (rule configReload_rule) (use assms in simp_all)
  show "updater_ok (snd (configSetLogLevel r s))"
    using assms by (simp add: configSetLogLevel_def Let_def case_prod_unfold)
  show "updater_ok (snd (updateCheck pf r s))"
    by (rule updateCheck_rule) (use assms updater_ok_check in simp_all)
  show "updater_ok (snd (prepare_upgrade pf s))"
    by (rule prepare_rule) (use assms in simp_all)
qed

lemma updater_ok_apply: "updater_ok s \<Longrightarrow> updater_ok (snd (updateApply pf r s))"
  by (rule updateApply_rule) (simp_all add: updater_ok_handlers)

lemma route_updater: "updater_ok s \<Longrightarrow> updater_ok (snd (route pf e r s))"
  by (rule route_rule) (simp_all add: mux_def updater_ok_handlers updater_ok_apply
    read_handlers scheduler_handlers logout_def Let_def split: option.split)

lemma updater_ok_more: "auth.more s' = auth.more s \<Longrightarrow> updater_ok s' = updater_ok s"
  using more_fields(2) [of s' s] by (simp add: updater_ok_def)

lemma updater_ok_step:
  assumes "updater_ok s" and "server_step s l t"
  shows "updater_ok t"
  using assms(2)
proof cases
  case (request e r pf)
  have "updater_ok (snd (basicAuth (route pf) e r s))"
    by (rule guard_rule) (use assms(1) route_updater updater_ok_more in blast)+
  then show ?thesis using request by (simp add: handle_def)
next
  case (apply_begins e r)
  have start: "updater_ok x \<Longrightarrow> updater_ok (snd (begin_apply e r x))" for x
    by (simp add: begin_apply_def claim_upgrade_def)
  have "updater_ok (snd (basicAuth begin_apply e r s))"
    by (rule guard_rule) (use assms(1) start updater_ok_more in blast)+
  then show ?thesis using apply_begins by simp
next
  case (upgrade_runs tmp rest pf)
  then show ?thesis using assms(1) by (simp add: upgrade_step_def Let_def case_prod_unfold)
qed (use assms(1) in \<open>simp_all add: shutdown_def updater_ok_handlers updater_ok_check\<close>)

lemma started_updater: "started s \<Longrightarrow> updater_ok s"
  by (erule started_program) (simp add: updater_ok_def newer_only_def NewUpdater_def no_update_def)

interpretation updaters: inductive_invariant started server_step updater_ok
  by unfold_locales (auto intro: started_updater updater_ok_step)

section \<open>Properties\<close>

text \<open>A run for the witnesses: the start on \<open>boot_disk\<close>.\<close>

definition demo_started :: server where
  "demo_started = start_program demo_paths False defaults ''c'' ''info'' AppVersion 0 boot_disk"

lemma demo_started_reach: "reach started server_step demo_started"
  using demo_boot by (intro reach_init) (auto simp: started_def demo_started_def)

lemma demo_started_gos: "map kind (gos (sys_of demo_started)) = [RestartLoop, LockLoop]"
  by (simp add: demo_started_def start_program_sys demo_state_path boot_disk_intent both_on_def restored_gos)

text \<open>
  C4: the whole program, whatever is requested, configured, interleaved or fails: a schedule never
  executes its action less than a minute after its start or after its last execution, never waits
  for more than a day, and a one-shot executes at most once and not before 60 seconds have
  passed.
\<close>

theorem program_paces_actions:
  assumes "reach started server_step s" and "i < length (gos (sys_of s))"
  defines "g \<equiv> gos (sys_of s) ! i" and "ts \<equiv> times i (execLog (sys_of s))"
  shows "(is_loop (kind g) \<longrightarrow>
            spaced minute (born g # ts)
            \<and> (\<forall>t. deadline (pc g) = Some t \<longrightarrow>
                 last (born g # ts) + minute \<le> t \<and> t \<le> clock (sys_of s) + 1440 * minute))
       \<and> (is_shot (kind g) \<longrightarrow> length ts \<le> 1 \<and> (\<forall>t \<in> set ts. born g + 60 * second \<le> t))"
proof -
  have loop: "loop_inv 1 1440 (clock (sys_of s)) (kind g) (born g) (pc g) ts"
    using server_loops.in_program [OF assms(1)] assms(2) by (simp add: loops.all_good_def g_def ts_def)
  have shot: "shot_inv (clock (sys_of s)) (kind g) (born g) (pc g) ts"
    using server_shots.in_program [OF assms(1)] assms(2) by (simp add: shots.all_good_def g_def ts_def)
  have pcs: "pc_ok (kind g) (pc g)"
    using server_pcs.in_program [OF assms(1)] assms(2) by (simp add: pcs.all_good_def g_def)
  have "is_loop (kind g) \<Longrightarrow> deadline (pc g) = Some t \<Longrightarrow> pc g = LoopSelect t" for t
    using pcs by (cases "pc g") (auto simp: is_loop_def)
  with loop have "is_loop (kind g) \<Longrightarrow> spaced minute (born g # ts)
      \<and> (\<forall>t. deadline (pc g) = Some t \<longrightarrow>
           last (born g # ts) + minute \<le> t \<and> t \<le> clock (sys_of s) + 1440 * minute)"
    by (auto simp: loop_inv_loop simp del: last.simps)
  moreover have "is_shot (kind g) \<Longrightarrow> length ts \<le> 1 \<and> (\<forall>t \<in> set ts. born g + 60 * second \<le> t)"
    using shot pcs by (cases "pc g") (auto simp: shot_inv_def onceDelay_def)
  ultimately show ?thesis by blast
qed

theorem program_paces_actions_witness:
  "spaced minute (born (gos (sys_of demo_started) ! 1) # times 1 (execLog (sys_of demo_started)))"
proof -
  have len: "1 < length (gos (sys_of demo_started))"
    using arg_cong [OF demo_started_gos, of length] by simp
  moreover have "kind (gos (sys_of demo_started) ! 1) = LockLoop"
    using arg_cong [OF demo_started_gos, of "\<lambda>ks. ks ! 1"] len by simp
  ultimately show ?thesis
    using program_paces_actions [OF demo_started_reach, of 1] by (simp add: is_loop_def)
qed



text \<open>
  C5: at most one upgrade at a time: the flag is set exactly while one attempt is under way, be it
  a request that downloads, the goroutine that replaces the binary, or the timer after it; and
  there is never a second one, however the requests are interleaved.
\<close>

theorem one_upgrade_at_a_time:
  assumes "reach started server_step s"
  shows "preparing s + length (upgrading s) + timers s = (if upgradeInProgress s then 1 else 0)"
  using upgrades.reach_inv [OF assms] by (simp add: upgrade_inv_defs)

theorem one_upgrade_at_a_time_witness: "\<not> upgradeInProgress demo_started"
proof -
  have "preparing demo_started + length (upgrading demo_started) + timers demo_started = 0"
    by (simp add: demo_started_def start_program_def New_server_def Let_def)
  then show ?thesis using one_upgrade_at_a_time [OF demo_started_reach] by (simp split: if_splits)
qed



end
