(* ===== verification/Commands.thy ===== *)
theory Commands
  imports Upgrade Config
begin

text \<open>
  The commands of \<open>cmd/service_windows.go\<close> that install, remove, start, stop and upgrade the
  service. They work on a host: its disk, the table of the service manager and the rules of the
  firewall. What the platform answers (the path of the executable, and which calls fail) is in
  the record \<open>answers\<close>; every way in which a command ends is a value of \<open>outcome\<close>.
\<close>

section \<open>The host\<close>

text \<open>
  A registered service, as far as the program sets it up or reads it, and a rule of the firewall:
  its name and the other arguments of the \<open>netsh\<close> command that added it.
\<close>

record service_entry =
  binaryPathName :: string
  displayName :: string
  description :: string
  startAutomatic :: bool
  running :: bool

record host =
  host_disk :: os
  services :: "string \<Rightarrow> service_entry option"
  firewall :: "(string \<times> string list) list"

text \<open>
  \<open>escapeArg\<close> is how the service manager's client quotes the path of a new service;
  \<open>absPath\<close> is \<open>filepath.Abs\<close> without its error, which the program ignores. A service can be
  opened if it exists and access is granted.
\<close>

record answers =
  executable :: "string option"
  defaultConfig :: string
  absPath :: "string \<Rightarrow> string"
  escapeArg :: "string \<Rightarrow> string"
  connects :: bool
  reconnects :: bool
  creates :: bool
  opens :: bool
  reopens :: bool
  reads :: bool
  starts :: bool
  stops :: bool
  deletes :: bool
  netshDeletes :: bool
  netshAdds :: bool

text \<open>\<open>Fatal\<close> carries the fixed part of the message that \<open>log.Fatalf\<close> prints before it ends the program.\<close>

datatype outcome = Completed | Fatal string

definition fatal :: "string \<Rightarrow> host \<Rightarrow> outcome \<times> host" where
  "fatal msg h = (Fatal msg, h)"

definition put_service :: "service_entry option \<Rightarrow> host \<Rightarrow> host" where
  "put_service s h = h\<lparr>services := (services h)(ServiceName := s)\<rparr>"

definition open_service :: "answers \<Rightarrow> host \<Rightarrow> service_entry option" where
  "open_service a h = (if opens a then services h ServiceName else None)"

section \<open>The firewall\<close>

definition firewallRuleName :: string where
  "firewallRuleName = ''WinCtl Dashboard''"

text \<open>\<open>netsh\<close> deletes all rules of a name; the error where there is none is ignored.\<close>

definition rule_args :: "int \<Rightarrow> string list" where
  "rule_args port =
     [''dir=in'', ''action=allow'', ''protocol=TCP'', ''localport='' @ itoa port, ''profile=private'']"

definition delete_rules :: "host \<Rightarrow> host" where
  "delete_rules h = h\<lparr>firewall := filter (\<lambda>r. fst r \<noteq> firewallRuleName) (firewall h)\<rparr>"

definition addFirewallRule :: "answers \<Rightarrow> host \<Rightarrow> host" where
  "addFirewallRule a h =
     (let (cfg, w) = Load (defaultConfig a) (host_disk h);
          port = (case cfg of Inl e \<Rightarrow> 8443 | Inr c \<Rightarrow> Port c);
          h1 = h\<lparr>host_disk := w\<rparr>;
          h2 = (if netshDeletes a then delete_rules h1 else h1)
      in if netshAdds a then h2\<lparr>firewall := firewall h2 @ [(firewallRuleName, rule_args port)]\<rparr> else h2)"

definition removeFirewallRule :: "answers \<Rightarrow> host \<Rightarrow> host" where
  "removeFirewallRule a h = (if netshDeletes a then delete_rules h else h)"

section \<open>Helpers of the upgrade\<close>

text \<open>
  The package has its own copies of \<open>copyFileForUpgrade\<close> and \<open>parseBinaryPath\<close> of the package
  \<open>server\<close>; the lemmas below show that they agree with those.
\<close>

definition copyFile_cmd :: "string \<Rightarrow> string \<Rightarrow> os \<Rightarrow> bool \<times> os" where
  "copyFile_cmd src dst w =
     (case os_ReadFile src w of
        NotExist \<Rightarrow> (False, w)
      | ReadError \<Rightarrow> (False, w)
      | Content d \<Rightarrow>
          if writeFault w dst = OpenFault then (False, w)
          else os_WriteFile dst (if src = dst then [] else d) 438 (put_file dst [] 438 w))"

definition parseBinaryPath_cmd :: "string \<Rightarrow> string" where
  "parseBinaryPath_cmd raw0 =
     (let raw = trim_space raw0;
          unquoted = (case index_byte raw CHR '' '' of None \<Rightarrow> raw | Some i \<Rightarrow> take i raw)
      in if has_prefix raw [CHR 0x22] then
           (case index_byte (drop 1 raw) CHR 0x22 of
              Some e \<Rightarrow> take e (drop 1 raw)
            | None \<Rightarrow> unquoted)
         else unquoted)"

lemma copyFile_agree: "copyFile_cmd = copyFile"
  by (simp add: fun_eq_iff copyFile_cmd_def copyFile_def)

lemma parseBinaryPath_agree: "parseBinaryPath_cmd = parseBinaryPath"
  by (simp add: fun_eq_iff parseBinaryPath_cmd_def parseBinaryPath_def)

section \<open>The commands\<close>

definition DisplayName :: string where
  "DisplayName = ''WinCtl Service''"

definition Description :: string where
  "Description = ''Machine control web dashboard '' @ em_dash @ '' restart and lock scheduling''"

definition new_service :: "string \<Rightarrow> bool \<Rightarrow> service_entry" where
  "new_service path started =
     \<lparr>binaryPathName = path, displayName = DisplayName, description = Description,
      startAutomatic = True, running = started\<rparr>"

definition installService :: "answers \<Rightarrow> host \<Rightarrow> outcome \<times> host" where
  "installService a h =
     (case executable a of
        None \<Rightarrow> fatal ''failed to get executable path'' h
      | Some exe \<Rightarrow>
          if \<not> connects a then fatal ''failed to connect to service manager'' h
          else if \<not> creates a \<or> services h ServiceName \<noteq> None then fatal ''failed to create service'' h
          else
            (let h1 = put_service (Some (new_service (escapeArg a exe) (starts a))) h
             in (Completed, addFirewallRule a h1)))"

definition uninstallService :: "answers \<Rightarrow> host \<Rightarrow> outcome \<times> host" where
  "uninstallService a h =
     (if \<not> connects a then fatal ''failed to connect to service manager'' h
      else
        (case open_service a h of
           None \<Rightarrow> fatal ''service not found'' h
         | Some s \<Rightarrow>
             if \<not> deletes a then fatal ''failed to delete service'' h
             else (Completed, removeFirewallRule a (put_service None h))))"

definition startService :: "answers \<Rightarrow> host \<Rightarrow> outcome \<times> host" where
  "startService a h =
     (if \<not> connects a then fatal ''failed to connect to service manager'' h
      else
        (case open_service a h of
           None \<Rightarrow> fatal ''service not found'' h
         | Some s \<Rightarrow>
             if \<not> starts a then fatal ''failed to start service'' h
             else (Completed, put_service (Some (s\<lparr>running := True\<rparr>)) h)))"

definition stopService :: "answers \<Rightarrow> host \<Rightarrow> outcome \<times> host" where
  "stopService a h =
     (if \<not> connects a then fatal ''failed to connect to service manager'' h
      else
        (case open_service a h of
           None \<Rightarrow> fatal ''service not found'' h
         | Some s \<Rightarrow>
             if \<not> stops a then fatal ''failed to stop service'' h
             else (Completed, put_service (Some (s\<lparr>running := False\<rparr>)) h)))"

text \<open>The end of an upgrade: the service is opened again and started.\<close>

definition restart_upgraded :: "answers \<Rightarrow> host \<Rightarrow> outcome \<times> host" where
  "restart_upgraded a h =
     (if \<not> reconnects a
      then fatal ''binary replaced but failed to reconnect to service manager'' h
      else
        (case (if reopens a then services h ServiceName else None) of
           None \<Rightarrow> fatal ''binary replaced but failed to open service'' h
         | Some s \<Rightarrow>
             if \<not> starts a then fatal ''binary replaced but failed to start service'' h
             else (Completed, put_service (Some (s\<lparr>running := True\<rparr>)) h)))"

text \<open>
  \<open>upgradeService\<close>: a service that cannot be stopped and a backup that cannot be written are only
  warnings.
\<close>

definition upgradeService :: "answers \<Rightarrow> host \<Rightarrow> outcome \<times> host" where
  "upgradeService a h =
     (if \<not> connects a then fatal ''failed to connect to service manager'' h
      else
        (case open_service a h of
           None \<Rightarrow> fatal ''service not found'' h
         | Some s \<Rightarrow>
             if \<not> reads a then fatal ''failed to read service config'' h
             else
               (case executable a of
                  None \<Rightarrow> fatal ''failed to get current executable path'' h
                | Some exe \<Rightarrow>
                    (let newPath = absPath a exe;
                         installedPath = absPath a (parseBinaryPath_cmd (binaryPathName s))
                     in if newPath = installedPath then
                          fatal ''new binary is the same as installed binary'' h
                        else
                          (let h1 = (if stops a then put_service (Some (s\<lparr>running := False\<rparr>)) h else h);
                               (backed, w1) = copyFile_cmd installedPath (installedPath @ ''.bak'') (host_disk h1);
                               (copied, w2) = copyFile_cmd newPath installedPath w1;
                               h2 = h1\<lparr>host_disk := w2\<rparr>
                           in if \<not> copied then fatal ''failed to copy new binary'' h2
                              else restart_upgraded a h2)))))"

text \<open>The commands of the other platforms print that they are not supported.\<close>

definition service_other :: "string \<Rightarrow> string" where
  "service_other what = ''Service '' @ what @ '' is only supported on Windows.''"

section \<open>Lemmas\<close>

lemma host_simps [simp]:
  "host_disk (put_service s h) = host_disk h" "firewall (put_service s h) = firewall h"
  "services (put_service s h) = (services h)(ServiceName := s)"
  "host_disk (delete_rules h) = host_disk h" "services (delete_rules h) = services h"
  "services (addFirewallRule a h) = services h" "services (removeFirewallRule a h) = services h"
  "snd (fatal m h) = h" "fst (fatal m h) = Fatal m"
  by (simp_all add: put_service_def delete_rules_def addFirewallRule_def removeFirewallRule_def fatal_def
    case_prod_unfold Let_def)

definition rules_named :: "host \<Rightarrow> (string \<times> string list) list" where
  "rules_named h = filter (\<lambda>r. fst r = firewallRuleName) (firewall h)"

lemma rules_named_simps [simp]:
  "rules_named (delete_rules h) = []" "rules_named (put_service s h) = rules_named h"
  "rules_named (h\<lparr>host_disk := w\<rparr>) = rules_named h"
  by (simp_all add: rules_named_def delete_rules_def)

lemma addFirewallRule_rules:
  "netshDeletes a \<Longrightarrow> netshAdds a \<Longrightarrow>
     rules_named (addFirewallRule a h) =
       [(firewallRuleName,
         rule_args (case fst (Load (defaultConfig a) (host_disk h)) of Inl e \<Rightarrow> 8443 | Inr c \<Rightarrow> Port c))]"
  by (simp add: addFirewallRule_def case_prod_unfold Let_def) (simp add: rules_named_def delete_rules_def)

text \<open>What the end of an upgrade leaves alone.\<close>

lemma restart_upgraded_disk: "host_disk (snd (restart_upgraded a h)) = host_disk h"
  by (simp add: restart_upgraded_def split: option.split)

lemma restart_upgraded_done:
  "fst (restart_upgraded a h) = Completed \<Longrightarrow>
     \<exists>s. services h ServiceName = Some s
       \<and> services (snd (restart_upgraded a h)) ServiceName = Some (s\<lparr>running := True\<rparr>)"
  by (auto simp: restart_upgraded_def fatal_def split: option.splits if_splits)

lemma copyFile_true:
  assumes "copyFile src dst w = (True, w')"
  shows "\<exists>d. os_ReadFile src w = Content d"
  using assms by (auto simp: copyFile_def split: read_result.splits)

lemma read_data: "os_ReadFile p w = Content d \<Longrightarrow> map_option data (files w p) = Some d"
  by (auto simp: os_ReadFile_def split: option.splits if_splits)

text \<open>The copies of an upgrade, and what follows them.\<close>

lemma upgradeService_copies:
  assumes "upgradeService a h = (out, h')" and "out = Completed \<or> h' \<noteq> h"
    and svc: "services h ServiceName = Some s" and exe: "executable a = Some exe"
  defines "old \<equiv> absPath a (parseBinaryPath (binaryPathName s))" and "new \<equiv> absPath a exe"
  obtains w1 w2 copied backed h1 where "new \<noteq> old"
    "copyFile old (old @ ''.bak'') (host_disk h) = (backed, w1)" "copyFile new old w1 = (copied, w2)"
    "host_disk h1 = w2" "firewall h1 = firewall h" "\<And>n. n \<noteq> ServiceName \<Longrightarrow> services h1 n = services h n"
    "(out, h') = (if copied then restart_upgraded a h1 else fatal ''failed to copy new binary'' h1)"
proof -
  have c: "connects a"
    using assms(1,2) by (auto simp: upgradeService_def fatal_def split: if_splits)
  then have s: "open_service a h = Some s"
    using assms(1,2) svc by (cases "opens a") (auto simp: upgradeService_def open_service_def fatal_def)
  have r: "reads a"
    using assms(1,2) s c by (auto simp: upgradeService_def fatal_def split: if_splits)
  have ne: "new \<noteq> old"
    using assms(1,2) s c r exe by (auto simp: upgradeService_def parseBinaryPath_agree fatal_def old_def new_def)
  obtain backed w1 where b: "copyFile old (old @ ''.bak'') (host_disk h) = (backed, w1)" by fastforce
  obtain copied w2 where cp: "copyFile new old w1 = (copied, w2)" by fastforce
  let ?h1 = "(if stops a then put_service (Some (s\<lparr>running := False\<rparr>)) h else h)\<lparr>host_disk := w2\<rparr>"
  have "upgradeService a h = (if copied then restart_upgraded a ?h1 else fatal ''failed to copy new binary'' ?h1)"
    using s c r exe ne b cp
    by (simp add: upgradeService_def copyFile_agree parseBinaryPath_agree Let_def old_def new_def)
  then have "(out, h') = (if copied then restart_upgraded a ?h1 else fatal ''failed to copy new binary'' ?h1)"
    using assms(1) by simp
  then show thesis by (intro that [OF ne b cp, of ?h1]) auto
qed

section \<open>Properties\<close>


definition demo_answers :: answers where
  "demo_answers =
     \<lparr>executable = Some ''n.exe'', defaultConfig = ''c'', absPath = (\<lambda>p. p), escapeArg = (\<lambda>p. p),
      connects = True, reconnects = True, creates = True, opens = True, reopens = True, reads = True,
      starts = True, stops = True, deletes = True, netshDeletes = True, netshAdds = True\<rparr>"

definition demo_host :: host where
  "demo_host = \<lparr>host_disk = empty_disk, services = (\<lambda>_. None), firewall = [(''dns'', [''dir=in''])]\<rparr>"



definition demo_old :: host where
  "demo_old =
     \<lparr>host_disk = put_file ''w.exe'' ''old'' 493 (put_file ''n.exe'' ''new'' 493 empty_disk),
      services = (\<lambda>_. Some (new_service ''w.exe run'' True)), firewall = []\<rparr>"

lemma demo_old_completes: "fst (upgradeService demo_answers demo_old) = Completed"
  by (simp add: upgradeService_def demo_answers_def demo_old_def open_service_def new_service_def
    parseBinaryPath_agree parseBinaryPath_plain copyFile_agree copyFile_def os_ReadFile_def put_file_def os_WriteFile_def empty_disk_def restart_upgraded_def Let_def)


text \<open>
  The upgrade goes on where the backup could not be written, unlike the one of the dashboard:
  where the copy then fails too, the old binary is lost.
\<close>

definition demo_full :: host where
  "demo_full = demo_old\<lparr>host_disk := (host_disk demo_old)\<lparr>writeFault := (\<lambda>_. OpenFault)(''w.exe'' := ShortWrite 0)\<rparr>\<rparr>"

theorem upgrade_without_backup:
  "map_option data (files (host_disk demo_full) ''w.exe'') = Some ''old''
   \<and> (\<exists>msg h'. upgradeService demo_answers demo_full = (Fatal msg, h')
        \<and> map_option data (files (host_disk h') ''w.exe'') = Some [] \<and> files (host_disk h') ''w.exe.bak'' = None)"
  by (simp add: upgradeService_def demo_answers_def demo_full_def demo_old_def open_service_def
    new_service_def parseBinaryPath_agree parseBinaryPath_plain copyFile_agree copyFile_def os_ReadFile_def put_file_def os_WriteFile_def empty_disk_def
    fatal_def Let_def)

end
