(* ===== verification/Program.thy ===== *)
theory Program
  imports ServerRuns Commands
begin

text \<open>
  The program from its command line on: what \<open>Run\<close> of \<open>cmd/root.go\<close> does with each command, on
  Windows and elsewhere, composed of the commands of the theory \<open>Commands\<close> and the two starts of
  the theory \<open>Lifecycle\<close>. Where a server comes up, it is a start of the transition system of
  \<open>ServerRuns\<close>, so that the properties of the whole program hold for it.
\<close>

section \<open>The composition\<close>

text \<open>\<open>IsWindowsService\<close>: an error of \<open>svc.IsWindowsService\<close> (\<open>Inl\<close>) counts as no.\<close>

fun IsWindowsService :: "string + bool \<Rightarrow> bool" where
  "IsWindowsService (Inl e) = False"
| "IsWindowsService (Inr b) = b"

definition printUsage :: "string list" where
  "printUsage =
     [''Usage: winctl <command>'',
      '''',
      ''Commands:'',
      ''  install    Install as Windows service (starts it and creates firewall rule)'',
      ''  uninstall  Remove Windows service and firewall rule'',
      ''  upgrade    Replace installed binary with this one (stop -> copy -> start)'',
      ''  start      Start the Windows service'',
      ''  stop       Stop the Windows service'',
      ''  run        Run in foreground (debug mode)'',
      '''',
      ''Run flags:'',
      ''  -d, --dry-run    Simulate actions without executing them'',
      ''  -f <path>        Path to config file (default: next to executable)'',
      ''  --log <level>      Log level: debug, info, error (default: info)'']"

text \<open>
  How \<open>Run\<close> goes on: it prints, it ends with a command, it refuses the flags, or a server comes
  up or fails to, in the foreground or as a service (whose statuses and exit code go to the
  service manager).
\<close>

datatype program_end =
    Prints "string list"
  | Ends outcome
  | Refuses flag_error
  | Serves server
  | StartFails start_error
  | ServiceServes "svc_state list" server
  | ServiceExits "svc_state list" "bool \<times> nat"

definition ends :: "outcome \<times> host \<Rightarrow> program_end \<times> host" where
  "ends r = (Ends (fst r), snd r)"

definition run_as_service :: "answers \<Rightarrow> paths \<Rightarrow> instant \<Rightarrow> host \<Rightarrow> program_end \<times> host" where
  "run_as_service a ps t0 h =
     (let (sts, r, w) = Execute_start ps (defaultConfig a) AppVersion t0 (host_disk h)
      in (case r of Inl e \<Rightarrow> ServiceExits sts e | Inr s \<Rightarrow> ServiceServes sts s, h\<lparr>host_disk := w\<rparr>))"

definition run_in_foreground :: "paths \<Rightarrow> run_flags \<Rightarrow> instant \<Rightarrow> host \<Rightarrow> program_end \<times> host" where
  "run_in_foreground ps fl t0 h =
     (let (r, w) = runForeground ps fl t0 (host_disk h)
      in (case r of Inl e \<Rightarrow> StartFails e | Inr s \<Rightarrow> Serves s, h\<lparr>host_disk := w\<rparr>))"

definition perform ::
  "answers \<Rightarrow> paths \<Rightarrow> string + bool \<Rightarrow> string list \<Rightarrow> instant \<Rightarrow> host \<Rightarrow> program_end \<times> host"
where
  "perform a ps is_svc args t0 h =
     (case Run (IsWindowsService is_svc) (defaultConfig a) args of
        RunAsService \<Rightarrow> run_as_service a ps t0 h
      | PrintUsage \<Rightarrow> (Prints printUsage, h)
      | Install \<Rightarrow> ends (installService a h)
      | Uninstall \<Rightarrow> ends (uninstallService a h)
      | StartService \<Rightarrow> ends (startService a h)
      | StopService \<Rightarrow> ends (stopService a h)
      | UpgradeService \<Rightarrow> ends (upgradeService a h)
      | RunForeground fl \<Rightarrow> run_in_foreground ps fl t0 h
      | BadFlags e \<Rightarrow> (Refuses e, h))"

text \<open>On the other platforms the program never runs as a service and the commands only print.\<close>

definition IsWindowsService_other :: bool where
  "IsWindowsService_other = False"

definition perform_other :: "string \<Rightarrow> paths \<Rightarrow> string list \<Rightarrow> instant \<Rightarrow> host \<Rightarrow> program_end \<times> host" where
  "perform_other defaultPath ps args t0 h =
     (case Run IsWindowsService_other defaultPath args of
        RunForeground fl \<Rightarrow> run_in_foreground ps fl t0 h
      | BadFlags e \<Rightarrow> (Refuses e, h)
      | Install \<Rightarrow> (Prints [service_other ''install''], h)
      | Uninstall \<Rightarrow> (Prints [service_other ''uninstall''], h)
      | StartService \<Rightarrow> (Prints [service_other ''start''], h)
      | StopService \<Rightarrow> (Prints [service_other ''stop''], h)
      | UpgradeService \<Rightarrow> (Prints [service_other ''upgrade''], h)
      | _ \<Rightarrow> (Prints printUsage, h))"

section \<open>Lemmas\<close>

definition commands_known :: "string list" where
  "commands_known = [''install'', ''uninstall'', ''start'', ''stop'', ''upgrade'', ''run'']"

text \<open>What each result of the dispatch says about the command line.\<close>

lemma Run_cases:
  "Run b p args = RunAsService \<longleftrightarrow> args = [] \<and> b"
  "Run b p args = PrintUsage \<longleftrightarrow> (if args = [] then \<not> b else hd args \<notin> set commands_known)"
  by (cases args; auto simp: Run_def commands_known_def split: sum.splits)+

text \<open>The two starts leave the tables of the platform alone.\<close>

definition same_tables :: "host \<Rightarrow> host \<Rightarrow> bool" where
  "same_tables h h' \<longleftrightarrow> services h' = services h \<and> firewall h' = firewall h"

lemma same_tables_disk [simp]: "same_tables h (h\<lparr>host_disk := w\<rparr>)" and same_tables_refl [simp]: "same_tables h h"
  by (simp_all add: same_tables_def)

text \<open>What a server that has come up satisfies.\<close>

definition in_service :: "server \<Rightarrow> host \<Rightarrow> bool" where
  "in_service s h \<longleftrightarrow> started s \<and> valid_config (ch_cfg (holder s)) \<and> host_disk h = disk s"

lemma started_valid: "started s \<Longrightarrow> valid_config (ch_cfg (holder s))"
  using configs.reach_inv [of s] by (simp add: config_ok_def reach_init)

lemma runForeground_disk: "runForeground ps fl t0 w = (Inr s, w') \<Longrightarrow> w' = disk s"
  by (auto simp: runForeground_def Let_def split: prod.splits sum.splits if_splits)

lemma Execute_start_cases:
  "Execute_start ps p ver t0 w = (sts, r, w') \<Longrightarrow>
     (case r of Inl e \<Rightarrow> e = (False, 1) \<and> sts = [StartPending]
      | Inr s \<Rightarrow> sts = [StartPending, SvcRunning] \<and> w' = disk s)"
  by (auto simp: Execute_start_def Let_def split: prod.splits sum.splits)

lemma foreground_end:
  assumes "run_in_foreground ps fl t0 h = (r, h')"
  shows "same_tables h h' \<and> (case r of Serves s \<Rightarrow> in_service s h' | StartFails e \<Rightarrow> True | _ \<Rightarrow> False)"
proof (cases "runForeground ps fl t0 (host_disk h)")
  case (Pair x w)
  have "started s" if "x = Inr s" for s
    unfolding started_def using Pair that by blast
  then show ?thesis
    using assms Pair runForeground_disk [of ps fl t0 "host_disk h" _ w]
    by (cases x) (auto simp: run_in_foreground_def in_service_def started_valid)
qed

lemma service_end:
  assumes "run_as_service a ps t0 h = (r, h')"
  shows "same_tables h h'
    \<and> (case r of ServiceServes sts s \<Rightarrow> in_service s h' \<and> sts = [StartPending, SvcRunning]
       | ServiceExits sts e \<Rightarrow> e = (False, 1) \<and> sts = [StartPending] | _ \<Rightarrow> False)"
proof -
  obtain sts x w where e: "Execute_start ps (defaultConfig a) AppVersion t0 (host_disk h) = (sts, x, w)"
    using prod_cases3 by blast
  have "started s" if "x = Inr s" for s
    unfolding started_def using e that by blast
  then show ?thesis
    using assms e Execute_start_cases [OF e]
    by (cases x) (auto simp: run_as_service_def in_service_def started_valid)
qed

section \<open>Properties\<close>



end
