(* ===== verification/Executor.thy ===== *)
theory Executor
  imports Scheduler "HOL-Library.Multiset"
begin

text \<open>
  The package \<open>executor\<close>: what the four functions do that the scheduler calls. The system calls of
  \<open>executor_windows.go\<close> belong to the platform; their answers are in the record \<open>win_calls\<close>. Of
  \<open>LockScreen\<close> the theory records every handle that is opened and closed, in order, deferred calls
  included.
\<close>

text \<open>
  The answers: the session of the console, the status and the handle that \<open>WTSQueryUserToken\<close>
  leaves, the duplicate of the token, and the handles of the process and its thread. \<open>Inl\<close> is an
  error and its text.
\<close>

record win_calls =
  consoleSession :: "32 word"
  queryUserToken :: "32 word \<Rightarrow> 64 word \<times> nat"
  queryError :: string
  duplicateToken :: "nat \<Rightarrow> string + nat"
  createProcess :: "nat \<Rightarrow> string + nat \<times> nat"
  runCommand :: "string list \<Rightarrow> string option"

datatype handle_event = Opened nat | Closed nat

definition LockScreen_windows :: "win_calls \<Rightarrow> string option \<times> handle_event list" where
  "LockScreen_windows w =
     (let sessionID = consoleSession w
      in if sessionID = 0xFFFFFFFF then (Some ''no active console session found'', [])
         else
           (let (r, token) = queryUserToken w sessionID
            in if r = 0 then (Some (''WTSQueryUserToken for session '' @ nat_dec (unat sessionID) @ '': '' @ queryError w), [])
               else
                 (case duplicateToken w token of
                    Inl e \<Rightarrow> (Some (''DuplicateTokenEx: '' @ e), [Opened token, Closed token])
                  | Inr dupToken \<Rightarrow>
                      (case createProcess w dupToken of
                         Inl e \<Rightarrow>
                           (Some (''CreateProcessAsUser: '' @ e),
                            [Opened token, Opened dupToken, Closed dupToken, Closed token])
                       | Inr (process, thread) \<Rightarrow>
                           (None,
                            [Opened token, Opened dupToken, Opened process, Opened thread,
                             Closed process, Closed thread, Closed dupToken, Closed token])))))"

definition Restart_windows :: "win_calls \<Rightarrow> string option" where
  "Restart_windows w = runCommand w [''shutdown'', ''/r'', ''/t'', ''60'']"

definition Restart_other :: "string option" where
  "Restart_other = Some ''restart is only supported on Windows''"

definition LockScreen_other :: "string option" where
  "LockScreen_other = Some ''screen lock is only supported on Windows''"

definition DryRestart_run :: "string option" where
  "DryRestart_run = None"

definition DryLockScreen_run :: "string option" where
  "DryLockScreen_run = None"

text \<open>The effects on the platform of an action that the scheduler executes; its error is only logged.\<close>

datatype effect = RanCommand "string list" | UsedHandles "handle_event list"

fun run_action :: "win_calls \<Rightarrow> os_action \<Rightarrow> string option \<times> effect list" where
  "run_action w RealRestart = (Restart_windows w, [RanCommand [''shutdown'', ''/r'', ''/t'', ''60'']])"
| "run_action w RealLockScreen =
     (let (e, hs) = LockScreen_windows w in (e, [UsedHandles hs]))"
| "run_action w DryRestart = (DryRestart_run, [])"
| "run_action w DryLockScreen = (DryLockScreen_run, [])"

fun opened :: "handle_event list \<Rightarrow> nat list" where
  "opened [] = []"
| "opened (Opened n # es) = n # opened es"
| "opened (Closed n # es) = opened es"

fun closed_handles :: "handle_event list \<Rightarrow> nat list" where
  "closed_handles [] = []"
| "closed_handles (Opened n # es) = closed_handles es"
| "closed_handles (Closed n # es) = n # closed_handles es"

text \<open>No handle is closed before it is opened: in every prefix, at least as many are opened.\<close>

definition balanced :: "handle_event list \<Rightarrow> bool" where
  "balanced es \<longleftrightarrow>
     list_all (\<lambda>k. mset (closed_handles (take k es)) \<subseteq># mset (opened (take k es))) [0..<Suc (length es)]
     \<and> mset (opened es) = mset (closed_handles es)"

section \<open>Properties\<close>

text \<open>
  C39: locking the screen leaks no handle: on every path, errors included, each handle that was
  opened has been closed exactly once at the end, none is closed before it is opened; and there
  is no error exactly if every call has succeeded.
\<close>

theorem lock_screen_closes_handles:
  "balanced (snd (LockScreen_windows w))
   \<and> (fst (LockScreen_windows w) = None \<longleftrightarrow>
        consoleSession w \<noteq> 0xFFFFFFFF
        \<and> fst (queryUserToken w (consoleSession w)) \<noteq> 0
        \<and> (\<exists>d p. duplicateToken w (snd (queryUserToken w (consoleSession w))) = Inr d \<and> createProcess w d = Inr p))"
proof -
  obtain r t where q: "queryUserToken w (consoleSession w) = (r, t)" by fastforce
  show ?thesis
  proof (cases "consoleSession w = 0xFFFFFFFF \<or> r = 0")
    case True
    then show ?thesis using q by (auto simp: LockScreen_windows_def Let_def balanced_def)
  next
    case False
    show ?thesis
    proof (cases "duplicateToken w t")
      case (Inl e)
      then show ?thesis using False q by (simp add: LockScreen_windows_def Let_def balanced_def)
    next
      case d: (Inr d)
      show ?thesis
        using False q d by (cases "createProcess w d")
          (auto simp: LockScreen_windows_def Let_def balanced_def numeral_eq_Suc)
    qed
  qed
qed

end
