(* ===== verification/Script.thy ===== *)
theory Script
  imports Upgrade
begin

text \<open>
  The batch script that replaces the binary, as a program: its commands, how they are printed (the
  text that \<open>applyUpgrade\<close> writes is the print of \<open>upgrade_script\<close>), and what \<open>cmd.exe\<close> does with
  them. What the commands meet (whether a copy succeeds, what a failed copy leaves behind, which
  state the service is in after it has been told to stop or start) is chosen by the environment.
\<close>

section \<open>Commands\<close>

text \<open>
  \<open>if errorlevel 1\<close> guards a block; the only jump goes to the label \<open>:cleanup\<close>, which stands at
  the top level.
\<close>

datatype bat =
    EchoOff
  | Echo string
  | Ping string
  | ScStop
  | ScStart
  | ScFind string
  | Copy string string
  | IfError "bat list"
  | GotoCleanup
  | CleanupLabel
  | Del string
  | DeleteTask
  | DelSelf

section \<open>Printing\<close>

fun print_bat :: "string \<Rightarrow> string \<Rightarrow> string \<Rightarrow> string \<Rightarrow> bat \<Rightarrow> string list"
  and print_bats :: "string \<Rightarrow> string \<Rightarrow> string \<Rightarrow> string \<Rightarrow> bat list \<Rightarrow> string list"
where
  "print_bat sn task logf ind c =
     (case c of
        EchoOff \<Rightarrow> [ind @ ''@echo off'']
      | Echo m \<Rightarrow> [ind @ ''echo '' @ m @ '' >> '' @ dq logf]
      | Ping n \<Rightarrow> [ind @ ''ping -n '' @ n @ '' 127.0.0.1 >nul'']
      | ScStop \<Rightarrow> [ind @ ''sc.exe stop '' @ sn @ '' >> '' @ dq logf @ '' 2>&1'']
      | ScStart \<Rightarrow> [ind @ ''sc.exe start '' @ sn @ '' >> '' @ dq logf @ '' 2>&1'']
      | ScFind x \<Rightarrow> [ind @ ''sc.exe query '' @ sn @ '' | find '' @ dq x @ '' >nul 2>&1'']
      | Copy src dst \<Rightarrow>
          [ind @ ''copy /y '' @ dq src @ '' '' @ dq dst @ '' >> '' @ dq logf @ '' 2>&1'']
      | IfError cs \<Rightarrow>
          (ind @ ''if errorlevel 1 ('') # print_bats sn task logf (ind @ ''  '') cs @ [ind @ '')'']
      | GotoCleanup \<Rightarrow> [ind @ ''goto :cleanup'']
      | CleanupLabel \<Rightarrow> [ind @ '':cleanup'']
      | Del p \<Rightarrow> [ind @ ''del '' @ dq p @ '' >nul 2>&1'']
      | DeleteTask \<Rightarrow> [ind @ ''schtasks.exe /delete /tn '' @ task @ '' /f >nul 2>&1'']
      | DelSelf \<Rightarrow> [ind @ ''del '' @ dq ''%~f0'' @ '' >nul 2>&1''])"
| "print_bats sn task logf ind [] = []"
| "print_bats sn task logf ind (c # cs) = print_bat sn task logf ind c @ print_bats sn task logf ind cs"

declare print_bat.simps [simp del]

definition fatal_message :: string where
  "fatal_message = ''FATAL: rollback copy failed '' @ em_dash @ '' restore manually from .bak''"

definition rollback :: "string \<Rightarrow> bat list" where
  "rollback installed =
     [Copy (installed @ ''.bak'') installed, IfError [Echo fatal_message, GotoCleanup], ScStart]"

definition script_body :: "string \<Rightarrow> string \<Rightarrow> bat list" where
  "script_body tmp installed =
     [EchoOff,
      Echo ''Upgrade started %date% %time%'',
      Ping ''4'',
      Echo ''Stopping service...'',
      ScStop,
      Echo ''Waiting for service to stop...'',
      Ping ''6'',
      ScFind ''STOPPED'',
      IfError [Echo ''ERROR: service did not stop, aborting upgrade'', ScStart, GotoCleanup],
      Echo ''Service stopped. Copying new binary...'',
      Copy tmp installed,
      IfError ([Echo ''ERROR: copy failed, restoring backup''] @ rollback installed @ [GotoCleanup]),
      Echo ''Starting service with new binary...'',
      ScStart,
      Echo ''Verifying service started...'',
      Ping ''6'',
      ScFind ''RUNNING'',
      IfError ([Echo ''ERROR: service not running after start, restoring backup'', ScStop, Ping ''3'']
        @ rollback installed)]"

definition script_cleanup :: "string \<Rightarrow> bat list" where
  "script_cleanup tmp =
     [CleanupLabel, Del tmp, DeleteTask, Echo ''Upgrade finished %date% %time%'', DelSelf]"

definition upgrade_script :: "string \<Rightarrow> string \<Rightarrow> bat list" where
  "upgrade_script tmp installed = script_body tmp installed @ script_cleanup tmp"

section \<open>Execution\<close>

text \<open>
  The service reports \<open>STOPPED\<close>, \<open>RUNNING\<close> or something else. \<open>calls\<close> are the states that the
  environment puts the service into, one for every \<open>sc.exe stop\<close> and \<open>sc.exe start\<close>; \<open>copies\<close> says
  for every \<open>copy\<close> whether it succeeds, and what is at the destination where it does not.
\<close>

datatype copy_answer = CopyOk | CopyFails "string option"

record bat_state =
  bfiles :: "string \<Rightarrow> string option"
  service :: string
  errorlevel :: bool
  calls :: "string list"
  copies :: "copy_answer list"
  commands :: "bat list"
  messages :: "string list"

definition sc_call :: "bat \<Rightarrow> bat_state \<Rightarrow> bat_state" where
  "sc_call c s =
     (case calls s of
        [] \<Rightarrow> s\<lparr>commands := commands s @ [c]\<rparr>
      | x # xs \<Rightarrow> s\<lparr>service := x, calls := xs, commands := commands s @ [c]\<rparr>)"

definition bat_copy :: "string \<Rightarrow> string \<Rightarrow> bat_state \<Rightarrow> bat_state" where
  "bat_copy src dst s =
     (case bfiles s src of
        None \<Rightarrow> s\<lparr>errorlevel := True\<rparr>
      | Some d \<Rightarrow>
          (case copies s of
             CopyFails x # xs \<Rightarrow> s\<lparr>bfiles := (bfiles s)(dst := x), copies := xs, errorlevel := True\<rparr>
           | CopyOk # xs \<Rightarrow> s\<lparr>bfiles := (bfiles s)(dst \<mapsto> d), copies := xs, errorlevel := False\<rparr>
           | [] \<Rightarrow> s\<lparr>bfiles := (bfiles s)(dst \<mapsto> d), errorlevel := False\<rparr>))"

text \<open>The flag of the result says that a jump to the label is under way.\<close>

fun exec_bat :: "bat \<Rightarrow> bat_state \<Rightarrow> bool \<times> bat_state"
  and exec_bats :: "bat list \<Rightarrow> bat_state \<Rightarrow> bool \<times> bat_state"
where
  "exec_bat c s =
     (case c of
        Echo m \<Rightarrow> (False, s\<lparr>messages := messages s @ [m]\<rparr>)
      | ScStop \<Rightarrow> (False, sc_call ScStop s)
      | ScStart \<Rightarrow> (False, sc_call ScStart s)
      | ScFind x \<Rightarrow> (False, s\<lparr>errorlevel := (service s \<noteq> x)\<rparr>)
      | Copy src dst \<Rightarrow> (False, bat_copy src dst s)
      | IfError cs \<Rightarrow> if errorlevel s then exec_bats cs s else (False, s)
      | GotoCleanup \<Rightarrow> (True, s)
      | Del p \<Rightarrow> (False, s\<lparr>bfiles := (bfiles s)(p := None)\<rparr>)
      | _ \<Rightarrow> (False, s))"
| "exec_bats [] s = (False, s)"
| "exec_bats (c # cs) s =
     (let (jump, s1) = exec_bat c s in if jump then (True, s1) else exec_bats cs s1)"

declare exec_bat.simps [simp del]

text \<open>A jump skips to the label, behind which there is no other.\<close>

fun from_label :: "bat list \<Rightarrow> bat list" where
  "from_label [] = []"
| "from_label (c # cs) = (if c = CleanupLabel then cs else from_label cs)"

definition run_script :: "bat list \<Rightarrow> bat_state \<Rightarrow> bat_state" where
  "run_script cs s =
     (let (jump, s1) = exec_bats cs s
      in if jump then snd (exec_bats (from_label cs) s1) else s1)"

section \<open>Lemmas\<close>

lemma print_bats_append:
  "print_bats sn t l ind (xs @ ys) = print_bats sn t l ind xs @ print_bats sn t l ind ys"
  by (induction xs) simp_all

lemmas print_each [simp] = print_bat.simps [where c = EchoOff] print_bat.simps [where c = "Echo m" for m]
  print_bat.simps [where c = "Ping n" for n] print_bat.simps [where c = ScStop]
  print_bat.simps [where c = ScStart] print_bat.simps [where c = "ScFind x" for x]
  print_bat.simps [where c = "Copy a b" for a b] print_bat.simps [where c = "IfError cs" for cs]
  print_bat.simps [where c = GotoCleanup] print_bat.simps [where c = CleanupLabel]
  print_bat.simps [where c = "Del p" for p] print_bat.simps [where c = DeleteTask]
  print_bat.simps [where c = DelSelf]

lemmas exec_each [simp] = exec_bat.simps [where c = EchoOff] exec_bat.simps [where c = "Echo m" for m]
  exec_bat.simps [where c = "Ping n" for n] exec_bat.simps [where c = ScStop]
  exec_bat.simps [where c = ScStart] exec_bat.simps [where c = "ScFind x" for x]
  exec_bat.simps [where c = "Copy a b" for a b] exec_bat.simps [where c = "IfError cs" for cs]
  exec_bat.simps [where c = GotoCleanup] exec_bat.simps [where c = CleanupLabel]
  exec_bat.simps [where c = "Del p" for p] exec_bat.simps [where c = DeleteTask]
  exec_bat.simps [where c = DelSelf]

lemma exec_bats_append:
  "exec_bats (xs @ ys) s =
     (let (jump, s1) = exec_bats xs s in if jump then (True, s1) else exec_bats ys s1)"
  by (induction xs arbitrary: s) (simp_all add: case_prod_unfold Let_def)

lemma sc_call_simps [simp]:
  "bfiles (sc_call c s) = bfiles s" "messages (sc_call c s) = messages s"
  "commands (sc_call c s) = commands s @ [c]" "copies (sc_call c s) = copies s"
  "errorlevel (sc_call c s) = errorlevel s"
  by (simp_all add: sc_call_def split: list.split)

lemma bat_copy_simps [simp]:
  "messages (bat_copy a b s) = messages s" "commands (bat_copy a b s) = commands s"
  "q \<noteq> b \<Longrightarrow> bfiles (bat_copy a b s) q = bfiles s q"
  "bfiles s a = Some d \<Longrightarrow> \<not> errorlevel (bat_copy a b s) \<Longrightarrow> bfiles (bat_copy a b s) b = Some d"
  by (auto simp: bat_copy_def split: option.splits list.splits copy_answer.splits)

text \<open>
  What the script has done when it reaches the label: \<open>sound\<close> compares the state there with the
  state at the beginning.
\<close>

definition quiet :: "string list \<Rightarrow> bool" where
  "quiet ms \<longleftrightarrow> list_all (\<lambda>m. take 5 m \<noteq> ''ERROR'' \<and> take 5 m \<noteq> ''FATAL'') ms"

definition sound :: "string \<Rightarrow> string \<Rightarrow> string \<Rightarrow> bat_state \<Rightarrow> bat_state \<Rightarrow> bool" where
  "sound installed old new s u \<longleftrightarrow>
     (\<forall>q. q \<noteq> installed \<longrightarrow> bfiles u q = bfiles s q)
     \<and> (fatal_message \<in> set (messages u)
        \<or> bfiles u installed \<in> {Some old, Some new} \<and> commands u \<noteq> [] \<and> last (commands u) = ScStart)
     \<and> (quiet (messages u) \<longrightarrow> bfiles u installed = Some new)"

lemma quiet_simps [simp]:
  "quiet (xs @ ys) \<longleftrightarrow> quiet xs \<and> quiet ys"
  "quiet (m # ms) \<longleftrightarrow> take 5 m \<noteq> ''ERROR'' \<and> take 5 m \<noteq> ''FATAL'' \<and> quiet ms" "quiet []"
  by (simp_all add: quiet_def)

lemma fatal_not_quiet [simp]: "take 5 fatal_message = ''FATAL''"
  by (simp add: fatal_message_def)

lemma rollback_exec:
  assumes "bfiles u (installed @ ''.bak'') = Some old" and "\<not> quiet (messages u)"
    and "\<forall>q. q \<noteq> installed \<longrightarrow> bfiles u q = bfiles s q"
  shows "sound installed old new s (snd (exec_bats (rollback installed) u))"
proof (cases "errorlevel (bat_copy (installed @ ''.bak'') installed u)")
  case True
  then show ?thesis using assms by (simp add: rollback_def sound_def)
next
  case False
  then show ?thesis using assms by (simp add: rollback_def sound_def)
qed

text \<open>The last part of the script, from the check that the service runs.\<close>

lemma verify_sound:
  assumes "bfiles v installed = Some new" and "bfiles v (installed @ ''.bak'') = Some old"
    and "\<forall>q. q \<noteq> installed \<longrightarrow> bfiles v q = bfiles s q" and "commands v \<noteq> []" and "last (commands v) = ScStart"
  shows "sound installed old new s (snd (exec_bats (drop 16 (script_body tmp installed)) v))"
proof (cases "service v = ''RUNNING''")
  case True
  have "exec_bats (drop 16 (script_body tmp installed)) v = (False, v\<lparr>errorlevel := False\<rparr>)"
    using True by (simp add: script_body_def)
  then show ?thesis using assms by (simp add: sound_def)
next
  case False
  let ?e = "''ERROR: service not running after start, restoring backup''"
  have "snd (exec_bats (drop 16 (script_body tmp installed)) v) =
      snd (exec_bats (rollback installed) (sc_call ScStop (v\<lparr>errorlevel := True, messages := messages v @ [?e]\<rparr>)))"
    using False by (simp add: script_body_def exec_bats_append Let_def case_prod_unfold)
  moreover have "sound installed old new s (snd (exec_bats (rollback installed)
      (sc_call ScStop (v\<lparr>errorlevel := True, messages := messages v @ [?e]\<rparr>))))"
    by (rule rollback_exec) (use assms in simp_all)
  ultimately show ?thesis by simp
qed

text \<open>The part behind the copy.\<close>

lemma copied_sound:
  assumes new: "\<not> errorlevel c \<Longrightarrow> bfiles c installed = Some new"
    and bak: "bfiles c (installed @ ''.bak'') = Some old" and keep: "\<forall>q. q \<noteq> installed \<longrightarrow> bfiles c q = bfiles s q"
  shows "sound installed old new s (snd (exec_bats (drop 11 (script_body tmp installed)) c))"
proof (cases "errorlevel c")
  case True
  let ?c = "c\<lparr>messages := messages c @ [''ERROR: copy failed, restoring backup'']\<rparr>"
  have "snd (exec_bats (drop 11 (script_body tmp installed)) c) = snd (exec_bats (rollback installed) ?c)"
    using True by (simp add: script_body_def exec_bats_append Let_def case_prod_unfold)
  moreover have "sound installed old new s (snd (exec_bats (rollback installed) ?c))"
    by (rule rollback_exec) (use bak keep in simp_all)
  ultimately show ?thesis by simp
next
  case False
  define v where "v = (sc_call ScStart (c\<lparr>messages := messages c @ [''Starting service with new binary...'']\<rparr>))
    \<lparr>messages := messages c @ [''Starting service with new binary...'', ''Verifying service started...'']\<rparr>"
  have v: "bfiles v = bfiles c" "commands v \<noteq> []" "last (commands v) = ScStart" by (simp_all add: v_def)
  have "exec_bats (drop 11 (script_body tmp installed)) c = exec_bats (drop 16 (script_body tmp installed)) v"
    using False by (simp add: script_body_def v_def)
  moreover have "sound installed old new s (snd (exec_bats (drop 16 (script_body tmp installed)) v))"
    by (rule verify_sound) (use new [OF False] bak keep v in simp_all)
  ultimately show ?thesis by simp
qed

lemma script_body_sound:
  assumes "bfiles s tmp = Some new" and "bfiles s installed = Some old"
    and "bfiles s (installed @ ''.bak'') = Some old" and "tmp \<noteq> installed" and "messages s = []"
  shows "sound installed old new s (snd (exec_bats (script_body tmp installed) s))"
proof -
  let ?m1 = "[''Upgrade started %date% %time%'', ''Stopping service...'']"
    and ?m2 = "[''Waiting for service to stop...'']"
  define u where "u = (sc_call ScStop (s\<lparr>messages := ?m1\<rparr>))\<lparr>messages := ?m1 @ ?m2\<rparr>"
  have u: "bfiles u = bfiles s" "messages u = ?m1 @ ?m2" by (simp_all add: u_def)
  let ?stop = "[EchoOff, Echo ''Upgrade started %date% %time%'', Ping ''4'', Echo ''Stopping service...'',
      ScStop, Echo ''Waiting for service to stop...'', Ping ''6'']"
  let ?rest = "drop 7 (script_body tmp installed)"
  have "exec_bats ?stop s = (False, u)" using assms(5) by (simp add: u_def)
  moreover have "script_body tmp installed = ?stop @ ?rest" by (simp add: script_body_def)
  moreover have "exec_bats (?stop @ xs) s = exec_bats xs u" if "exec_bats ?stop s = (False, u)" for xs
    unfolding exec_bats_append that by simp
  ultimately have body: "exec_bats (script_body tmp installed) s = exec_bats ?rest u"
    by metis
  show ?thesis
  proof (cases "service u = ''STOPPED''")
    case False
    then show ?thesis
      using assms u unfolding body by (simp add: script_body_def sound_def)
  next
    case True
    define c where "c = bat_copy tmp installed
      (u\<lparr>errorlevel := False, messages := messages u @ [''Service stopped. Copying new binary...'']\<rparr>)"
    have "exec_bats ?rest u = exec_bats (drop 11 (script_body tmp installed)) c"
      using True by (simp add: script_body_def c_def)
    moreover have "\<not> errorlevel c \<Longrightarrow> bfiles c installed = Some new"
      unfolding c_def by (rule bat_copy_simps(4)) (simp_all add: u assms(1))
    moreover have "q \<noteq> installed \<Longrightarrow> bfiles c q = bfiles s q" for q by (simp add: c_def u)
    ultimately show ?thesis unfolding body using copied_sound [of c installed new old s tmp] assms(3) by simp
  qed
qed

text \<open>A jump, or its absence, makes no difference: the commands behind the label are executed.\<close>

lemma run_upgrade_script:
  "run_script (upgrade_script tmp installed) s =
     snd (exec_bats (tl (script_cleanup tmp)) (snd (exec_bats (script_body tmp installed) s)))"
proof -
  have "from_label (upgrade_script tmp installed) = tl (script_cleanup tmp)"
    by (simp add: upgrade_script_def script_body_def script_cleanup_def rollback_def)
  moreover have "exec_bats (script_cleanup tmp) u = exec_bats (tl (script_cleanup tmp)) u" for u
    by (simp add: script_cleanup_def)
  moreover have "\<not> fst (exec_bats (tl (script_cleanup tmp)) u)" for u
    by (simp add: script_cleanup_def)
  ultimately show ?thesis
    by (simp add: run_script_def upgrade_script_def exec_bats_append case_prod_unfold Let_def)
qed

section \<open>Properties\<close>


text \<open>
  C7: the script never leaves the machine without a binary unnoticed: whatever the copies and the
  service manager do, at its end the backup is still the old binary, the download is gone, no
  other file has changed, and either the message says that the rollback failed, or the installed
  binary is the old or the new one, undamaged, and the last thing the service was told is to
  start. Where no error is reported, it is the new one.
\<close>

theorem script_keeps_a_binary:
  assumes "bfiles s tmp = Some new" and "bfiles s installed = Some old"
    and "bfiles s (installed @ ''.bak'') = Some old"
    and "tmp \<noteq> installed" and "tmp \<noteq> installed @ ''.bak''" and "messages s = []"
  defines "t \<equiv> run_script (upgrade_script tmp installed) s"
  shows "bfiles t (installed @ ''.bak'') = Some old \<and> bfiles t tmp = None
    \<and> (\<forall>q. q \<noteq> tmp \<and> q \<noteq> installed \<longrightarrow> bfiles t q = bfiles s q)
    \<and> (if fatal_message \<in> set (messages t) then True
       else bfiles t installed \<in> {Some old, Some new} \<and> last (commands t) = ScStart)
    \<and> (quiet (messages t) \<longrightarrow> bfiles t installed = Some new)"
proof -
  let ?u = "snd (exec_bats (script_body tmp installed) s)"
  have "sound installed old new s ?u" using script_body_sound assms(1-4,6) by blast
  moreover have "t = ?u\<lparr>bfiles := (bfiles ?u)(tmp := None), messages := messages ?u @ [''Upgrade finished %date% %time%'']\<rparr>"
    by (simp add: t_def run_upgrade_script script_cleanup_def)
  moreover have "fatal_message \<noteq> ''Upgrade finished %date% %time%''" by (simp add: fatal_message_def)
  ultimately show ?thesis using assms(3-5) by (auto simp: sound_def)
qed

definition demo_bat :: "copy_answer list \<Rightarrow> bat_state" where
  "demo_bat cs =
     \<lparr>bfiles = [''t'' \<mapsto> ''new'', ''w.exe'' \<mapsto> ''old'', ''w.exe.bak'' \<mapsto> ''old''], service = ''RUNNING'',
      errorlevel = False, calls = [''STOPPED'', ''RUNNING''], copies = cs, commands = [], messages = []\<rparr>"

theorem script_keeps_a_binary_witness:
  "bfiles (run_script (upgrade_script ''t'' ''w.exe'') (demo_bat [CopyFails None])) ''w.exe.bak'' = Some ''old''"
  using script_keeps_a_binary [of "demo_bat [CopyFails None]" "''t''" "''new''" "''w.exe''" "''old''"]
  by (simp add: demo_bat_def)

end
