(* ===== verification/Responses.thy ===== *)
theory Responses
  imports Handling
begin

text \<open>
  What the handlers answer, for every request: which methods a path of the API takes, which
  statuses it answers with, and that no answer depends on the password.
\<close>

section \<open>Methods and statuses\<close>

definition api_methods :: "(string \<times> string list) list" where
  "api_methods =
     [(''/api/status'', [''GET'']),
      (''/api/restart/once'', [''POST'']),
      (''/api/restart/schedule'', [''POST'', ''DELETE'']),
      (''/api/lock/once'', [''POST'']),
      (''/api/lock/schedule'', [''POST'', ''DELETE'']),
      (''/api/reset'', [''POST'']),
      (''/api/cancel'', [''POST'']),
      (''/api/logout'', [''POST'']),
      (''/api/config'', [''GET'']),
      (''/api/config/update'', [''POST'']),
      (''/api/config/reload'', [''POST'']),
      (''/api/config/loglevel'', [''POST'']),
      (''/api/update/status'', [''GET'']),
      (''/api/update/check'', [''POST'']),
      (''/api/update/apply'', [''POST''])]"

definition answers_well :: "string list \<Rightarrow> request \<Rightarrow> response \<Rightarrow> bool" where
  "answers_well ms r x \<longleftrightarrow>
     resp_status x \<in> {200, 400, 405, 409, 500} \<and> (resp_status x = 405 \<longleftrightarrow> req_method r \<notin> set ms)"

lemma writeJSON_status: "resp_status (writeJSON v) = (if v = None then 500 else 200)"
  by (simp add: writeJSON_def split: option.split)

lemma answers_well_defs:
  "req_method r \<notin> set ms \<Longrightarrow> answers_well ms r methodNotAllowed"
  "req_method r \<in> set ms \<Longrightarrow> answers_well ms r x \<longleftrightarrow> resp_status x \<in> {200, 400, 409, 500}"
  by (auto simp: answers_well_def)

lemma scheduler_answers:
  "answers_well [''POST''] r (fst (restartOnce r s))" "answers_well [''POST''] r (fst (lockOnce r s))"
  "answers_well [''POST'', ''DELETE''] r (fst (restartSchedule r s))"
  "answers_well [''POST'', ''DELETE''] r (fst (lockSchedule r s))"
  "answers_well [''POST''] r (fst (reset_handler r s))" "answers_well [''POST''] r (fst (cancel_handler r s))"
  "answers_well [''POST''] r (fst (logout r s))"
  by (simp_all add: scheduler_handlers logout_def answers_well_def Let_def split: option.split)

lemma read_answers:
  "answers_well [''GET''] r (fst (status_handler pf r s))" "answers_well [''GET''] r (fst (configGet r s))"
  "answers_well [''GET''] r (fst (updateStatus r s))"
  by (simp_all add: read_handlers answers_well_def writeJSON_status Let_def)

lemma config_answers:
  "answers_well [''POST''] r (fst (configUpdate r s))" "answers_well [''POST''] r (fst (configReload r s))"
  "answers_well [''POST''] r (fst (configSetLogLevel r s))"
  by (simp_all add: config_handlers answers_well_def Let_def case_prod_unfold
    split: option.split sum.split prod.split)

lemma update_answers:
  "answers_well [''POST''] r (fst (updateCheck pf r s))" "answers_well [''POST''] r (fst (updateApply pf r s))"
  by (simp_all add: update_handlers answers_well_def writeJSON_status Let_def case_prod_unfold
    split: option.split sum.split prod.split)

lemmas handler_answers = scheduler_answers read_answers config_answers update_answers

lemma mux_paths: "map fst (mux pf) = map fst api_methods"
  by (simp add: mux_def api_methods_def)

lemma route_answers:
  assumes "map_of api_methods (req_path r) = Some ms"
  shows "answers_well ms r (fst (route pf e r s))"
proof -
  have "list_all2 (\<lambda>(p, h) (p', ms). p = p' \<and> answers_well ms r (fst (h r s))) (mux pf) api_methods"
    by (simp add: mux_def api_methods_def handler_answers)
  then obtain h where "map_of (mux pf) (req_path r) = Some h" and "answers_well ms r (fst (h r s))"
    using assms by (induction rule: list_all2_induct) (auto split: if_splits)
  then show ?thesis by (simp add: route_def)
qed

section \<open>The password\<close>

text \<open>The same server with another password in memory.\<close>

definition with_secret :: "string \<Rightarrow> string \<Rightarrow> server \<Rightarrow> server" where
  "with_secret p b s = s\<lparr>holder := (holder s)\<lparr>ch_cfg := (ch_cfg (holder s))\<lparr>password := p, PasswordB64 := b\<rparr>\<rparr>\<rparr>"

lemma with_secret_simps [simp]:
  "sys_of (with_secret p b s) = sys_of s" "upd (with_secret p b s) = upd s"
  "version (with_secret p b s) = version s" "disk (with_secret p b s) = disk s"
  "upgradeInProgress (with_secret p b s) = upgradeInProgress s" "ch_path (holder (with_secret p b s)) = ch_path (holder s)"
  "ch_cfg (holder (with_secret p b s)) = (ch_cfg (holder s))\<lparr>password := p, PasswordB64 := b\<rparr>"
  by (simp_all add: with_secret_def disk_def)

text \<open>Whether a file can be written does not depend on what is written.\<close>

lemma write_blind: "fst (os_WriteFile p d m w) = fst (os_WriteFile p d' m w)"
  by (simp add: os_WriteFile_def split: write_fault.split)

lemma Save_blind: "fst (Save c p w) = fst (Save c' p w)"
  unfolding Save_def by (rule write_blind)

lemma setLogLevel_blind:
  assumes "ch_path ch' = ch_path ch"
  shows "fst (setLogLevel l ch' w) = fst (setLogLevel l ch w)"
  using Save_blind [of "(ch_cfg ch')\<lparr>LogLevel := l\<rparr>" "ch_path ch" w "(ch_cfg ch)\<lparr>LogLevel := l\<rparr>"] assms
  by (simp add: setLogLevel_def Let_def case_prod_unfold split: bool.split)

lemma reload_blind:
  assumes "ch_path ch' = ch_path ch"
  shows "fst (reload ch' w) = fst (reload ch w)"
  using assms by (simp add: reload_def Let_def case_prod_unfold split: sum.split)

lemma handlers_blind:
  "fst (status_handler pf r (with_secret p b s)) = fst (status_handler pf r s)"
  "fst (restartOnce r (with_secret p b s)) = fst (restartOnce r s)"
  "fst (restartSchedule r (with_secret p b s)) = fst (restartSchedule r s)"
  "fst (lockOnce r (with_secret p b s)) = fst (lockOnce r s)"
  "fst (lockSchedule r (with_secret p b s)) = fst (lockSchedule r s)"
  "fst (reset_handler r (with_secret p b s)) = fst (reset_handler r s)"
  "fst (cancel_handler r (with_secret p b s)) = fst (cancel_handler r s)"
  "fst (logout r (with_secret p b s)) = fst (logout r s)"
  "fst (configGet r (with_secret p b s)) = fst (configGet r s)"
  "fst (updateStatus r (with_secret p b s)) = fst (updateStatus r s)"
  "fst (updateCheck pf r (with_secret p b s)) = fst (updateCheck pf r s)"
  by (simp_all add: read_handlers scheduler_handlers logout_def updateCheck_def get_config_def Let_def
    split: option.split sum.split prod.split)

lemma level_blind: "fst (configSetLogLevel r (with_secret p b s)) = fst (configSetLogLevel r s)"
  using setLogLevel_blind [of "holder (with_secret p b s)" "holder s" "query_level r" "disk s"]
  by (simp add: configSetLogLevel_def Let_def case_prod_unfold)

lemma reload_handler_blind: "fst (configReload r (with_secret p b s)) = fst (configReload r s)"
  using reload_blind [of "holder (with_secret p b s)" "holder s" "disk s"]
  by (simp add: configReload_def case_prod_unfold split: sum.split)

lemma apply_blind: "fst (updateApply pf r (with_secret p b s)) = fst (updateApply pf r s)"
proof -
  have field: "upd (x\<lparr>preparing := n\<rparr>) = upd x" "disk (x\<lparr>preparing := n\<rparr>) = disk x" for x n
    by (simp_all add: disk_def)
  have "disk (x\<lparr>upgradeInProgress := True, preparing := n\<rparr>) = disk x" for x n by (simp add: disk_def)
  then show ?thesis
    by (simp add: updateApply_def claim_upgrade_def prepare_upgrade_def field Let_def case_prod_unfold
      split: sum.split)
qed

section \<open>Properties\<close>

text \<open>
  C31: what the API answers: an authorised request to one of its fifteen paths is answered with one
  of five statuses, and with 405 exactly if its method is none of those of the path.
\<close>

theorem api_answers:
  assumes "authorised e r s" and "map_of api_methods (req_path r) = Some ms"
  shows "resp_status (fst (handle pf e r s)) \<in> {200, 400, 405, 409, 500}
    \<and> (resp_status (fst (handle pf e r s)) = 405 \<longleftrightarrow> req_method r \<notin> set ms)"
proof -
  obtain cs s' where "basicAuth (route pf) e r s = (with_cookies cs (fst (route pf e r s')), snd (route pf e r s'))"
    by (rule guard_passes [OF assms(1)])
  then show ?thesis
    using route_answers [OF assms(2), of pf e s'] by (simp add: handle_def answers_well_def) blast
qed

theorem api_answers_witness:
  "resp_status (fst (handle demo_platform (demo_env 0) (demo_post ''/api/status'' good_auth []) demo_site)) = 405"
proof -
  let ?r = "demo_post ''/api/status'' good_auth []"
  have "map_of api_methods (req_path ?r) = Some [''GET'']" by (simp add: demo_post_def api_methods_def)
  from api_answers [OF demo_authorised this] show ?thesis by (simp add: demo_post_def)
qed

text \<open>
  C32: no answer tells anything of the password: behind the middleware, every request but an update
  of the settings is answered the same, whatever the password in memory and its encoding are.
\<close>

theorem answers_hide_password:
  assumes "req_path r \<noteq> ''/api/config/update''"
  shows "fst (route pf e r (with_secret p b s)) = fst (route pf e r s)"
  using assms
  by (simp add: route_def mux_def handlers_blind level_blind reload_handler_blind apply_blind)

theorem answers_hide_password_witness:
  "fst (route demo_platform (demo_env 0) (demo_post ''/api/config/loglevel'' [] []) (with_secret [] [] demo_site)) =
   fst (route demo_platform (demo_env 0) (demo_post ''/api/config/loglevel'' [] []) demo_site)"
  by (rule answers_hide_password) (simp add: demo_post_def)

end
