(* ===== verification/ConfigRaces.thy ===== *)
theory ConfigRaces
  imports Handling
begin

text \<open>
  The three handlers that change the configuration, step by step, as they run when requests
  overlap. The configuration is an object behind a pointer: \<open>reload\<close> installs a new object that it
  has loaded before it takes the lock, and the handlers read the fields of theirs after the lock
  has been released, while another request may write to the same object. The theory shows what
  holds in every interleaving, that an undisturbed run is what the theory \<open>Handlers\<close> says, and
  what overlapping requests can lose.
\<close>

section \<open>Shared objects and requests\<close>

text \<open>
  The place of a request: \<open>configUpdate\<close> takes the lock, writes its seven fields one by one, saves
  and releases the lock; the rest is common with \<open>configReload\<close>. A number is the address of the
  object that \<open>reload\<close> has returned; the list holds the fields that have been read for
  \<open>UpdateIntervals\<close>.
\<close>

datatype config_pc =
    UpdLock settings
  | UpdWrite settings nat
  | UpdSave settings
  | ReLoad
  | SetCurrent nat
  | ReadFields nat "int list"
  | SetTimeout nat
  | SetLogger nat
  | LvlLock string
  | LvlWrite string
  | LvlSave string string
  | LvlLogger string
  | Answered bool

record shared =
  objects :: "Config list"
  current :: nat
  lock_owner :: "nat option"
  conf_disk :: os
  conf_path :: string
  restart_ivl :: IntervalRange
  lock_ivl :: IntervalRange
  session_life :: duration
  log_level :: slog_level
  reqs :: "config_pc list"

text \<open>The assignments of \<open>configUpdate\<close>, in their order.\<close>

definition write_field :: "settings \<Rightarrow> nat \<Rightarrow> Config \<Rightarrow> Config" where
  "write_field q k c =
     (if k = 0 then c\<lparr>SessionTimeoutMinutes := setSessionTimeout q\<rparr>
      else if k = 1 then c\<lparr>RestartMinMinutes := setRestartMin q\<rparr>
      else if k = 2 then c\<lparr>RestartMaxMinutes := setRestartMax q\<rparr>
      else if k = 3 then c\<lparr>LockMinMinutes := setLockMin q\<rparr>
      else if k = 4 then c\<lparr>LockMaxMinutes := setLockMax q\<rparr>
      else if k = 5 then c\<lparr>UpdateCheckMinutes := setUpdateCheck q\<rparr>
      else c\<lparr>LogLevel := setLevel q\<rparr>)"

definition read_field :: "nat \<Rightarrow> Config \<Rightarrow> int" where
  "read_field k c =
     (if k = 0 then RestartMinMinutes c else if k = 1 then RestartMaxMinutes c
      else if k = 2 then LockMinMinutes c else LockMaxMinutes c)"

definition on_current :: "(Config \<Rightarrow> Config) \<Rightarrow> shared \<Rightarrow> shared" where
  "on_current f s = s\<lparr>objects := (objects s)[current s := f (objects s ! current s)]\<rparr>"

definition current_config :: "shared \<Rightarrow> Config" where
  "current_config s = objects s ! current s"

section \<open>Steps\<close>

text \<open>One step of request \<open>i\<close>, which may have to wait for the lock.\<close>

definition conf_goes :: "nat \<Rightarrow> config_pc \<Rightarrow> shared \<Rightarrow> shared option" where
  "conf_goes i p s = Some (s\<lparr>reqs := (reqs s)[i := p]\<rparr>)"

text \<open>The critical section of \<open>configUpdate\<close>.\<close>

definition update_step :: "nat \<Rightarrow> config_pc \<Rightarrow> shared \<Rightarrow> shared option" where
  "update_step i p s =
     (case p of
        UpdLock q \<Rightarrow>
          if lock_owner s = None then conf_goes i (UpdWrite q 0) (s\<lparr>lock_owner := Some i\<rparr>) else None
      | UpdWrite q k \<Rightarrow>
          conf_goes i (if k < 6 then UpdWrite q (k + 1) else UpdSave q) (on_current (write_field q k) s)
      | UpdSave q \<Rightarrow>
          (let (saved, w) = Save (current_config s) (conf_path s) (conf_disk s)
           in conf_goes i (if saved then ReLoad else Answered False)
                (s\<lparr>conf_disk := w, lock_owner := None\<rparr>))
      | _ \<Rightarrow> None)"

text \<open>\<open>reload\<close>: the file is loaded outside the lock.\<close>

definition reload_step :: "nat \<Rightarrow> config_pc \<Rightarrow> shared \<Rightarrow> shared option" where
  "reload_step i p s =
     (case p of
        ReLoad \<Rightarrow>
          (case Load (conf_path s) (conf_disk s) of
             (Inl e, w) \<Rightarrow> conf_goes i (Answered False) (s\<lparr>conf_disk := w\<rparr>)
           | (Inr c, w) \<Rightarrow>
               conf_goes i (SetCurrent (length (objects s)))
                 (s\<lparr>conf_disk := w, objects := objects s @ [c]\<rparr>))
      | SetCurrent n \<Rightarrow>
          if lock_owner s = None then conf_goes i (ReadFields n []) (s\<lparr>current := n\<rparr>) else None
      | _ \<Rightarrow> None)"

text \<open>What both handlers do with the configuration that \<open>reload\<close> has returned, outside the lock.\<close>

definition install_step :: "nat \<Rightarrow> config_pc \<Rightarrow> shared \<Rightarrow> shared option" where
  "install_step i p s =
     (case p of
        ReadFields n vs \<Rightarrow>
          if length vs < 4 then
            conf_goes i (ReadFields n (vs @ [read_field (length vs) (objects s ! n)])) s
          else
            conf_goes i (SetTimeout n)
              (s\<lparr>restart_ivl := \<lparr>MinMinutes = vs ! 0, MaxMinutes = vs ! 1\<rparr>,
                 lock_ivl := \<lparr>MinMinutes = vs ! 2, MaxMinutes = vs ! 3\<rparr>\<rparr>)
      | SetTimeout n \<Rightarrow>
          conf_goes i (SetLogger n)
            (s\<lparr>session_life := minutes (SessionTimeoutMinutes (objects s ! n))\<rparr>)
      | SetLogger n \<Rightarrow>
          conf_goes i (Answered True) (s\<lparr>log_level := Setup (LogLevel (objects s ! n))\<rparr>)
      | _ \<Rightarrow> None)"

text \<open>\<open>setLogLevel\<close>, and the new level of the logger.\<close>

definition level_step :: "nat \<Rightarrow> config_pc \<Rightarrow> shared \<Rightarrow> shared option" where
  "level_step i p s =
     (case p of
        LvlLock l \<Rightarrow>
          if lock_owner s = None then conf_goes i (LvlWrite l) (s\<lparr>lock_owner := Some i\<rparr>) else None
      | LvlWrite l \<Rightarrow>
          conf_goes i (LvlSave l (LogLevel (current_config s))) (on_current (\<lambda>c. c\<lparr>LogLevel := l\<rparr>) s)
      | LvlSave l prev \<Rightarrow>
          (let (saved, w) = Save (current_config s) (conf_path s) (conf_disk s);
               s1 = s\<lparr>conf_disk := w, lock_owner := None\<rparr>
           in if saved then conf_goes i (LvlLogger l) s1
              else conf_goes i (Answered False) (on_current (\<lambda>c. c\<lparr>LogLevel := prev\<rparr>) s1))
      | LvlLogger l \<Rightarrow> conf_goes i (Answered True) (s\<lparr>log_level := Setup l\<rparr>)
      | _ \<Rightarrow> None)"

fun part_step :: "config_pc \<Rightarrow> nat \<Rightarrow> config_pc \<Rightarrow> shared \<Rightarrow> shared option" where
  "part_step (UpdLock q) = update_step"
| "part_step (UpdWrite q k) = update_step"
| "part_step (UpdSave q) = update_step"
| "part_step ReLoad = reload_step"
| "part_step (SetCurrent n) = reload_step"
| "part_step (ReadFields n vs) = install_step"
| "part_step (SetTimeout n) = install_step"
| "part_step (SetLogger n) = install_step"
| "part_step (Answered ok) = (\<lambda>i p s. None)"
| "part_step p = level_step"

definition conf_step :: "nat \<Rightarrow> shared \<Rightarrow> shared option" where
  "conf_step i s =
     (if length (reqs s) \<le> i then None else part_step (reqs s ! i) i (reqs s ! i) s)"

lemmas step_defs = conf_step_def update_step_def reload_step_def install_step_def level_step_def

text \<open>
  Requests arrive, validated, and run in any order; the disk may change or start to fail. The
  handlers behind the steps check their input before.
\<close>

fun valid_start :: "config_pc \<Rightarrow> bool" where
  "valid_start (UpdLock q) \<longleftrightarrow> settings_errors q = []"
| "valid_start ReLoad \<longleftrightarrow> True"
| "valid_start (LvlLock l) \<longleftrightarrow> known_level l"
| "valid_start _ \<longleftrightarrow> False"

datatype conf_label = Arrives config_pc | ConfGo nat | ConfDisk

inductive conf_sys :: "shared \<Rightarrow> conf_label \<Rightarrow> shared \<Rightarrow> bool" where
  arrives: "valid_start p \<Longrightarrow> conf_sys s (Arrives p) (s\<lparr>reqs := reqs s @ [p]\<rparr>)"
| conf_go: "conf_step i s = Some t \<Longrightarrow> conf_sys s (ConfGo i) t"
| conf_disk_changes: "conf_sys s ConfDisk (s\<lparr>conf_disk := w\<rparr>)"

definition conf_start :: "Config \<Rightarrow> string \<Rightarrow> os \<Rightarrow> shared" where
  "conf_start c path w =
     \<lparr>objects = [c], current = 0, lock_owner = None, conf_disk = w, conf_path = path,
      restart_ivl = restart_range c, lock_ivl = lock_range c,
      session_life = minutes (SessionTimeoutMinutes c), log_level = Setup (LogLevel c), reqs = []\<rparr>"

definition conf_init :: "shared \<Rightarrow> bool" where
  "conf_init s \<longleftrightarrow> (\<exists>c path w. valid_config c \<and> s = conf_start c path w)"

section \<open>What holds in every interleaving\<close>

text \<open>A configuration whose fields are all in range, though its intervals may be out of order.\<close>

definition in_day :: "int \<Rightarrow> bool" where
  "in_day m \<longleftrightarrow> 1 \<le> m \<and> m \<le> 1440"

definition sane_config :: "Config \<Rightarrow> bool" where
  "sane_config c \<longleftrightarrow>
     1 \<le> Port c \<and> Port c \<le> 65535
     \<and> Username c \<noteq> [] \<and> password c \<noteq> [] \<and> b64_decode (PasswordB64 c) = Some (password c)
     \<and> 1 \<le> SessionTimeoutMinutes c \<and> 1 \<le> UpdateCheckMinutes c
     \<and> in_day (RestartMinMinutes c) \<and> in_day (RestartMaxMinutes c)
     \<and> in_day (LockMinMinutes c) \<and> in_day (LockMaxMinutes c) \<and> known_level (LogLevel c)"

definition sane_range :: "IntervalRange \<Rightarrow> bool" where
  "sane_range ir \<longleftrightarrow> in_day (MinMinutes ir) \<and> in_day (MaxMinutes ir)"

fun sane_pc :: "nat \<Rightarrow> config_pc \<Rightarrow> bool" where
  "sane_pc n (UpdLock q) \<longleftrightarrow> settings_errors q = []"
| "sane_pc n (UpdWrite q k) \<longleftrightarrow> settings_errors q = [] \<and> k \<le> 6"
| "sane_pc n (UpdSave q) \<longleftrightarrow> settings_errors q = []"
| "sane_pc n (SetCurrent m) \<longleftrightarrow> m < n"
| "sane_pc n (ReadFields m vs) \<longleftrightarrow> m < n \<and> list_all in_day vs \<and> length vs \<le> 4"
| "sane_pc n (SetTimeout m) \<longleftrightarrow> m < n"
| "sane_pc n (SetLogger m) \<longleftrightarrow> m < n"
| "sane_pc n (LvlLock l) \<longleftrightarrow> known_level l"
| "sane_pc n (LvlWrite l) \<longleftrightarrow> known_level l"
| "sane_pc n (LvlSave l prev) \<longleftrightarrow> known_level l \<and> known_level prev"
| "sane_pc n p \<longleftrightarrow> True"

definition data_ok :: "shared \<Rightarrow> bool" where
  "data_ok s \<longleftrightarrow>
     current s < length (objects s) \<and> (\<forall>c \<in> set (objects s). sane_config c)
     \<and> sane_range (restart_ivl s) \<and> sane_range (lock_ivl s)
     \<and> (\<forall>p \<in> set (reqs s). sane_pc (length (objects s)) p)"

lemma valid_sane: "valid_config c \<Longrightarrow> sane_config c"
  by (simp add: valid_config_def sane_config_def in_day_def)

lemma write_field_sane: "settings_errors q = [] \<Longrightarrow> sane_config c \<Longrightarrow> sane_config (write_field q k c)"
  by (auto simp: settings_errors_iff sane_config_def write_field_def in_day_def)

lemma read_field_in_day: "sane_config c \<Longrightarrow> in_day (read_field k c)"
  by (simp add: sane_config_def read_field_def)

lemma data_ok_goes:
  assumes "data_ok s" and "sane_pc (length (objects s)) p"
  shows "data_ok (s\<lparr>reqs := (reqs s)[i := p]\<rparr>)"
  using assms set_update_subset_insert [of "reqs s" i p] by (auto simp: data_ok_def)

lemma sane_pc_mono: "sane_pc n p \<Longrightarrow> n \<le> m \<Longrightarrow> sane_pc m p"
  by (cases p) auto

lemma data_ok_simps [simp]:
  "data_ok (s\<lparr>conf_disk := w\<rparr>) = data_ok s" "data_ok (s\<lparr>lock_owner := x\<rparr>) = data_ok s"
  "data_ok (s\<lparr>session_life := d\<rparr>) = data_ok s" "data_ok (s\<lparr>log_level := l\<rparr>) = data_ok s"
  by (simp_all add: data_ok_def)

lemma on_current_simps [simp]:
  "reqs (on_current f s) = reqs s" "length (objects (on_current f s)) = length (objects s)"
  "current (on_current f s) = current s" "lock_owner (on_current f s) = lock_owner s"
  "conf_disk (on_current f s) = conf_disk s" "conf_path (on_current f s) = conf_path s"
  by (simp_all add: on_current_def)

lemma data_ok_on_current:
  assumes "data_ok s" and "\<And>c. sane_config c \<Longrightarrow> sane_config (f c)"
  shows "data_ok (on_current f s)"
proof -
  have "sane_config (f (objects s ! current s))"
    using assms by (simp add: data_ok_def)
  then show ?thesis
    using assms(1) set_update_subset_insert [of "objects s" "current s" "f (objects s ! current s)"]
    by (auto simp: data_ok_def on_current_def)
qed

lemma data_ok_append:
  assumes "data_ok s" and "sane_config c"
  shows "data_ok (s\<lparr>conf_disk := w, objects := objects s @ [c]\<rparr>)"
  using assms sane_pc_mono [of "length (objects s)" _ "Suc (length (objects s))"] by (auto simp: data_ok_def)

text \<open>A step, by the three parts of the code.\<close>

lemma data_ok_update:
  assumes "data_ok s" and i: "i < length (reqs s)" and "conf_step i s = Some t"
    and pc: "sane_pc (length (objects s)) (reqs s ! i)"
    and "reqs s ! i \<in> {UpdLock q, UpdWrite q k, UpdSave q}"
  shows "data_ok t"
  using assms(5)
proof (elim insertE emptyE)
  assume "reqs s ! i = UpdLock q"
  then show ?thesis
    using assms(1,3) i pc data_ok_goes [of "s\<lparr>lock_owner := Some i\<rparr>" "UpdWrite q 0" i]
    by (auto simp: step_defs conf_goes_def split: if_splits)
next
  assume w: "reqs s ! i = UpdWrite q k"
  let ?s = "on_current (write_field q k) s"
  have "data_ok ?s"
    using assms(1) by (rule data_ok_on_current) (use pc w write_field_sane in simp)
  then show ?thesis
    using assms(3) i pc w data_ok_goes [of ?s _ i] by (auto simp: step_defs conf_goes_def)
next
  assume "reqs s ! i = UpdSave q"
  then show ?thesis
    using assms(1,3) i data_ok_goes [of "s\<lparr>conf_disk := w, lock_owner := None\<rparr>" _ i for w]
    by (auto simp: step_defs conf_goes_def case_prod_unfold Let_def)
qed

lemma data_ok_load:
  assumes "data_ok s" and i: "i < length (reqs s)" and "conf_step i s = Some t" and l: "reqs s ! i = ReLoad"
  shows "data_ok t"
proof (cases "Load (conf_path s) (conf_disk s)")
  case (Pair r w)
  show ?thesis
  proof (cases r)
    case (Inl e)
    then show ?thesis
      using assms Pair data_ok_goes [of "s\<lparr>conf_disk := w\<rparr>" "Answered False" i]
      by (auto simp: step_defs conf_goes_def)
  next
    case (Inr c)
    then have "sane_config c" using Pair Load_valid_config valid_sane by metis
    from data_ok_append [OF assms(1) this] show ?thesis
      using assms(3) i l Pair Inr
        data_ok_goes [of "s\<lparr>conf_disk := w, objects := objects s @ [c]\<rparr>" "SetCurrent (length (objects s))" i]
      by (auto simp: step_defs conf_goes_def)
  qed
qed

lemma data_ok_fields:
  assumes "data_ok s" and i: "i < length (reqs s)" and "conf_step i s = Some t"
    and pc: "sane_pc (length (objects s)) (reqs s ! i)" and r: "reqs s ! i = ReadFields n vs"
  shows "data_ok t"
proof (cases "length vs < 4")
  case True
  have "in_day (read_field (length vs) (objects s ! n))"
    using assms(1) pc r by (simp add: data_ok_def read_field_in_day)
  then show ?thesis
    using assms(1,3) i pc r True data_ok_goes [of s _ i] by (auto simp: step_defs conf_goes_def)
next
  case False
  let ?s = "s\<lparr>restart_ivl := \<lparr>MinMinutes = vs ! 0, MaxMinutes = vs ! 1\<rparr>,
              lock_ivl := \<lparr>MinMinutes = vs ! 2, MaxMinutes = vs ! 3\<rparr>\<rparr>"
  have "data_ok ?s"
    using assms(1) pc r False by (simp add: data_ok_def sane_range_def list_all_length)
  then show ?thesis
    using assms(3) i pc r False data_ok_goes [of ?s "SetTimeout n" i]
    by (auto simp: step_defs conf_goes_def)
qed

lemma data_ok_install:
  assumes "data_ok s" and i: "i < length (reqs s)" and "conf_step i s = Some t"
    and pc: "sane_pc (length (objects s)) (reqs s ! i)"
    and "reqs s ! i \<in> {SetCurrent n, SetTimeout n, SetLogger n}"
  shows "data_ok t"
  using assms(5)
proof (elim insertE emptyE)
  assume c: "reqs s ! i = SetCurrent n"
  then have "data_ok (s\<lparr>current := n\<rparr>)" using assms(1) pc by (simp add: data_ok_def)
  then show ?thesis
    using assms(3) i pc c data_ok_goes [of "s\<lparr>current := n\<rparr>" "ReadFields n []" i]
    by (auto simp: step_defs conf_goes_def split: if_splits)
next
  assume "reqs s ! i = SetTimeout n"
  then show ?thesis
    using assms(1,3) i pc data_ok_goes [of "s\<lparr>session_life := d\<rparr>" "SetLogger n" i for d]
    by (auto simp: step_defs conf_goes_def)
next
  assume "reqs s ! i = SetLogger n"
  then show ?thesis
    using assms(1,3) i pc data_ok_goes [of "s\<lparr>log_level := l\<rparr>" "Answered True" i for l]
    by (auto simp: step_defs conf_goes_def)
qed

lemma data_ok_level:
  assumes "data_ok s" and i: "i < length (reqs s)" and "conf_step i s = Some t"
    and pc: "sane_pc (length (objects s)) (reqs s ! i)"
    and "reqs s ! i \<in> {LvlLock l, LvlWrite l, LvlSave l prev, LvlLogger l}"
  shows "data_ok t"
proof -
  have level: "data_ok (on_current (\<lambda>c. c\<lparr>LogLevel := x\<rparr>) u)" if "data_ok u" "known_level x" for x u
    by (rule data_ok_on_current [OF that(1)]) (use that(2) in \<open>simp add: sane_config_def\<close>)
  have cur: "known_level (LogLevel (current_config s))"
    using assms(1) by (simp add: data_ok_def current_config_def sane_config_def)
  show ?thesis
    using assms(5)
  proof (elim insertE emptyE)
    assume "reqs s ! i = LvlLock l"
    then show ?thesis
      using assms(1,3) i pc data_ok_goes [of "s\<lparr>lock_owner := Some i\<rparr>" "LvlWrite l" i]
      by (auto simp: step_defs conf_goes_def split: if_splits)
  next
    assume "reqs s ! i = LvlWrite l"
    then show ?thesis
      using assms(3) i pc cur data_ok_goes [OF level [OF assms(1), of l], of _ i]
      by (auto simp: step_defs conf_goes_def)
  next
    assume "reqs s ! i = LvlSave l prev"
    then show ?thesis
      using assms(1,3) i pc data_ok_goes [of "s\<lparr>conf_disk := w, lock_owner := None\<rparr>" "LvlLogger l" i for w]
        data_ok_goes [OF level [of "s\<lparr>conf_disk := snd (Save (current_config s) (conf_path s) (conf_disk s)),
          lock_owner := None\<rparr>" prev], of "Answered False" i]
      by (auto simp: step_defs conf_goes_def case_prod_unfold Let_def split: if_splits)
  next
    assume "reqs s ! i = LvlLogger l"
    then show ?thesis
      using assms(1,3) i pc data_ok_goes [of "s\<lparr>log_level := x\<rparr>" "Answered True" i for x]
      by (auto simp: step_defs conf_goes_def)
  qed
qed

lemma conf_step_length: "conf_step i s = Some t \<Longrightarrow> i < length (reqs s)"
  by (simp add: conf_step_def split: if_splits)

lemma data_ok_step:
  assumes "data_ok s" and "conf_step i s = Some t"
  shows "data_ok t"
proof -
  note i = conf_step_length [OF assms(2)]
  then have pc: "sane_pc (length (objects s)) (reqs s ! i)" using assms(1) by (simp add: data_ok_def)
  show ?thesis
    using data_ok_update [OF assms(1) i assms(2) pc] data_ok_load [OF assms(1) i assms(2)]
      data_ok_fields [OF assms(1) i assms(2) pc] data_ok_install [OF assms(1) i assms(2) pc]
      data_ok_level [OF assms(1) i assms(2) pc] assms(2) i
    by (cases "reqs s ! i") (auto simp: conf_step_def)
qed

section \<open>The lock\<close>

fun critical :: "config_pc \<Rightarrow> bool" where
  "critical (UpdWrite q k) \<longleftrightarrow> True"
| "critical (UpdSave q) \<longleftrightarrow> True"
| "critical (LvlWrite l) \<longleftrightarrow> True"
| "critical (LvlSave l prev) \<longleftrightarrow> True"
| "critical p \<longleftrightarrow> False"

text \<open>What a request that holds the lock knows of the configuration in memory.\<close>

fun inside :: "Config \<Rightarrow> config_pc \<Rightarrow> bool" where
  "inside c (UpdWrite q k) \<longleftrightarrow> k \<le> 6 \<and> (\<forall>j < k. write_field q j c = c)"
| "inside c (UpdSave q) \<longleftrightarrow> (\<forall>j \<le> 6. write_field q j c = c)"
| "inside c (LvlSave l prev) \<longleftrightarrow> LogLevel c = l"
| "inside c p \<longleftrightarrow> True"

definition lock_ok :: "shared \<Rightarrow> bool" where
  "lock_ok s \<longleftrightarrow>
     (\<forall>i < length (reqs s). (critical (reqs s ! i) \<longleftrightarrow> lock_owner s = Some i) \<and> inside (current_config s) (reqs s ! i))
     \<and> (\<forall>i. lock_owner s = Some i \<longrightarrow> i < length (reqs s))"

lemma outside: "\<not> critical p \<Longrightarrow> inside c p"
  by (cases p) auto

text \<open>A request takes, keeps or releases the lock; or it leaves lock and configuration alone.\<close>

lemma lock_ok_mine:
  assumes "lock_ok s" and "i < length (reqs s)" and "lock_owner s \<in> {None, Some i}"
    and "reqs u = reqs s" and "lock_owner u = (if critical p then Some i else None)"
    and "inside (current_config u) p"
  shows "lock_ok (u\<lparr>reqs := (reqs s)[i := p]\<rparr>)"
proof -
  have others: "\<not> critical (reqs s ! j)" if "j < length (reqs s)" "j \<noteq> i" for j
    using assms(1,3) that by (auto simp: lock_ok_def)
  then show ?thesis
    using assms outside
    by (auto simp: lock_ok_def nth_list_update current_config_def split: if_splits)
qed

lemma lock_ok_other:
  assumes "lock_ok s" and "i < length (reqs s)" and "\<not> critical (reqs s ! i)" and "\<not> critical p"
    and "reqs u = reqs s" and "lock_owner u = lock_owner s" and "current_config u = current_config s"
  shows "lock_ok (u\<lparr>reqs := (reqs s)[i := p]\<rparr>)"
  using assms outside [of p]
  by (auto simp: lock_ok_def nth_list_update current_config_def)

lemma write_field_idem: "write_field q k (write_field q k c) = write_field q k c"
  by (simp add: write_field_def)

lemma write_field_commute:
  "j < k \<Longrightarrow> k \<le> 6 \<Longrightarrow> write_field q j (write_field q k c) = write_field q k (write_field q j c)"
  by (simp add: write_field_def)

lemma apply_settings_writes: "apply_settings q c = fold (write_field q) [0..<7] c"
  by (simp add: apply_settings_def write_field_def upt_rec)

lemma inside_write:
  assumes "inside c (UpdWrite q k)"
  shows "inside (write_field q k c) (if k < 6 then UpdWrite q (k + 1) else UpdSave q)"
proof -
  have "write_field q j (write_field q k c) = write_field q k c" if "j \<le> k" for j
    using assms that write_field_commute [of j k q c] by (cases "j = k") (auto simp: write_field_idem)
  then show ?thesis using assms by auto
qed

lemma current_config_simps [simp]:
  "current_config (s\<lparr>conf_disk := w\<rparr>) = current_config s" "current_config (s\<lparr>lock_owner := x\<rparr>) = current_config s"
  "current_config (s\<lparr>reqs := ps\<rparr>) = current_config s" "current_config (s\<lparr>session_life := d\<rparr>) = current_config s"
  "current_config (s\<lparr>log_level := l\<rparr>) = current_config s"
  "current_config (s\<lparr>restart_ivl := r1, lock_ivl := r2\<rparr>) = current_config s"
  by (simp_all add: current_config_def)

lemma current_on_current: "data_ok s \<Longrightarrow> current_config (on_current f s) = f (current_config s)"
  by (simp add: data_ok_def current_config_def on_current_def)

lemma current_append: "data_ok s \<Longrightarrow> current_config (s\<lparr>conf_disk := w, objects := objects s @ [c]\<rparr>) = current_config s"
  by (simp add: data_ok_def current_config_def nth_append)

lemma lock_ok_step:
  assumes "lock_ok s" and d: "data_ok s" and step: "conf_step i s = Some t"
  shows "lock_ok t"
proof -
  note i = conf_step_length [OF step]
  note mine = lock_ok_mine [OF assms(1) i] and other = lock_ok_other [OF assms(1) i]
  have own: "critical (reqs s ! i) \<Longrightarrow> lock_owner s = Some i" and ins: "inside (current_config s) (reqs s ! i)"
    using assms(1) i by (auto simp: lock_ok_def)
  show ?thesis
  proof (cases "reqs s ! i")
    case (UpdWrite q k)
    let ?p = "if k < 6 then UpdWrite q (k + 1) else UpdSave q"
    have "lock_ok ((on_current (write_field q k) s)\<lparr>reqs := (reqs s)[i := ?p]\<rparr>)"
      by (rule mine) (use own ins UpdWrite inside_write [of "current_config s" q k] in
        \<open>auto simp: current_on_current [OF d]\<close>)
    then show ?thesis using step i UpdWrite by (simp add: step_defs conf_goes_def)
  next
    case (UpdLock q)
    then show ?thesis
      using step i by (auto simp: step_defs conf_goes_def intro!: mine split: if_splits)
  next
    case (LvlLock l)
    then show ?thesis
      using step i by (auto simp: step_defs conf_goes_def intro!: mine split: if_splits)
  next
    case (SetCurrent n)
    then show ?thesis
      using step i by (auto simp: step_defs conf_goes_def intro!: mine split: if_splits)
  next
    case (UpdSave q)
    then show ?thesis
      using step i own by (auto simp: step_defs conf_goes_def case_prod_unfold Let_def intro!: mine split: if_splits)
  next
    case (LvlWrite l)
    then show ?thesis
      using step i own d by (auto simp: step_defs conf_goes_def current_on_current intro!: mine)
  next
    case (LvlSave l prev)
    then show ?thesis
      using step i own by (auto simp: step_defs conf_goes_def case_prod_unfold Let_def intro!: mine split: if_splits)
  qed (use step i d in \<open>auto simp: step_defs conf_goes_def current_append
    intro!: other split: if_splits prod.splits sum.splits\<close>)
qed

section \<open>Invariants\<close>

lemma conf_inv_init: "conf_init s \<Longrightarrow> data_ok s \<and> lock_ok s"
  by (auto simp: conf_init_def conf_start_def data_ok_def lock_ok_def valid_sane)
    (auto simp: valid_config_def sane_range_def in_day_def restart_range_def lock_range_def)

lemma valid_start_sane: "valid_start p \<Longrightarrow> sane_pc n p \<and> \<not> critical p"
  by (cases p) auto

lemma conf_inv_step:
  assumes "data_ok s \<and> lock_ok s" and "conf_sys s l t"
  shows "data_ok t \<and> lock_ok t"
  using assms(2)
proof cases
  case (arrives p)
  then show ?thesis
    using assms(1) valid_start_sane [of p] outside [of p]
    by (auto simp: data_ok_def lock_ok_def nth_append less_Suc_eq)
next
  case (conf_go i)
  then show ?thesis using assms(1) data_ok_step lock_ok_step by blast
next
  case (conf_disk_changes w)
  then show ?thesis using assms(1) by (simp add: lock_ok_def)
qed

interpretation conf_runs: inductive_invariant conf_init conf_sys "\<lambda>s. data_ok s \<and> lock_ok s"
  by unfold_locales (use conf_inv_init conf_inv_step in blast)+

text \<open>Intervals that are out of order still give a wait between a minute and a day.\<close>

lemma sane_range_waits:
  assumes "sane_range ir" and "rand_ok ir n"
  shows "minute \<le> randomInterval ir n \<and> randomInterval ir n \<le> 1440 * minute"
proof (cases "MinMinutes ir \<le> MaxMinutes ir")
  case True
  then have "ok_range 1 1440 ir" using assms(1) by (simp add: sane_range_def in_day_def ok_range_def)
  then show ?thesis using randomInterval_bounds [of 1 1440 ir n] assms(2) by (simp add: sane_def)
next
  case False
  moreover have "in_i64 (MaxMinutes ir - MinMinutes ir)"
    using assms(1) by (simp add: sane_range_def in_day_def in_i64_def)
  ultimately have "randomInterval ir n = MinMinutes ir * minute"
    using assms(1) by (simp add: randomInterval_def spread_def minutes_small sane_range_def in_day_def)
  then show ?thesis using assms(1) by (simp add: sane_range_def in_day_def minute_def second_def)
qed

section \<open>Requests that are not disturbed\<close>

fun alone :: "nat \<Rightarrow> nat \<Rightarrow> shared \<Rightarrow> shared option" where
  "alone i 0 s = Some s"
| "alone i (Suc n) s = Option.bind (conf_step i s) (alone i n)"

text \<open>The server in the middle of no other request, and the agreement of the two descriptions.\<close>

definition of_server :: "server \<Rightarrow> config_pc \<Rightarrow> shared" where
  "of_server s p =
     \<lparr>objects = [ch_cfg (holder s)], current = 0, lock_owner = None, conf_disk = disk s,
      conf_path = ch_path (holder s), restart_ivl = restartInterval (sched (sys_of s)),
      lock_ivl = lockInterval (sched (sys_of s)), session_life = timeout (store s),
      log_level = logger s, reqs = [p]\<rparr>"

definition agrees :: "server \<Rightarrow> shared \<Rightarrow> bool" where
  "agrees t u \<longleftrightarrow>
     current_config u = ch_cfg (holder t) \<and> conf_disk u = disk t
     \<and> restart_ivl u = restartInterval (sched (sys_of t)) \<and> lock_ivl u = lockInterval (sched (sys_of t))
     \<and> session_life u = timeout (store t) \<and> log_level u = logger t"

lemmas conf_exec = step_defs conf_goes_def on_current_def current_config_def

lemma alone_add: "alone i (m + n) s = Option.bind (alone i m s) (alone i n)"
  by (induction m arbitrary: s) (auto split: bind_split)

text \<open>The three parts of the code, each run without a step of another request in between.\<close>

definition answered :: "nat \<Rightarrow> bool \<Rightarrow> shared \<Rightarrow> shared" where
  "answered i ok u = u\<lparr>reqs := (reqs u)[i := Answered ok]\<rparr>"

definition installed :: "nat \<Rightarrow> Config \<Rightarrow> shared \<Rightarrow> shared" where
  "installed n c u = u\<lparr>current := n, restart_ivl := restart_range c, lock_ivl := lock_range c,
     session_life := minutes (SessionTimeoutMinutes c), log_level := Setup (LogLevel c)\<rparr>"

lemma install_alone:
  assumes "i < length (reqs u)" and "reqs u ! i = SetCurrent n" and "lock_owner u = None"
  shows "alone i 8 u = Some (answered i True (installed n (objects u ! n) u))"
  using assms
  by (simp add: conf_exec eval_nat_numeral read_field_def restart_range_def lock_range_def
    answered_def installed_def)

lemma load_alone:
  assumes "i < length (reqs u)" and "reqs u ! i = ReLoad"
  shows "alone i 1 u =
    (case Load (conf_path u) (conf_disk u) of
       (Inl e, w) \<Rightarrow> Some (answered i False (u\<lparr>conf_disk := w\<rparr>))
     | (Inr c, w) \<Rightarrow> Some (u\<lparr>conf_disk := w, objects := objects u @ [c],
         reqs := (reqs u)[i := SetCurrent (length (objects u))]\<rparr>))"
  using assms by (simp add: conf_exec answered_def split: prod.split sum.split)

lemma reload_alone:
  assumes i: "i < length (reqs u)" and "reqs u ! i = ReLoad" and "lock_owner u = None"
    and l: "Load (conf_path u) (conf_disk u) = (Inr c, w)"
  shows "alone i 9 u = Some (answered i True
    (installed (length (objects u)) c (u\<lparr>conf_disk := w, objects := objects u @ [c]\<rparr>)))"
proof -
  let ?u = "u\<lparr>conf_disk := w, objects := objects u @ [c], reqs := (reqs u)[i := SetCurrent (length (objects u))]\<rparr>"
  have "alone i (1 + 8) u = alone i 8 ?u"
    unfolding alone_add load_alone [OF i assms(2)] l by simp
  also have "\<dots> = Some (answered i True (installed (length (objects u)) c ?u))"
    using install_alone [of i ?u "length (objects u)"] i assms(3) by simp
  finally show ?thesis by (simp add: answered_def installed_def)
qed

lemma update_alone:
  assumes "i < length (reqs u)" and "reqs u ! i = UpdLock q" and "lock_owner u = None"
    and "current u < length (objects u)"
    and "Save (apply_settings q (current_config u)) (conf_path u) (conf_disk u) = (saved, w)"
  shows "alone i 9 u = Some (u\<lparr>objects := (objects u)[current u := apply_settings q (current_config u)],
    conf_disk := w, reqs := (reqs u)[i := if saved then ReLoad else Answered False]\<rparr>)"
  using assms by (simp add: conf_exec eval_nat_numeral write_field_def apply_settings_def)

lemma level_alone:
  assumes "i < length (reqs u)" and "reqs u ! i = LvlLock l" and "lock_owner u = None"
    and "current u < length (objects u)"
    and "Save ((current_config u)\<lparr>LogLevel := l\<rparr>) (conf_path u) (conf_disk u) = (saved, w)"
  shows "alone i (if saved then 4 else 3) u = Some (answered i saved
    (if saved then u\<lparr>objects := (objects u)[current u := (current_config u)\<lparr>LogLevel := l\<rparr>],
       conf_disk := w, log_level := Setup l\<rparr>
     else u\<lparr>conf_disk := w\<rparr>))"
  using assms by (simp add: conf_exec eval_nat_numeral answered_def)

lemma of_server_simps [simp]:
  "reqs (of_server s p) = [p]" "lock_owner (of_server s p) = None" "current (of_server s p) = 0"
  "objects (of_server s p) = [ch_cfg (holder s)]" "conf_path (of_server s p) = ch_path (holder s)"
  "conf_disk (of_server s p) = disk s" "current_config (of_server s p) = ch_cfg (holder s)"
  by (simp_all add: of_server_def current_config_def)

lemma agrees_install:
  "agrees (install_config c (set_disk w (t\<lparr>holder := h\<lparr>ch_cfg := c\<rparr>\<rparr>)))
     (answered i ok (installed (length cs) c (u\<lparr>conf_disk := w, objects := cs @ [c]\<rparr>)))"
  by (simp add: agrees_def answered_def installed_def current_config_def UpdateIntervals_def updateTimeout_def)

lemma agrees_start: "agrees s (of_server s p)"
  by (simp add: agrees_def) (simp add: of_server_def)

definition undisturbed :: "config_pc \<Rightarrow> response \<times> server \<Rightarrow> server \<Rightarrow> bool" where
  "undisturbed p xt s \<longleftrightarrow>
     (\<exists>n u. alone 0 n (of_server s p) = Some u
        \<and> reqs u = [Answered (resp_status (fst xt) = 200)] \<and> agrees (snd xt) u)"

lemma undisturbedI:
  assumes "alone 0 n (of_server s p) = Some u" and "reqs u = [Answered ok]"
    and "ok \<longleftrightarrow> resp_status (fst xt) = 200" and "agrees (snd xt) u"
  shows "undisturbed p xt s"
  using assms unfolding undisturbed_def by blast

lemma reload_undisturbed:
  assumes "req_method r = ''POST''"
  shows "undisturbed ReLoad (configReload r s) s"
proof (cases "Load (ch_path (holder s)) (disk s)")
  case (Pair x w)
  let ?u = "of_server s ReLoad"
  show ?thesis
  proof (cases x)
    case (Inl e)
    then have r: "configReload r s = (http_error ''config reload failed'' 500, set_disk w (s\<lparr>holder := holder s\<rparr>))"
      using Pair by (intro configReload_error [OF assms]) (simp add: reload_def)
    have "alone 0 1 ?u = Some (answered 0 False (?u\<lparr>conf_disk := w\<rparr>))"
      using load_alone [of 0 ?u] Pair Inl by simp
    then show ?thesis
      by (rule undisturbedI [where ok = False]) (use agrees_start [of s ReLoad] in \<open>simp_all add: r answered_def agrees_def\<close>)
  next
    case (Inr c)
    then have r: "configReload r s = (ok_map [(''status'', ''configuration reloaded'')],
        install_config c (set_disk w (s\<lparr>holder := (holder s)\<lparr>ch_cfg := c\<rparr>\<rparr>)))"
      using Pair by (intro configReload_ok [OF assms]) (simp add: reload_def)
    let ?t = "?u\<lparr>conf_disk := w, objects := [ch_cfg (holder s)] @ [c]\<rparr>"
    have "alone 0 9 ?u = Some (answered 0 True (installed (length [ch_cfg (holder s)]) c ?t))"
      using reload_alone [of 0 ?u] Pair Inr by simp
    then show ?thesis
    proof (rule undisturbedI [where ok = True])
      show "agrees (snd (configReload r s)) (answered 0 True (installed (length [ch_cfg (holder s)]) c ?t))"
        unfolding r snd_conv by (rule agrees_install)
    qed (simp_all add: r answered_def installed_def)
  qed
qed

lemma level_undisturbed:
  assumes "req_method r = ''POST''" and "known_level (query_level r)"
  shows "undisturbed (LvlLock (query_level r)) (configSetLogLevel r s) s"
proof -
  let ?l = "query_level r" and ?u = "of_server s (LvlLock (query_level r))"
  obtain saved w where sv: "Save ((ch_cfg (holder s))\<lparr>LogLevel := ?l\<rparr>) (ch_path (holder s)) (disk s) = (saved, w)"
    by fastforce
  have "alone 0 (if saved then 4 else 3) ?u = Some (answered 0 saved
    (if saved then ?u\<lparr>objects := [(ch_cfg (holder s))\<lparr>LogLevel := ?l\<rparr>], conf_disk := w, log_level := Setup ?l\<rparr>
     else ?u\<lparr>conf_disk := w\<rparr>))"
    using level_alone [of 0 ?u ?l saved w] sv by simp
  then show ?thesis
    by (rule undisturbedI [where ok = saved]; cases saved)
      (use assms sv agrees_start [of s "LvlLock ?l"] in
        \<open>simp_all add: answered_def agrees_def configSetLogLevel_def setLogLevel_def current_config_def
          Let_def disk_def\<close>)
qed

lemma stored_view:
  assumes "Save (apply_settings q (ch_cfg (holder s))) (ch_path (holder s)) (disk s) = (saved, w)"
  shows "saves q s \<longleftrightarrow> saved" "disk (stored q s) = w"
    "agrees (stored q s) ((of_server s (UpdLock q))\<lparr>objects := [apply_settings q (ch_cfg (holder s))],
      conf_disk := w, reqs := ps\<rparr>)"
  using assms
  by (simp_all add: saves_def stored_def with_settings_def agrees_def current_config_def)
    (simp add: of_server_def)

text \<open>An update that has been saved, from the point where it reloads.\<close>

lemma saved_undisturbed:
  assumes upd: "req_method r = ''POST''" "decode_settings r = Some q" "settings_errors q = []"
    and sv: "Save (apply_settings q (ch_cfg (holder s))) (ch_path (holder s)) (disk s) = (True, w)"
    and run: "\<And>n. alone 0 (9 + n) (of_server s (UpdLock q)) = alone 0 n
      ((of_server s (UpdLock q))\<lparr>objects := [apply_settings q (ch_cfg (holder s))], conf_disk := w, reqs := [ReLoad]\<rparr>)"
  shows "undisturbed (UpdLock q) (configUpdate r s) s"
proof (cases "Load (ch_path (holder s)) w")
  case (Pair x w')
  note view = stored_view [OF sv]
  let ?c = "apply_settings q (ch_cfg (holder s))"
  let ?v = "(of_server s (UpdLock q))\<lparr>objects := [?c], conf_disk := w, reqs := [ReLoad]\<rparr>"
  have saved: "saves q s" using view(1) by simp
  show ?thesis
  proof (cases x)
    case (Inl e)
    have r: "configUpdate r s =
        (fail_map 500 [(''error'', ''saved but reload failed'')], set_disk w' (stored q s\<lparr>holder := holder (stored q s)\<rparr>))"
      by (rule configUpdate_unreloaded [OF upd saved, where e = e])
        (simp add: reload_def with_settings_def view(2) Pair Inl)
    have "alone 0 (9 + 1) (of_server s (UpdLock q)) = Some (answered 0 False (?v\<lparr>conf_disk := w'\<rparr>))"
      unfolding run using load_alone [of 0 ?v] Pair Inl by simp
    then show ?thesis
      by (rule undisturbedI [where ok = False]) (use view(3) [of "[ReLoad]"] in \<open>simp_all add: r answered_def agrees_def\<close>)
  next
    case (Inr c)
    have r: "configUpdate r s = (ok_map [(''status'', ''configuration saved'')],
        install_config c (set_disk w' (stored q s\<lparr>holder := (holder (stored q s))\<lparr>ch_cfg := c\<rparr>\<rparr>)))"
      by (rule configUpdate_done [OF upd saved])
        (simp add: reload_def with_settings_def view(2) Pair Inr)
    let ?t = "?v\<lparr>conf_disk := w', objects := [?c] @ [c]\<rparr>"
    have "alone 0 (9 + 9) (of_server s (UpdLock q)) = Some (answered 0 True (installed (length [?c]) c ?t))"
      unfolding run using reload_alone [of 0 ?v c w'] Pair Inr by simp
    then show ?thesis
    proof (rule undisturbedI [where ok = True])
      show "agrees (snd (configUpdate r s)) (answered 0 True (installed (length [?c]) c ?t))"
        unfolding r snd_conv by (rule agrees_install)
    qed (simp_all add: r answered_def installed_def)
  qed
qed

lemma update_undisturbed:
  assumes upd: "req_method r = ''POST''" "decode_settings r = Some q" "settings_errors q = []"
  shows "undisturbed (UpdLock q) (configUpdate r s) s"
proof -
  let ?c = "apply_settings q (ch_cfg (holder s))" and ?u = "of_server s (UpdLock q)"
  obtain saved w where sv: "Save ?c (ch_path (holder s)) (disk s) = (saved, w)" by fastforce
  have run: "alone 0 9 ?u = Some (?u\<lparr>objects := [?c], conf_disk := w, reqs := [if saved then ReLoad else Answered False]\<rparr>)"
    using update_alone [of 0 ?u q saved w] sv by simp
  show ?thesis
  proof (cases saved)
    case False
    then have "configUpdate r s = (fail_map 500 [(''error'', ''failed to save config'')], stored q s)"
      using stored_view(1) [OF sv] by (intro configUpdate_unsaved [OF upd]) simp
    then show ?thesis
      by (intro undisturbedI [where ok = False, OF run]) (use False stored_view(3) [OF sv] in simp_all)
  next
    case True
    show ?thesis
    proof (rule saved_undisturbed [OF upd])
      show "alone 0 (9 + n) ?u = alone 0 n (?u\<lparr>objects := [?c], conf_disk := w, reqs := [ReLoad]\<rparr>)" for n
        unfolding alone_add run using True by simp
    qed (use sv True in simp)
  qed
qed

section \<open>Runs\<close>

fun follow :: "conf_label list \<Rightarrow> shared \<Rightarrow> shared option" where
  "follow [] s = Some s"
| "follow (Arrives p # ls) s = (if valid_start p then follow ls (s\<lparr>reqs := reqs s @ [p]\<rparr>) else None)"
| "follow (ConfGo i # ls) s = Option.bind (conf_step i s) (follow ls)"
| "follow (ConfDisk # ls) s = None"

fun arrivals :: "conf_label list \<Rightarrow> config_pc list" where
  "arrivals [] = []"
| "arrivals (Arrives p # ls) = p # arrivals ls"
| "arrivals (l # ls) = arrivals ls"

lemma follow_append: "follow (xs @ ys) s = Option.bind (follow xs s) (follow ys)"
  by (induction xs s rule: follow.induct) (auto split: bind_split)

lemma follow_alone: "follow (replicate n (ConfGo i)) s = alone i n s"
  by (induction n arbitrary: s) (auto split: bind_split)

lemma follow_go: "alone i n u = Some v \<Longrightarrow> follow (replicate n (ConfGo i) @ ls) u = follow ls v"
  by (simp add: follow_append follow_alone)

lemma follow_reach: "reach conf_init conf_sys s \<Longrightarrow> follow ls s = Some t \<Longrightarrow> reach conf_init conf_sys t"
proof (induction ls s rule: follow.induct)
  case (2 p ls s)
  then show ?case using arrives [of p s] by (auto intro: reach_step split: if_splits)
next
  case (3 i ls s)
  then show ?case using conf_go [of i s] by (auto intro: reach_step simp: bind_eq_Some_conv)
qed simp_all

lemma arrivals_simps [simp]: "arrivals (xs @ ys) = arrivals xs @ arrivals ys" "arrivals (replicate n (ConfGo i)) = []"
  by (induction xs rule: arrivals.induct) (simp_all, induction n, simp_all)

text \<open>
  A reload has read the file before an update writes it, and installs what it has read after it.
\<close>

definition lost_update_run :: "settings \<Rightarrow> string \<Rightarrow> conf_label list" where
  "lost_update_run q l =
     [Arrives (UpdLock q), Arrives ReLoad] @ replicate 1 (ConfGo 1) @ replicate 9 (ConfGo 0) @ replicate 9 (ConfGo 0)
     @ replicate 8 (ConfGo 1) @ [Arrives (LvlLock l)] @ replicate 4 (ConfGo 2)"

lemma lost_update_state:
  assumes "settings_errors q = []" and "known_level l" and load: "Load path w = (Inr c, w)"
    and save: "Save (apply_settings q c) path w = (True, w1)" and load1: "Load path w1 = (Inr (apply_settings q c), w1)"
    and save2: "Save (c\<lparr>LogLevel := l\<rparr>) path w1 = (True, w2)"
  shows "\<exists>s. follow (lost_update_run q l) (conf_start c path w) = Some s
    \<and> reqs s = [Answered True, Answered True, Answered True] \<and> current_config s = c\<lparr>LogLevel := l\<rparr>
    \<and> restart_ivl s = restart_range c \<and> lock_ivl s = lock_range c \<and> conf_disk s = w2"
proof -
  let ?a = "apply_settings q c"
  define s1 where "s1 = (conf_start c path w)\<lparr>reqs := [UpdLock q, ReLoad]\<rparr>"
  define s2 where "s2 = s1\<lparr>conf_disk := w, objects := [c, c], reqs := [UpdLock q, SetCurrent 1]\<rparr>"
  define s3 where "s3 = s2\<lparr>objects := [?a, c], conf_disk := w1, reqs := [ReLoad, SetCurrent 1]\<rparr>"
  define s4 where "s4 = answered 0 True (installed 2 ?a (s3\<lparr>conf_disk := w1, objects := [?a, c, ?a]\<rparr>))"
  define s5 where "s5 = (answered 1 True (installed 1 c s4))\<lparr>reqs := [Answered True, Answered True, LvlLock l]\<rparr>"
  define s6 where "s6 = answered 2 True (s5\<lparr>objects := [?a, c\<lparr>LogLevel := l\<rparr>, ?a], conf_disk := w2, log_level := Setup l\<rparr>)"
  note states = conf_start_def s1_def s2_def s3_def s4_def s5_def s6_def answered_def installed_def
  have g1: "alone 1 1 s1 = Some s2"
    using load_alone [of 1 s1] load by (simp add: states)
  have g2: "alone 0 9 s2 = Some s3"
    using update_alone [of 0 s2 q True w1] save by (simp add: states current_config_def)
  have g3: "alone 0 9 s3 = Some s4"
    using reload_alone [of 0 s3 ?a w1] load1 by (simp add: states)
  have g4: "alone 1 8 s4 = Some (answered 1 True (installed 1 c s4))"
    using install_alone [of 1 s4 1] by (simp add: states)
  have g5: "alone 2 4 s5 = Some s6"
    using level_alone [of 2 s5 l True w2] save2 by (simp add: states current_config_def)
  have start: "follow ([Arrives (UpdLock q), Arrives ReLoad] @ ls) (conf_start c path w) = follow ls s1" for ls
    using assms(1) by (simp add: conf_start_def s1_def)
  have third: "follow ([Arrives (LvlLock l)] @ ls) (answered 1 True (installed 1 c s4)) = follow ls s5" for ls
    using assms(2) by (simp add: states)
  have "follow (lost_update_run q l) (conf_start c path w) = Some s6"
    unfolding lost_update_run_def start follow_go [OF g1] follow_go [OF g2] follow_go [OF g3] follow_go [OF g4] third follow_alone
    by (rule g5)
  then show ?thesis by (simp add: states current_config_def)
qed

text \<open>
  The fields are read without the lock from an object that a later update writes to, so two
  updates that overlap can leave the scheduler with the minimum of one and the maximum of the other,
  although both are answered as saved and the configuration in memory and in the file is the second one's.
\<close>

definition mixed_run :: "settings \<Rightarrow> settings \<Rightarrow> conf_label list" where
  "mixed_run q r =
     [Arrives (UpdLock q), Arrives (UpdLock r)] @ replicate 9 (ConfGo 0) @ replicate 3 (ConfGo 0)
     @ replicate 9 (ConfGo 1) @ replicate 9 (ConfGo 1) @ replicate 6 (ConfGo 0)"

theorem mixed_intervals_reachable:
  assumes "settings_errors q = []" and "settings_errors r = []"
    and saveq: "Save (apply_settings q c) path w = (True, w1)" and loadq: "Load path w1 = (Inr (apply_settings q c), w1)"
    and saver: "Save (apply_settings r c) path w1 = (True, w2)" and loadr: "Load path w2 = (Inr (apply_settings r c), w2)"
  shows "\<exists>s. follow (mixed_run q r) (conf_start c path w) = Some s
    \<and> reqs s = [Answered True, Answered True] \<and> current_config s = apply_settings r c \<and> conf_disk s = w2
    \<and> restart_ivl s = \<lparr>MinMinutes = setRestartMin q, MaxMinutes = setRestartMax r\<rparr>"
proof -
  let ?a = "apply_settings q c" and ?b = "apply_settings r c"
  have over: "apply_settings r ?a = ?b" by (simp add: apply_settings_def)
  define s1 where "s1 = (conf_start c path w)\<lparr>reqs := [UpdLock q, UpdLock r]\<rparr>"
  define s2 where "s2 = s1\<lparr>objects := [?a], conf_disk := w1, reqs := [ReLoad, UpdLock r]\<rparr>"
  define s3 where "s3 = s2\<lparr>objects := [?a, ?a], current := 1, reqs := [ReadFields 1 [setRestartMin q], UpdLock r]\<rparr>"
  define s4 where "s4 = s3\<lparr>objects := [?a, ?b], conf_disk := w2, reqs := [ReadFields 1 [setRestartMin q], ReLoad]\<rparr>"
  define s5 where "s5 = answered 1 True (installed 2 ?b (s4\<lparr>objects := [?a, ?b, ?b]\<rparr>))"
  define s6 where "s6 = s5\<lparr>reqs := [Answered True, Answered True],
    restart_ivl := \<lparr>MinMinutes = setRestartMin q, MaxMinutes = setRestartMax r\<rparr>\<rparr>"
  note states = conf_start_def s1_def s2_def s3_def s4_def s5_def s6_def answered_def installed_def
  have g1: "alone 0 9 s1 = Some s2"
    using update_alone [of 0 s1 q True w1] saveq by (simp add: states current_config_def)
  have g2: "alone 0 3 s2 = Some s3"
    using loadq by (simp add: states conf_exec eval_nat_numeral read_field_def apply_settings_def)
  have g3: "alone 1 9 s3 = Some s4"
    using update_alone [of 1 s3 r True w2] saver over by (simp add: states current_config_def)
  have g4: "alone 1 9 s4 = Some s5"
    using reload_alone [of 1 s4 ?b w2] loadr by (simp add: states)
  have g5: "alone 0 6 s5 = Some s6"
    by (simp add: states conf_exec eval_nat_numeral read_field_def apply_settings_def lock_range_def)
  have start: "follow ([Arrives (UpdLock q), Arrives (UpdLock r)] @ ls) (conf_start c path w) = follow ls s1" for ls
    using assms(1,2) by (simp add: conf_start_def s1_def)
  have "follow (mixed_run q r) (conf_start c path w) = Some s6"
    unfolding mixed_run_def start follow_go [OF g1] follow_go [OF g2] follow_go [OF g3] follow_go [OF g4] follow_alone
    by (rule g5)
  then show ?thesis by (simp add: states current_config_def)
qed

section \<open>Properties\<close>

text \<open>
  C17: whatever requests to change the configuration overlap, however their steps are interleaved
  and whatever happens to the disk: at most one of them is in the critical section, what an
  update writes to the file carries exactly its own settings, every configuration object has all
  its fields in range, and even where the scheduler has been given the minimum of one request and
  the maximum of another, it waits between a minute and a day.
\<close>

theorem config_interleavings:
  assumes "reach conf_init conf_sys s"
  shows "(\<forall>i < length (reqs s). \<forall>j < length (reqs s). critical (reqs s ! i) \<and> critical (reqs s ! j) \<longrightarrow> i = j)
    \<and> (\<forall>q. UpdSave q \<in> set (reqs s) \<longrightarrow> apply_settings q (current_config s) = current_config s)
    \<and> (\<forall>c \<in> set (objects s). sane_config c)
    \<and> (\<forall>ir \<in> {restart_ivl s, lock_ivl s}. \<forall>n. rand_ok ir n \<longrightarrow>
         minute \<le> randomInterval ir n \<and> randomInterval ir n \<le> 1440 * minute)"
proof -
  have d: "data_ok s" and l: "lock_ok s" using conf_runs.reach_inv [OF assms] by simp_all
  have "apply_settings q (current_config s) = current_config s" if saving: "UpdSave q \<in> set (reqs s)" for q
  proof -
    obtain i where "i < length (reqs s)" "reqs s ! i = UpdSave q" using saving by (auto simp: in_set_conv_nth)
    then have "inside (current_config s) (UpdSave q)" using l unfolding lock_ok_def by metis
    then show ?thesis by (simp add: apply_settings_writes upt_rec)
  qed
  moreover have "i = j" if "i < length (reqs s)" "j < length (reqs s)" "critical (reqs s ! i)" "critical (reqs s ! j)" for i j
    using l that by (auto simp: lock_ok_def)
  ultimately show ?thesis using d sane_range_waits by (auto simp: data_ok_def)
qed

theorem config_interleavings_witness:
  "sane_config (current_config (conf_start defaults ''c'' empty_disk))"
proof -
  have "conf_init (conf_start defaults ''c'' empty_disk)"
    using defaults_valid unfolding conf_init_def by blast
  then show ?thesis
    using config_interleavings [OF reach_init] by (simp add: conf_start_def current_config_def)
qed

text \<open>
  C18: the three handlers that change the configuration, as functions of the whole server, are the
  undisturbed runs of their steps: such a run ends, with the status and with the configuration, the
  file, the intervals, the session timeout and the level of the function.
\<close>

theorem handlers_are_undisturbed_runs:
  assumes "req_method r = ''POST''"
  shows "undisturbed ReLoad (configReload r s) s
    \<and> (decode_settings r = Some q \<and> settings_errors q = [] \<longrightarrow> undisturbed (UpdLock q) (configUpdate r s) s)
    \<and> (known_level (query_level r) \<longrightarrow> undisturbed (LvlLock (query_level r)) (configSetLogLevel r s) s)"
  using assms reload_undisturbed update_undisturbed level_undisturbed by blast

theorem handlers_are_undisturbed_runs_witness:
  "undisturbed (UpdLock demo_settings) (configUpdate demo_update demo_site) demo_site"
  using handlers_are_undisturbed_runs [of demo_update demo_site demo_settings] demo_update_decodes demo_settings_ok
  by (simp add: demo_update_def demo_post_def)

text \<open>
  C19: overlapping requests can lose an update. Whatever the settings are: where a reload has read
  the file just before an update and installs what it has read just after, both are answered as
  done, but the server goes on with the old settings; and the next change of the log level writes
  the old settings back to the file.
\<close>

theorem update_can_be_lost:
  assumes "valid_config c" and "int_fields_ok c" and "valid_utf8 (Username c)" and "settings_errors q = []"
    and "settings_i64 q" and "known_level l" and "disk_ok path w" and "Load path w = (Inr c, w)"
  shows "\<exists>s. reach conf_init conf_sys s \<and> follow (lost_update_run q l) (conf_start c path w) = Some s
    \<and> arrivals (lost_update_run q l) = [UpdLock q, ReLoad, LvlLock l]
    \<and> reqs s = [Answered True, Answered True, Answered True]
    \<and> current_config s = c\<lparr>LogLevel := l\<rparr> \<and> restart_ivl s = restart_range c \<and> lock_ivl s = lock_range c
    \<and> fst (Load path (conf_disk s)) = Inr (c\<lparr>LogLevel := l\<rparr>)"
proof -
  let ?a = "apply_settings q c" and ?b = "c\<lparr>LogLevel := l\<rparr>"
  have saves: "Save x path v = (True, snd (Save x path v)) \<and> disk_ok path (snd (Save x path v))" if "disk_ok path v" for x v
    using that by (simp add: Save_def disk_ok_def os_WriteFile_def put_file_def)
  have a: "valid_config ?a" "int_fields_ok ?a" "valid_utf8 (Username ?a)"
    using apply_settings_valid [OF assms(4,1)] apply_settings_fields(1) [OF assms(5,2)] assms(3)
    by (simp_all add: apply_settings_fields)
  have b: "valid_config ?b" "int_fields_ok ?b" "valid_utf8 (Username ?b)"
    using assms(1-3,6) by (simp_all add: valid_config_def int_fields_ok_def)
  let ?w1 = "snd (Save ?a path w)"
  have w1: "disk_ok path ?w1" "Load path ?w1 = (Inr ?a, ?w1)"
    using saves assms(7) Load_Save [OF a assms(7)] by simp_all
  have w2: "fst (Load path (snd (Save ?b path ?w1))) = Inr ?b"
    using Load_Save [OF b w1(1)] by simp
  have start: "reach conf_init conf_sys (conf_start c path w)"
    using assms(1) by (intro reach_init) (auto simp: conf_init_def)
  obtain s where s: "follow (lost_update_run q l) (conf_start c path w) = Some s"
    and rest: "reqs s = [Answered True, Answered True, Answered True]" "current_config s = ?b"
      "restart_ivl s = restart_range c" "lock_ivl s = lock_range c" "conf_disk s = snd (Save ?b path ?w1)"
    using lost_update_state [OF assms(4,6,8), of ?w1 "snd (Save ?b path ?w1)"] saves assms(7) w1 by blast
  have "arrivals (lost_update_run q l) = [UpdLock q, ReLoad, LvlLock l]"
    by (simp add: lost_update_run_def del: replicate.simps)
  then show ?thesis using follow_reach [OF start s] s rest w2 by auto
qed

theorem update_can_be_lost_witness:
  "\<exists>s. follow (lost_update_run demo_settings ''info'') (conf_start defaults ''c'' (snd (Save defaults ''c'' empty_disk))) = Some s
    \<and> reqs s = [Answered True, Answered True, Answered True] \<and> restart_ivl s = \<lparr>MinMinutes = 5, MaxMinutes = 15\<rparr>"
proof -
  let ?w = "snd (Save defaults ''c'' empty_disk)"
  have "disk_ok ''c'' ?w" "Load ''c'' ?w = (Inr defaults, ?w)"
    using Load_Save [of defaults "''c''" empty_disk] defaults_int_valid
    by (simp_all add: Save_def disk_ok_def os_WriteFile_def put_file_def empty_disk_def)
  then show ?thesis
    using update_can_be_lost [OF defaults_valid _ _ demo_settings_ok, of "''info''" "''c''" ?w] defaults_int_valid
      decode_settings_i64 [OF demo_update_decodes]
    by (auto simp: restart_range_def defaults_def)
qed

end
