(* ===== verification/Spec2Isabelle.thy ===== *)
theory Spec2Isabelle
  imports Program Executor Script Responses ConfigRaces
begin

text \<open>
  A model of winctl, a Go program that restarts a Windows machine or locks its screen on a random
  schedule or once, controlled from a web dashboard, and that replaces its own binary by newer
  releases. All files are relative to \<open>src/\<close>.

  \<^bold>\<open>The parts of the program and how they interact.\<close> \<open>cmd/root.go\<close> dispatches the command line. The
  commands of \<open>cmd/service_windows.go\<close> install, remove, start, stop and upgrade the Windows service;
  \<open>run\<close> starts the program in the foreground and \<open>service/service_windows.go\<close> as a service. Both
  starts load \<open>config.json\<close> (\<open>config\<close>), connect the shared state (\<open>state/state.go\<close>) to the file
  \<open>state.json\<close> (\<open>state/persist.go\<close>), create the scheduler (\<open>scheduler\<close>), resume the schedules that
  were on, and serve the API (\<open>server/server.go\<close>, \<open>server/handlers.go\<close>) behind the middleware of
  \<open>server/auth.go\<close>. The scheduler runs one goroutine per started activity, which reports to the
  state and calls \<open>executor\<close>; every change of the intent is written to \<open>state.json\<close> by a callback.
  The updater (\<open>updater\<close>) asks for the latest release, in the background or on request, and
  \<open>server/upgrade_windows.go\<close> hands a downloaded binary to a batch script.

  \<^bold>\<open>Foundations.\<close>
  \<^item> \<open>Prelude\<close>: 64-bit wrap-around (\<open>i64\<close>), durations in nanoseconds, the functions of \<open>strings\<close> and
    \<open>strconv\<close> in use, and the locale \<open>inductive_invariant\<close> over reachable states.
  \<^item> \<open>Base64\<close>, \<open>Json\<close>, \<open>Json_Roundtrip\<close>, \<open>Sha256\<close>: the parts of the standard library whose results the
    program depends on; the locale \<open>codec\<close> is the contract of a printer and its reader, interpreted
    for the JSON printer with both decoders.
  \<^item> \<open>Platform\<close>: the disk with its faults (\<open>os.ReadFile\<close>, \<open>os.WriteFile\<close>, \<open>os.Remove\<close>) and how
    \<open>encoding/json\<close> fills a struct.

  \<^bold>\<open>Components.\<close> A Go struct is a record, a method is a function from the record to the results and
  the record, an error is a value of a sum or an option.
  \<^item> \<open>Config\<close> (\<open>config/config.go\<close>, \<open>config/testing.go\<close>): \<open>Load\<close>, \<open>Save\<close> and the checks. Loaded
    configurations are well-formed, exactly which files are accepted is characterised, and saving and
    loading are inverse.
  \<^item> \<open>StateStore\<close> (\<open>state/state.go\<close>) and \<open>Persist\<close> (\<open>state/persist.go\<close>): each method is a critical section
    followed by a notification; the locale \<open>notifying_op\<close> is the contract of the five setters. The
    file holds the intent after any sequence of calls.
  \<^item> \<open>Scheduler\<close> (\<open>scheduler/scheduler.go\<close>): the transition system \<open>sys_step\<close> whose steps are calls of
    methods (\<open>do_op\<close>), steps of goroutines between shared accesses (\<open>go_step\<close>) and time. \<open>Slots\<close> holds
    the abstract protocol of one activity (a cancel function, a generation and its goroutines), its
    invariant, and the simulation of every step in each of the four slots. \<open>Runs\<close> has the locale
    \<open>goroutine_invariant\<close>, interpreted for the delay of a one-shot and the pace of a schedule;
    \<open>Flags\<close> is about the flags in the state; \<open>Races\<close> contains three runs in which a flag or the record
    is wrong; \<open>Scheduling\<close> states the properties.
  \<^item> \<open>Executor\<close> (\<open>executor\<close>): what the four actions do, with every handle of \<open>LockScreen\<close>.
  \<^item> \<open>Auth\<close> (\<open>server/auth.go\<close>), \<open>Access\<close>, \<open>Guard\<close>: the tracker of failed logins, the sessions and the
    middleware; the locale \<open>lockout_table\<close> is the contract between the tracker and the middleware.
    The tracker implements a history of failures, the sessions implement a table of expiry times, and
    a request passes exactly if it is \<open>authorised\<close>.
  \<^item> \<open>Updater\<close> (\<open>updater/updater.go\<close>): versions with the linear order \<open>semver\<close>, the check, the download
    with its checksum, the background loop.
  \<^item> \<open>Upgrade\<close> (\<open>server/upgrade_windows.go\<close>, \<open>server/upgrade_other.go\<close>) and \<open>Script\<close>: the goroutine
    \<open>applyUpgrade\<close> with the text of its batch script, and the script as a program that is executed
    under arbitrary answers of the service manager and of \<open>copy\<close>; the text is the print of that program.
  \<^item> \<open>Handlers\<close> (\<open>server/handlers.go\<close>, \<open>server/server.go\<close>, \<open>logging/logging.go\<close>): the record \<open>server\<close>, the
    fifteen handlers, the router and its composition with the middleware. \<open>Handling\<close> says what they
    change, \<open>Responses\<close> what they answer.
  \<^item> \<open>ConfigRaces\<close> (\<open>configHolder\<close> in \<open>server/auth.go\<close> and its users in \<open>server/handlers.go\<close>): the handlers that
    change the configuration as requests that overlap, with the lock, the objects behind the pointer
    and the reads outside the lock. What holds in every interleaving, that the functions of
    \<open>Handlers\<close> are the undisturbed runs, and runs that lose an update or mix two.
  \<^item> \<open>Lifecycle\<close> (\<open>cmd/root.go\<close>, \<open>service/service_windows.go\<close>): flags, the two starts, resumption,
    shutdown. \<open>Commands\<close> (\<open>cmd/service_windows.go\<close>, \<open>cmd/service_other.go\<close>): the five service commands
    on a host with a disk, services and firewall rules. \<open>Program\<close> composes them as \<open>Run\<close> does.
  \<^item> \<open>ServerRuns\<close>: the whole program as one transition system, from a start on: requests, goroutines,
    time, the background check, the parts of an upgrade, changes of the disk and the shutdown, in any
    order. Its locale \<open>scheduler_invariant\<close> lifts the invariants of \<open>Slots\<close>, \<open>Runs\<close> and \<open>Flags\<close> to it.

  \<^bold>\<open>Interleaving.\<close> A method of the scheduler is atomic because it holds \<open>s.mu\<close>; a goroutine may be
  preempted between any two shared accesses. In \<open>ServerRuns\<close> a request is served atomically, except
  that \<open>updateApply\<close> may be split after it has set its flag; changes of the configuration that overlap
  are the subject of \<open>ConfigRaces\<close>. Memory is sequentially consistent.

  \<^bold>\<open>Bounds and fuel.\<close> Generations are \<open>64 word\<close>s, so that uniqueness of a live goroutine is shown for
  fewer than \<open>2 ^ 64\<close> starts; a program that starts one every nanosecond would need centuries. A
  cancelled goroutine ends within eleven of its own steps, an upgrade attempt within three. The JSON
  parser recurses on the length of its input, which is enough because every call consumes a byte,
  and stops at the nesting depth of 10000 that Go allows. Nothing else needs fuel.

  \<^bold>\<open>Parameters.\<close> The clock, random bytes and random choices, the network, the functions of
  \<open>path/filepath\<close>, the service manager, \<open>netsh\<close>, \<open>schtasks.exe\<close>, the answers of the Windows API, the
  printing of times and of errors, the file server.

  \<^bold>\<open>Not modelled.\<close> \<open>main.go\<close> only calls \<open>cmd.Run\<close>; \<open>web\<close> embeds static files. Log lines are left out
  (the level of the logger is modelled). \<open>svc.Run\<close> and the HTTP server of the standard library, with
  its timeouts and redirects, belong to the platform. Printing on the console is left out except for
  the usage and the refusals of other platforms.
\<close>

end
